(* ===== verification/Prelude.thy ===== *)
theory Prelude
  imports Main "HOL-Library.Word" "HOL-Library.AList"
begin

text \<open>
  Shared vocabulary of the development.

  \<^item> Machine integers. Rust's \<open>u64\<close> and (on the 64-bit targets the App Server ships for)
    \<open>usize\<close> are natural numbers with the width written out: \<open>u64_add\<close> and \<open>u64_sub\<close> are
    the operators of a release build, which wrap; \<open>sat_add64\<close> and \<open>checked_add64\<close> are
    \<open>saturating_add\<close> and \<open>checked_add\<close>. Sizes that are bounded by the length of a file or
    of a buffer in memory are plain naturals.
  \<^item> Decimal rendering of an unsigned integer, as \<open>format!("{}", n)\<close> prints it.
  \<^item> Hash maps whose iteration order matters to the model are association lists
    (\<open>HOL-Library.AList\<close>); every theorem holds for every order of the list, so for every
    iteration order of the hash map.
  \<^item> Two locales for components that are driven by a sequence of calls: \<open>step_machine\<close>, whose
    invariant may count the calls made so far (used where a counter of finite width grows by one
    per call), and \<open>invariant_machine\<close>, whose invariant does not.
\<close>

named_theorems u64_simps \<open>machine-integer operators on values that stay in range\<close>
named_theorems alist_simps \<open>association lists read back after an update\<close>

section \<open>Machine integers\<close>

abbreviation two64 :: nat where
  "two64 \<equiv> 18446744073709551616"

definition u64_max :: nat where
  "u64_max = two64 - 1"

definition u64_add :: "nat \<Rightarrow> nat \<Rightarrow> nat" where
  "u64_add a b = (a + b) mod two64"

definition u64_sub :: "nat \<Rightarrow> nat \<Rightarrow> nat" where
  "u64_sub a b = (if b \<le> a then a - b else a + two64 - b)"

definition sat_add64 :: "nat \<Rightarrow> nat \<Rightarrow> nat" where
  "sat_add64 a b = min (a + b) u64_max"

definition sat_mul64 :: "nat \<Rightarrow> nat \<Rightarrow> nat" where
  "sat_mul64 a b = min (a * b) u64_max"

definition checked_add64 :: "nat \<Rightarrow> nat \<Rightarrow> nat option" where
  "checked_add64 a b = (if a + b < two64 then Some (a + b) else None)"

lemma u64_add_small [u64_simps]: "a + b < two64 \<Longrightarrow> u64_add a b = a + b"
  by (simp add: u64_add_def)

lemma u64_sub_small [u64_simps]: "b \<le> a \<Longrightarrow> u64_sub a b = a - b"
  by (simp add: u64_sub_def)

lemma sat_add64_small [u64_simps]: "a + b < two64 \<Longrightarrow> sat_add64 a b = a + b"
  by (simp add: sat_add64_def u64_max_def)

lemma checked_add64_small [u64_simps]: "a + b < two64 \<Longrightarrow> checked_add64 a b = Some (a + b)"
  by (simp add: checked_add64_def)

lemma u64_add_less: "u64_add a b < two64"
  by (simp add: u64_add_def)

section \<open>Decimal rendering\<close>

definition dec_digit :: "nat \<Rightarrow> char" where
  "dec_digit d = char_of (48 + d)"

fun dec_string :: "nat \<Rightarrow> string" where
  "dec_string n =
     (if n < 10 then [dec_digit n] else dec_string (n div 10) @ [dec_digit (n mod 10)])"

declare dec_string.simps [simp del]

definition dec_value :: "string \<Rightarrow> nat" where
  "dec_value s = foldl (\<lambda>acc c. 10 * acc + (of_char c - 48)) 0 s"

lemma dec_digit_value: "d < 10 \<Longrightarrow> of_char (dec_digit d) - (48::nat) = d"
  by (simp add: dec_digit_def)

lemma dec_value_string: "dec_value (dec_string n) = n"
proof (induction n rule: dec_string.induct)
  case (1 n)
  show ?case
  proof (cases "n < 10")
    case True
    then show ?thesis
      by (simp add: dec_string.simps [of n] dec_value_def dec_digit_value)
  next
    case False
    with 1 have "dec_value (dec_string (n div 10)) = n div 10" by simp
    then have "dec_value (dec_string (n div 10) @ [dec_digit (n mod 10)]) = 10 * (n div 10) + n mod 10"
      by (simp add: dec_value_def dec_digit_value)
    with False show ?thesis
      by (simp add: dec_string.simps [of n])
  qed
qed

lemma dec_string_inject [simp]: "dec_string m = dec_string n \<longleftrightarrow> m = n"
  by (metis dec_value_string)

section \<open>Fallible steps\<close>

text \<open>The \<open>?\<close> operator of a function that returns \<open>Result\<close>.\<close>

definition and_then :: "'e + 'a \<Rightarrow> ('a \<Rightarrow> 'e + 'b) \<Rightarrow> 'e + 'b" where
  "and_then r f = (case r of Inl e \<Rightarrow> Inl e | Inr x \<Rightarrow> f x)"

lemma and_then_simps [simp]:
  "and_then (Inl e) f = Inl e"
  "and_then (Inr x) f = f x"
  by (simp_all add: and_then_def)

lemma and_then_eq_Inr: "and_then r f = Inr y \<longleftrightarrow> (\<exists>x. r = Inr x \<and> f x = Inr y)"
  by (cases r) simp_all

definition ok_or :: "'a option \<Rightarrow> 'e \<Rightarrow> 'e + 'a" where
  "ok_or x e = (case x of None \<Rightarrow> Inl e | Some v \<Rightarrow> Inr v)"

lemma ok_or_simps [simp]: "ok_or None e = Inl e" "ok_or (Some v) e = Inr v"
  by (simp_all add: ok_or_def)

section \<open>Association lists\<close>

abbreviation keys_distinct :: "('k \<times> 'v) list \<Rightarrow> bool" where
  "keys_distinct m \<equiv> distinct (map fst m)"

declare map_of_eq_Some_iff [simp del] Some_eq_map_of_iff [simp del]

text \<open>\<open>HashMap::retain\<close> on the values, and an update of every value in place.\<close>

definition alist_map :: "('k \<Rightarrow> 'v \<Rightarrow> 'v) \<Rightarrow> ('k \<times> 'v) list \<Rightarrow> ('k \<times> 'v) list" where
  "alist_map f m = map (\<lambda>(k, v). (k, f k v)) m"

definition alist_filter :: "('k \<Rightarrow> 'v \<Rightarrow> bool) \<Rightarrow> ('k \<times> 'v) list \<Rightarrow> ('k \<times> 'v) list" where
  "alist_filter p m = filter (\<lambda>(k, v). p k v) m"

lemma fst_alist_map [simp]: "map fst (alist_map f m) = map fst m"
  by (induction m) (auto simp: alist_map_def)

lemma map_of_alist_map [alist_simps]: "map_of (alist_map f m) k = map_option (f k) (map_of m k)"
  by (induction m) (auto simp: alist_map_def)

lemma keys_distinct_filter [simp]: "keys_distinct m \<Longrightarrow> keys_distinct (alist_filter p m)"
  by (induction m) (auto simp: alist_filter_def)

lemma map_of_alist_filter [alist_simps]:
  "keys_distinct m \<Longrightarrow>
     map_of (alist_filter p m) k = (case map_of m k of None \<Rightarrow> None | Some v \<Rightarrow> if p k v then Some v else None)"
  by (induction m) (force simp: alist_filter_def dest: map_of_SomeD split: option.splits)+

lemma map_of_update [alist_simps]: "map_of (AList.update k v m) k' = (if k' = k then Some v else map_of m k')"
  by (simp add: update_conv')

lemma map_of_delete [alist_simps]: "map_of (AList.delete k m) k' = (if k' = k then None else map_of m k')"
  by (simp add: delete_conv')

lemma keys_distinct_update [simp]: "keys_distinct m \<Longrightarrow> keys_distinct (AList.update k v m)"
  by (rule distinct_update)

lemma keys_distinct_delete [simp]: "keys_distinct m \<Longrightarrow> keys_distinct (AList.delete k m)"
  by (rule distinct_delete)

text \<open>The sum of a measure over the values of a hash map.\<close>

definition alist_sum :: "('v \<Rightarrow> nat) \<Rightarrow> ('k \<times> 'v) list \<Rightarrow> nat" where
  "alist_sum f m = sum_list (map (\<lambda>(_, v). f v) m)"

lemma alist_sum_simps [simp]: "alist_sum f [] = 0" "alist_sum f ((k, v) # m) = f v + alist_sum f m"
  by (simp_all add: alist_sum_def)

lemma alist_sum_update_new: "map_of m k = None \<Longrightarrow> alist_sum f (AList.update k v m) = alist_sum f m + f v"
  by (induction m) (auto split: if_splits)

lemma alist_sum_update:
  "map_of m k = Some v0 \<Longrightarrow> alist_sum f (AList.update k v m) + f v0 = alist_sum f m + f v"
  by (induction m) (auto split: if_splits)

lemma alist_sum_delete:
  "keys_distinct m \<Longrightarrow> map_of m k = Some v \<Longrightarrow> alist_sum f (AList.delete k m) + f v = alist_sum f m"
proof (induction m)
  case (Cons a m)
  show ?case
  proof (cases "fst a = k")
    case True
    with Cons.prems(1) have "AList.delete k m = m"
      by (auto intro: delete_notin_dom)
    with True Cons.prems show ?thesis by (cases a) (simp add: AList.delete_eq)
  next
    case False
    with Cons show ?thesis by (cases a) (auto simp: AList.delete_eq)
  qed
qed simp

lemma alist_sum_ge: "map_of m k = Some v \<Longrightarrow> f v \<le> alist_sum f m"
  by (induction m) (auto split: if_splits)

lemma alist_sum_zero: "alist_sum f m = 0 \<longleftrightarrow> (\<forall>(k, v) \<in> set m. f v = 0)"
  by (induction m) auto

section \<open>Components driven by a sequence of calls\<close>

locale step_machine =
  fixes step :: "'s \<Rightarrow> 'e \<Rightarrow> 's"
    and inv :: "nat \<Rightarrow> 's \<Rightarrow> bool"
    and bound :: nat
  assumes step_inv: "inv n s \<Longrightarrow> n < bound \<Longrightarrow> inv (Suc n) (step s e)"
begin

lemma run_inv: "inv n s \<Longrightarrow> n + length es \<le> bound \<Longrightarrow> inv (n + length es) (foldl step s es)"
proof (induction es arbitrary: n s)
  case Nil
  then show ?case by simp
next
  case (Cons e es)
  then have "inv (Suc n) (step s e)" by (simp add: step_inv)
  moreover from Cons.prems(2) have "Suc n + length es \<le> bound" by simp
  ultimately have "inv (Suc n + length es) (foldl step (step s e) es)" by (rule Cons.IH)
  then show ?case by simp
qed

end

locale invariant_machine =
  fixes step :: "'s \<Rightarrow> 'e \<Rightarrow> 's"
    and inv :: "'s \<Rightarrow> bool"
  assumes keeps: "inv s \<Longrightarrow> inv (step s e)"
begin

lemma run_keeps: "inv s \<Longrightarrow> inv (foldl step s es)"
  by (induction es arbitrary: s) (simp_all add: keeps)

end

end
