(* ===== verification/Runtime_Error.thy ===== *)
theory Runtime_Error
  imports Prelude
begin

text \<open>
  The error value of the App Server (\<open>src/openaide-rs/app-server/src/protocol/errors.rs\<close>): one
  constructor per variant, its JSON-RPC code, its stable reason string, its rendered message
  (\<open>thiserror\<close>'s \<open>Display\<close>) and whether a client may retry.
\<close>

datatype runtime_error =
    InvalidParams string
  | TaskNotFound string
  | NativeSessionMissing string
  | NotReady string
  | Conflict string
  | OutcomeUnknown string
  | AuthRequired string
  | SetupRequired string
  | NodeJsRequired string
  | Unsupported string
  | CapabilityMissing string
  | MethodNotFound string
  | Storage string
  | Internal string
  | AgentReported string

fun error_code :: "runtime_error \<Rightarrow> int" where
  "error_code (InvalidParams _) = -32602"
| "error_code (TaskNotFound _) = -32005"
| "error_code (NativeSessionMissing _) = -32005"
| "error_code (Conflict _) = -32009"
| "error_code (OutcomeUnknown _) = -32009"
| "error_code (NotReady _) = -32002"
| "error_code (AuthRequired _) = -32002"
| "error_code (SetupRequired _) = -32002"
| "error_code (NodeJsRequired _) = -32002"
| "error_code (CapabilityMissing _) = -32004"
| "error_code (Unsupported _) = -32004"
| "error_code (MethodNotFound _) = -32601"
| "error_code (Storage _) = -32603"
| "error_code (Internal _) = -32603"
| "error_code (AgentReported _) = -32603"

fun error_reason :: "runtime_error \<Rightarrow> string" where
  "error_reason (InvalidParams _) = ''validation_failed''"
| "error_reason (TaskNotFound _) = ''task_not_found''"
| "error_reason (NativeSessionMissing _) = ''native_session_missing''"
| "error_reason (NotReady _) = ''not_ready''"
| "error_reason (Conflict _) = ''conflict''"
| "error_reason (OutcomeUnknown _) = ''outcome_unknown''"
| "error_reason (AuthRequired _) = ''auth_required''"
| "error_reason (SetupRequired _) = ''setup_required''"
| "error_reason (NodeJsRequired _) = ''node_js_required''"
| "error_reason (Unsupported _) = ''unsupported''"
| "error_reason (CapabilityMissing _) = ''capability_missing''"
| "error_reason (MethodNotFound _) = ''method_not_found''"
| "error_reason (Storage _) = ''storage_error''"
| "error_reason (Internal _) = ''internal_error''"
| "error_reason (AgentReported _) = ''agent_reported_failure''"

fun error_message :: "runtime_error \<Rightarrow> string" where
  "error_message (InvalidParams m) = ''invalid params: '' @ m"
| "error_message (TaskNotFound m) = ''task not found: '' @ m"
| "error_message (NativeSessionMissing m) = ''native session missing: '' @ m"
| "error_message (NotReady m) = ''runtime not ready: '' @ m"
| "error_message (Conflict m) = ''conflict: '' @ m"
| "error_message (OutcomeUnknown m) = ''outcome unknown: '' @ m"
| "error_message (AuthRequired m) = ''agent authentication required: '' @ m"
| "error_message (SetupRequired m) = ''agent setup required: '' @ m"
| "error_message (NodeJsRequired m) = ''Node.js required: '' @ m"
| "error_message (Unsupported m) = ''agent unsupported: '' @ m"
| "error_message (CapabilityMissing m) = ''capability missing: '' @ m"
| "error_message (MethodNotFound m) = ''method not found: '' @ m"
| "error_message (Storage m) = ''storage error: '' @ m"
| "error_message (Internal m) = ''internal error: '' @ m"
| "error_message (AgentReported m) = ''agent reported a failure: '' @ m"

text \<open>The \<open>recoverable\<close> member of the error data.\<close>

fun error_recoverable :: "runtime_error \<Rightarrow> bool" where
  "error_recoverable (InvalidParams _) = False"
| "error_recoverable _ = True"

text \<open>The wire form \<open>RpcError\<close>: code, message, and the data object's two members.\<close>

record rpc_error =
  rpc_code :: int
  rpc_message :: string
  rpc_reason :: string
  rpc_recoverable :: bool

definition rpc_error_from :: "runtime_error \<Rightarrow> rpc_error" where
  "rpc_error_from e =
     \<lparr>rpc_code = error_code e, rpc_message = error_message e,
      rpc_reason = error_reason e, rpc_recoverable = error_recoverable e\<rparr>"

lemma error_reason_separates_kinds:
  "error_reason e = error_reason e' \<Longrightarrow> error_code e = error_code e'"
  by (cases e; cases e') simp_all

end
