(* ===== verification/Journal_Frame.thy ===== *)
theory Journal_Frame
  imports Runtime_Error
begin

text \<open>
  The framed journal file (\<open>src/openaide-rs/app-server/src/storage/task_journal/frame.rs\<close>).

  A journal is a ten-byte header followed by frames; a frame is an eight-byte little-endian
  length, the payload and the payload's CRC-32. The file system the functions touch is
  \<open>io_state\<close>: the contents of every file, the directories, and the fault injector's state.
  Every function of the source is an \<open>io\<close> computation over it, with the fault points in the
  source's order. The payload codec (\<open>serde_json\<close> behind the \<open>FramedRecord\<close> trait) is the record
  \<open>framed_record\<close>, a parameter of every operation.
\<close>

unbundle bit_operations_syntax

type_synonym byte = "8 word"
type_synonym path = "string list"

section \<open>Bytes\<close>

text \<open>\<open>to_le_bytes\<close> and \<open>from_le_bytes\<close> at a width of \<open>k\<close> bytes.\<close>

fun to_le :: "nat \<Rightarrow> nat \<Rightarrow> byte list" where
  "to_le 0 n = []"
| "to_le (Suc k) n = of_nat n # to_le k (n div 256)"

fun from_le :: "byte list \<Rightarrow> nat" where
  "from_le [] = 0"
| "from_le (b # bs) = unat b + 256 * from_le bs"

definition crc_bit :: "32 word \<Rightarrow> 32 word" where
  "crc_bit crc =
     (let mask = 0 - (crc AND 1) in drop_bit 1 crc XOR (0xedb88320 AND mask))"

fun crc_bits :: "nat \<Rightarrow> 32 word \<Rightarrow> 32 word" where
  "crc_bits 0 crc = crc"
| "crc_bits (Suc n) crc = crc_bits n (crc_bit crc)"

definition crc_byte :: "32 word \<Rightarrow> byte \<Rightarrow> 32 word" where
  "crc_byte crc b = crc_bits 8 (crc XOR ucast b)"

definition crc32 :: "byte list \<Rightarrow> 32 word" where
  "crc32 bytes = NOT (foldl crc_byte (- 1) bytes)"

section \<open>Constants of the format\<close>

definition MAGIC :: "byte list" where
  "MAGIC = [79, 65, 73, 68, 69, 84, 74, 0]"

definition FORMAT_VERSION :: nat where
  "FORMAT_VERSION = 1"

definition FILE_HEADER_LEN :: nat where
  "FILE_HEADER_LEN = 10"

definition FRAME_LENGTH_LEN :: nat where
  "FRAME_LENGTH_LEN = 8"

definition FRAME_CHECKSUM_LEN :: nat where
  "FRAME_CHECKSUM_LEN = 4"

definition MAX_FRAME_BYTES :: nat where
  "MAX_FRAME_BYTES = 268435456"

section \<open>Durability boundaries and their fault injector\<close>

datatype journal_kind = RootKind | TaskKind | ArtifactKind | ArtifactReferenceKind | CompactionKind

datatype fault_point =
    DirectoryParentSync
  | CreateOpen
  | CreateHeaderWrite
  | FrameLengthWrite
  | FramePayloadWrite
  | FrameChecksumWrite
  | FileSync
  | ParentSync
  | AppendOpen
  | TruncateOpen
  | TruncateSetLen
  | TruncateSync
  | CompactionValidate
  | CompactionPublish
  | CompactionPublishParentSync
  | WorkerDispatch

fun kind_name :: "journal_kind \<Rightarrow> string" where
  "kind_name RootKind = ''Root''"
| "kind_name TaskKind = ''Task''"
| "kind_name ArtifactKind = ''Artifact''"
| "kind_name ArtifactReferenceKind = ''ArtifactReference''"
| "kind_name CompactionKind = ''Compaction''"

fun point_name :: "fault_point \<Rightarrow> string" where
  "point_name DirectoryParentSync = ''DirectoryParentSync''"
| "point_name CreateOpen = ''CreateOpen''"
| "point_name CreateHeaderWrite = ''CreateHeaderWrite''"
| "point_name FrameLengthWrite = ''FrameLengthWrite''"
| "point_name FramePayloadWrite = ''FramePayloadWrite''"
| "point_name FrameChecksumWrite = ''FrameChecksumWrite''"
| "point_name FileSync = ''FileSync''"
| "point_name ParentSync = ''ParentSync''"
| "point_name AppendOpen = ''AppendOpen''"
| "point_name TruncateOpen = ''TruncateOpen''"
| "point_name TruncateSetLen = ''TruncateSetLen''"
| "point_name TruncateSync = ''TruncateSync''"
| "point_name CompactionValidate = ''CompactionValidate''"
| "point_name CompactionPublish = ''CompactionPublish''"
| "point_name CompactionPublishParentSync = ''CompactionPublishParentSync''"
| "point_name WorkerDispatch = ''WorkerDispatch''"

text \<open>
  The file system and the injector. \<open>armed\<close> and \<open>sync_calls\<close> are the injector's two fields; the
  production injector is the one that is not armed.
\<close>

record io_state =
  files :: "path \<Rightarrow> byte list option"
  dirs :: "path set"
  armed :: "(journal_kind \<times> fault_point) option"
  sync_calls :: nat

type_synonym 'a io = "io_state \<Rightarrow> (runtime_error + 'a) \<times> io_state"

definition io_return :: "'a \<Rightarrow> 'a io" where
  "io_return x s = (Inr x, s)"

definition io_fail :: "runtime_error \<Rightarrow> 'a io" where
  "io_fail e s = (Inl e, s)"

definition io_bind :: "'a io \<Rightarrow> ('a \<Rightarrow> 'b io) \<Rightarrow> 'b io" where
  "io_bind m f s = (case m s of (Inl e, s') \<Rightarrow> (Inl e, s') | (Inr x, s') \<Rightarrow> f x s')"

definition io_seq :: "unit io \<Rightarrow> 'b io \<Rightarrow> 'b io" where
  "io_seq m k = io_bind m (\<lambda>_. k)"

definition io_lift :: "runtime_error + 'a \<Rightarrow> 'a io" where
  "io_lift r s = (r, s)"

fun io_each :: "('a \<Rightarrow> unit io) \<Rightarrow> 'a list \<Rightarrow> unit io" where
  "io_each f [] = io_return ()"
| "io_each f (x # xs) = io_seq (f x) (io_each f xs)"

definition injected_fault :: "journal_kind \<Rightarrow> fault_point \<Rightarrow> runtime_error" where
  "injected_fault kind point =
     Storage (''Task journal injected durability fault at '' @ kind_name kind @ ''/'' @ point_name point)"

definition check :: "journal_kind \<Rightarrow> fault_point \<Rightarrow> unit io" where
  "check kind point s =
     (if armed s = Some (kind, point)
      then (Inl (injected_fault kind point), s\<lparr>armed := None\<rparr>)
      else (Inr (), s))"

definition record_sync :: "unit io" where
  "record_sync s = (Inr (), s\<lparr>sync_calls := u64_add (sync_calls s) 1\<rparr>)"

section \<open>Operating-system calls\<close>

definition io_error :: "string \<Rightarrow> string \<Rightarrow> runtime_error" where
  "io_error stage kind = Storage (''Task journal '' @ stage @ '' failed (kind='' @ kind @ '')'')"

definition json_error :: "string \<Rightarrow> string \<Rightarrow> runtime_error" where
  "json_error stage kind = Storage (''Task journal '' @ stage @ '' failed (kind='' @ kind @ '')'')"

definition parent :: "path \<Rightarrow> path option" where
  "parent p = (if p = [] then None else Some (butlast p))"

definition path_exists :: "io_state \<Rightarrow> path \<Rightarrow> bool" where
  "path_exists s p \<longleftrightarrow> p \<in> dirs s \<or> files s p \<noteq> None"

text \<open>\<open>OpenOptions::new().create_new(true).write(true).open(path)\<close>.\<close>

definition open_create_new :: "string \<Rightarrow> path \<Rightarrow> unit io" where
  "open_create_new stage p s =
     (if path_exists s p then (Inl (io_error stage ''already_exists''), s)
      else if parent p = None \<or> the (parent p) \<notin> dirs s then (Inl (io_error stage ''not_found''), s)
      else (Inr (), s\<lparr>files := (files s)(p := Some [])\<rparr>))"

text \<open>Opening an existing file, for reading, for appending or for truncation.\<close>

definition open_existing :: "string \<Rightarrow> path \<Rightarrow> (byte list) io" where
  "open_existing stage p s =
     (case files s p of
        None \<Rightarrow> (Inl (io_error stage ''not_found''), s)
      | Some bs \<Rightarrow> (Inr bs, s))"

definition write_all :: "path \<Rightarrow> byte list \<Rightarrow> unit io" where
  "write_all p bs s =
     (Inr (), s\<lparr>files := (files s)(p := Some ((case files s p of None \<Rightarrow> [] | Some old \<Rightarrow> old) @ bs))\<rparr>)"

definition set_len :: "path \<Rightarrow> nat \<Rightarrow> unit io" where
  "set_len p n s = (Inr (), s\<lparr>files := (files s)(p := map_option (take n) (files s p))\<rparr>)"

definition ancestors :: "path \<Rightarrow> path list" where
  "ancestors p = map (\<lambda>n. take n p) [0..<Suc (length p)]"

text \<open>\<open>fs::create_dir_all\<close>: fails when the path or one of its ancestors is a file.\<close>

definition create_dir_all :: "path \<Rightarrow> unit io" where
  "create_dir_all p s =
     (if files s p \<noteq> None then (Inl (io_error ''create_parent'' ''already_exists''), s)
      else if \<exists>a \<in> set (ancestors p). files s a \<noteq> None then (Inl (io_error ''create_parent'' ''other''), s)
      else (Inr (), s\<lparr>dirs := dirs s \<union> set (ancestors p)\<rparr>))"

text \<open>\<open>sync_directory\<close> and \<open>durable_replace\<close>, the Unix bodies.\<close>

definition sync_directory :: "path \<Rightarrow> journal_kind \<Rightarrow> fault_point \<Rightarrow> unit io" where
  "sync_directory p kind point =
     io_seq (check kind point)
    (io_seq record_sync
    (\<lambda>s. if path_exists s p then (Inr (), s) else (Inl (io_error ''parent_sync_open'' ''not_found''), s)))"

definition durable_replace :: "path \<Rightarrow> path \<Rightarrow> unit io" where
  "durable_replace temporary p s =
     (case files s temporary of
        None \<Rightarrow> (Inl (io_error ''compact_replace'' ''not_found''), s)
      | Some bs \<Rightarrow>
          if p \<in> dirs s then (Inl (io_error ''compact_replace'' ''other''), s)
          else (Inr (), s\<lparr>files := (files s)(temporary := None, p := Some bs)\<rparr>))"

definition remove_file :: "path \<Rightarrow> io_state \<Rightarrow> io_state" where
  "remove_file p s = s\<lparr>files := (files s)(p := None)\<rparr>"

section \<open>Framing\<close>

text \<open>
  The \<open>FramedRecord\<close> trait: \<open>to_vec\<close> is \<open>serde_json::to_vec\<close> (its failure is the error category's
  name), \<open>decode\<close> the trait's decoding of a checksummed payload.
\<close>

record 'a framed_record =
  to_vec :: "'a \<Rightarrow> string + byte list"
  decode :: "byte list \<Rightarrow> runtime_error + 'a"
  format_version :: "'a \<Rightarrow> nat"
  sequence_of :: "'a \<Rightarrow> nat"

record 'a replayed_frames =
  frames :: "'a list"
  frame_ends :: "nat list"
  frame_count :: nat

definition frame_too_large :: runtime_error where
  "frame_too_large = Storage (''Task journal frame exceeds '' @ dec_string MAX_FRAME_BYTES @ '' bytes'')"

definition size_overflow :: runtime_error where
  "size_overflow = Storage ''Task journal frame size overflow''"

text \<open>The loop of \<open>framed_file_len\<close>, with the length accumulated so far.\<close>

fun framed_file_len_from :: "'a framed_record \<Rightarrow> nat \<Rightarrow> 'a list \<Rightarrow> runtime_error + nat" where
  "framed_file_len_from R len [] = Inr len"
| "framed_file_len_from R len (f # fs) =
     (case to_vec R f of
        Inl kind \<Rightarrow> Inl (json_error ''encode'' kind)
      | Inr payload \<Rightarrow>
          if length payload > MAX_FRAME_BYTES then Inl frame_too_large
          else (case checked_add64 len FRAME_LENGTH_LEN of
              None \<Rightarrow> Inl size_overflow
            | Some l1 \<Rightarrow> (case checked_add64 l1 (length payload) of
                None \<Rightarrow> Inl size_overflow
              | Some l2 \<Rightarrow> (case checked_add64 l2 FRAME_CHECKSUM_LEN of
                  None \<Rightarrow> Inl size_overflow
                | Some l3 \<Rightarrow> framed_file_len_from R l3 fs))))"

definition framed_file_len :: "'a framed_record \<Rightarrow> 'a list \<Rightarrow> runtime_error + nat" where
  "framed_file_len R fs = framed_file_len_from R FILE_HEADER_LEN fs"

definition one_frame_file_len :: "'a framed_record \<Rightarrow> 'a \<Rightarrow> runtime_error + nat" where
  "one_frame_file_len R f = framed_file_len R [f]"

definition write_frame :: "'a framed_record \<Rightarrow> path \<Rightarrow> 'a \<Rightarrow> journal_kind \<Rightarrow> unit io" where
  "write_frame R p f kind =
     (case to_vec R f of
        Inl category \<Rightarrow> io_fail (json_error ''frame_encode'' category)
      | Inr payload \<Rightarrow>
          if length payload > MAX_FRAME_BYTES then io_fail frame_too_large
          else
            io_seq (check kind FrameLengthWrite)
           (io_seq (write_all p (to_le FRAME_LENGTH_LEN (length payload)))
           (io_seq (check kind FramePayloadWrite)
           (io_seq (write_all p payload)
           (io_seq (check kind FrameChecksumWrite)
           (write_all p (to_le FRAME_CHECKSUM_LEN (unat (crc32 payload)))))))))"

function collect_missing :: "io_state \<Rightarrow> path \<Rightarrow> path list \<Rightarrow> runtime_error + path list" where
  "collect_missing s cursor missing =
     (if path_exists s cursor then Inr missing
      else (case parent cursor of
          None \<Rightarrow> Inl (Storage ''Task journal directory has no existing ancestor'')
        | Some up \<Rightarrow> collect_missing s up (missing @ [cursor])))"
  by pat_completeness auto
termination
  by (relation "measure (\<lambda>(s, cursor, missing). length cursor)")
     (auto simp: parent_def split: if_splits)

declare collect_missing.simps [simp del]

definition no_parent :: runtime_error where
  "no_parent = Storage ''Task journal directory has no parent''"

definition create_directory_durably :: "path \<Rightarrow> journal_kind \<Rightarrow> unit io" where
  "create_directory_durably directory kind s =
     (case collect_missing s directory [] of
        Inl e \<Rightarrow> (Inl e, s)
      | Inr missing \<Rightarrow>
          io_seq (create_dir_all directory)
         (io_seq
           (if missing = [] then
              (case parent directory of
                 None \<Rightarrow> io_fail no_parent
               | Some up \<Rightarrow> sync_directory up kind DirectoryParentSync)
            else io_return ())
           (io_each
             (\<lambda>created. case parent created of
                 None \<Rightarrow> io_fail no_parent
               | Some up \<Rightarrow> sync_directory up kind DirectoryParentSync)
             (rev missing))) s)"

definition no_journal_parent :: runtime_error where
  "no_journal_parent = Storage ''Task journal path has no parent''"

definition header_bytes :: "byte list" where
  "header_bytes = MAGIC @ to_le 2 FORMAT_VERSION"

definition create_with_faults :: "'a framed_record \<Rightarrow> path \<Rightarrow> 'a \<Rightarrow> journal_kind \<Rightarrow> unit io" where
  "create_with_faults R p f kind =
     (case parent p of
        None \<Rightarrow> io_fail no_journal_parent
      | Some up \<Rightarrow>
          io_seq (create_directory_durably up kind)
         (io_seq (check kind CreateOpen)
         (io_seq (open_create_new ''create_open'' p)
         (io_seq (check kind CreateHeaderWrite)
         (io_seq (write_all p MAGIC)
         (io_seq (write_all p (to_le 2 FORMAT_VERSION))
         (io_seq (write_frame R p f kind)
         (io_seq (check kind FileSync)
         (io_seq record_sync
         (sync_directory up kind ParentSync))))))))))"

definition append_with_faults :: "'a framed_record \<Rightarrow> path \<Rightarrow> 'a \<Rightarrow> journal_kind \<Rightarrow> unit io" where
  "append_with_faults R p f kind =
     io_seq (check kind AppendOpen)
    (io_bind (open_existing ''append_open'' p) (\<lambda>_.
     io_seq (write_frame R p f kind)
    (io_seq (check kind FileSync) record_sync)))"

section \<open>Replay\<close>

definition validate_header :: "byte list \<Rightarrow> runtime_error + unit" where
  "validate_header bytes =
     (if length bytes < FILE_HEADER_LEN \<or> take (length MAGIC) bytes \<noteq> MAGIC
      then Inl (Storage ''Invalid Task journal header'')
      else let version = from_le (take 2 (drop (length MAGIC) bytes)) in
        if version \<noteq> FORMAT_VERSION
        then Inl (Storage (''Unsupported Task journal version '' @ dec_string version))
        else Inr ())"

definition checksum_mismatch :: "nat \<Rightarrow> runtime_error" where
  "checksum_mismatch expected =
     Storage (''Task journal checksum mismatch at sequence '' @ dec_string expected)"

definition bad_frame_version :: "nat \<Rightarrow> runtime_error" where
  "bad_frame_version v = Storage (''Unsupported journal frame version '' @ dec_string v)"

definition sequence_gap :: "nat \<Rightarrow> nat \<Rightarrow> runtime_error" where
  "sequence_gap expected found =
     Storage (''Task journal sequence gap: expected '' @ dec_string expected @ '', found ''
              @ dec_string found)"

text \<open>
  One iteration of the replay loop on the bytes that remain: the loop breaks (\<open>Inr None\<close>), fails,
  or reads one frame and the number of bytes it occupied.
\<close>

definition read_frame :: "'a framed_record \<Rightarrow> nat \<Rightarrow> byte list \<Rightarrow> runtime_error + ('a \<times> nat) option" where
  "read_frame R expected rest =
     (if length rest < FRAME_LENGTH_LEN then Inr None
      else
        let payload_len = from_le (take FRAME_LENGTH_LEN rest) in
        if payload_len > MAX_FRAME_BYTES then Inl frame_too_large
        else
          let frame_len = FRAME_LENGTH_LEN + payload_len + FRAME_CHECKSUM_LEN in
          if length rest < frame_len then Inr None
          else
            let payload = take payload_len (drop FRAME_LENGTH_LEN rest);
                stored = from_le (take FRAME_CHECKSUM_LEN (drop (FRAME_LENGTH_LEN + payload_len) rest)) in
            if unat (crc32 payload) \<noteq> stored then Inl (checksum_mismatch expected)
            else (case decode R payload of
                Inl e \<Rightarrow> Inl e
              | Inr f \<Rightarrow>
                  if format_version R f \<noteq> FORMAT_VERSION then Inl (bad_frame_version (format_version R f))
                  else if sequence_of R f \<noteq> expected then Inl (sequence_gap expected (sequence_of R f))
                  else Inr (Some (f, frame_len))))"

lemma read_frame_progress:
  "read_frame R expected rest = Inr (Some (f, n)) \<Longrightarrow> 0 < n \<and> n \<le> length rest"
  by (auto simp: read_frame_def Let_def FRAME_LENGTH_LEN_def FRAME_CHECKSUM_LEN_def
        split: if_splits sum.splits)

text \<open>
  The loop: the bytes not read yet, the offset reached, the sequence number expected next, and the
  frames (when they are retained) and frame ends read so far.
\<close>

function replay_loop ::
  "'a framed_record \<Rightarrow> bool \<Rightarrow> byte list \<Rightarrow> nat \<Rightarrow> nat \<Rightarrow> 'a list \<Rightarrow> nat list
     \<Rightarrow> runtime_error + 'a list \<times> nat list \<times> nat" where
  "replay_loop R retain rest cursor expected fs ends =
     (case read_frame R expected rest of
        Inl e \<Rightarrow> Inl e
      | Inr None \<Rightarrow> Inr (fs, ends, cursor)
      | Inr (Some (f, n)) \<Rightarrow>
          replay_loop R retain (drop n rest) (cursor + n) (expected + 1)
            (if retain then fs @ [f] else fs) (ends @ [cursor + n]))"
  by pat_completeness auto
termination
  by (relation "measure (\<lambda>(R, retain, rest, _). length rest)")
     (auto dest: read_frame_progress)

declare replay_loop.simps [simp del]

text \<open>What replay computes from the file's bytes, before it discards an incomplete tail.\<close>

definition replay_bytes ::
  "'a framed_record \<Rightarrow> bool \<Rightarrow> byte list \<Rightarrow> runtime_error + 'a list \<times> nat list \<times> nat" where
  "replay_bytes R retain bytes =
     (if length bytes < FILE_HEADER_LEN then Inl (Storage ''Invalid Task journal header'')
      else and_then (validate_header (take FILE_HEADER_LEN bytes)) (\<lambda>_.
        replay_loop R retain (drop FILE_HEADER_LEN bytes) FILE_HEADER_LEN 1 [] []))"

definition replay_internal :: "'a framed_record \<Rightarrow> path \<Rightarrow> bool \<Rightarrow> 'a replayed_frames io" where
  "replay_internal R p retain =
     io_bind (open_existing ''replay_open'' p) (\<lambda>bytes.
     io_bind (io_lift (replay_bytes R retain bytes)) (\<lambda>(fs, ends, complete_len).
     io_seq (if length bytes - complete_len > 0 then set_len p complete_len else io_return ())
    (io_return \<lparr>frames = fs, frame_ends = ends, frame_count = length ends\<rparr>)))"

definition replay :: "'a framed_record \<Rightarrow> path \<Rightarrow> 'a replayed_frames io" where
  "replay R p = replay_internal R p True"

definition scan :: "'a framed_record \<Rightarrow> path \<Rightarrow> 'a replayed_frames io" where
  "scan R p = replay_internal R p False"

section \<open>Truncation and replacement\<close>

definition truncate_after_with_faults ::
  "path \<Rightarrow> 'a replayed_frames \<Rightarrow> nat \<Rightarrow> journal_kind \<Rightarrow> unit io" where
  "truncate_after_with_faults p replayed retained kind =
     (if retained \<ge> frame_count replayed then io_return ()
      else
        let retained_len = (if retained = 0 then FILE_HEADER_LEN else frame_ends replayed ! (retained - 1)) in
        io_seq (check kind TruncateOpen)
       (io_bind (open_existing ''reconcile_open'' p) (\<lambda>_.
        io_seq (check kind TruncateSetLen)
       (io_seq (set_len p retained_len)
       (io_seq (check kind TruncateSync) record_sync)))))"

definition create_compacted_file :: "'a framed_record \<Rightarrow> path \<Rightarrow> 'a list \<Rightarrow> unit io" where
  "create_compacted_file R p fs =
     (case parent p of
        None \<Rightarrow> io_fail no_journal_parent
      | Some up \<Rightarrow>
          io_seq (create_directory_durably up CompactionKind)
         (io_seq (check CompactionKind CreateOpen)
         (io_seq (open_create_new ''create_open'' p)
         (io_seq (check CompactionKind CreateHeaderWrite)
         (io_seq (write_all p MAGIC)
         (io_seq (write_all p (to_le 2 FORMAT_VERSION))
         (io_seq (io_each (\<lambda>f. write_frame R p f CompactionKind) fs)
         (io_seq (check CompactionKind FileSync)
         (io_seq record_sync
         (sync_directory up CompactionKind ParentSync))))))))))"

text \<open>
  \<open>uuid\<close> is the random part of the temporary file's name. The closure's result decides whether the
  temporary file is removed.
\<close>

definition compact_name :: "path \<Rightarrow> string \<Rightarrow> path \<Rightarrow> path" where
  "compact_name up uuid p = up @ [''.'' @ last p @ ''.compact-'' @ uuid]"

definition replace_body :: "'a framed_record \<Rightarrow> path \<Rightarrow> path \<Rightarrow> path \<Rightarrow> 'a list \<Rightarrow> unit io" where
  "replace_body R up temporary p fs =
     io_seq (create_compacted_file R temporary fs)
    (io_seq (check CompactionKind CompactionValidate)
    (io_bind (replay R temporary) (\<lambda>verified.
     if length (frames verified) \<noteq> length fs
     then io_fail (Storage ''Task journal compaction validation failed'')
     else
       io_seq (check CompactionKind CompactionPublish)
      (io_seq (durable_replace temporary p)
      (sync_directory up CompactionKind CompactionPublishParentSync)))))"

definition replace_frames_with_faults ::
  "'a framed_record \<Rightarrow> string \<Rightarrow> path \<Rightarrow> 'a list \<Rightarrow> unit io" where
  "replace_frames_with_faults R uuid p fs =
     (if fs = [] then io_fail (Storage ''Task journal compaction requires at least one frame'')
      else case parent p of
        None \<Rightarrow> io_fail no_journal_parent
      | Some up \<Rightarrow> (\<lambda>s.
          let temporary = compact_name up uuid p in
          case replace_body R up temporary p fs s of
            (Inr u, s') \<Rightarrow> (Inr u, s')
          | (Inl e, s') \<Rightarrow> (Inl e, remove_file temporary s')))"

definition replace_with_faults :: "'a framed_record \<Rightarrow> string \<Rightarrow> path \<Rightarrow> 'a \<Rightarrow> unit io" where
  "replace_with_faults R uuid p f = replace_frames_with_faults R uuid p [f]"

end
