(* ===== verification/Journal_Frame_Facts.thy ===== *)
theory Journal_Frame_Facts
  imports Journal_Frame
begin

text \<open>
  What the framed journal guarantees: the checksum detects every one-byte corruption, a journal
  that was written is read back exactly, a torn append loses only the frame being appended, a
  replay keeps sequence numbers contiguous and repairs the file so that the next replay discards
  nothing, and the writing, truncating and replacing functions leave one of the states a restart
  can read at every fault point.
\<close>

unbundle bit_operations_syntax

named_theorems frame_consts \<open>widths of the format's fields\<close>

declare FILE_HEADER_LEN_def [frame_consts] FRAME_LENGTH_LEN_def [frame_consts]
  FRAME_CHECKSUM_LEN_def [frame_consts]

section \<open>Specification vocabulary\<close>

definition frame_bytes :: "'a framed_record \<Rightarrow> 'a \<Rightarrow> byte list" where
  "frame_bytes R f =
     (case to_vec R f of
        Inl _ \<Rightarrow> []
      | Inr payload \<Rightarrow> to_le FRAME_LENGTH_LEN (length payload) @ payload
          @ to_le FRAME_CHECKSUM_LEN (unat (crc32 payload)))"

text \<open>
  A frame the writer may append at sequence \<open>i\<close>: it encodes within the size limit, decodes to
  itself, and carries the current version and that sequence number.
\<close>

definition frame_ok :: "'a framed_record \<Rightarrow> nat \<Rightarrow> 'a \<Rightarrow> bool" where
  "frame_ok R i f =
     (case to_vec R f of
        Inl _ \<Rightarrow> False
      | Inr payload \<Rightarrow> length payload \<le> MAX_FRAME_BYTES \<and> decode R payload = Inr f
          \<and> format_version R f = FORMAT_VERSION \<and> sequence_of R f = i)"

fun frames_ok :: "'a framed_record \<Rightarrow> nat \<Rightarrow> 'a list \<Rightarrow> bool" where
  "frames_ok R i [] = True"
| "frames_ok R i (f # fs) = (frame_ok R i f \<and> frames_ok R (i + 1) fs)"

definition journal_body :: "'a framed_record \<Rightarrow> 'a list \<Rightarrow> byte list" where
  "journal_body R fs = concat (map (frame_bytes R) fs)"

definition journal_file :: "'a framed_record \<Rightarrow> 'a list \<Rightarrow> byte list" where
  "journal_file R fs = header_bytes @ journal_body R fs"

fun ends_from :: "'a framed_record \<Rightarrow> nat \<Rightarrow> 'a list \<Rightarrow> nat list" where
  "ends_from R c [] = []"
| "ends_from R c (f # fs) = (c + length (frame_bytes R f)) # ends_from R (c + length (frame_bytes R f)) fs"

section \<open>Little-endian fields\<close>

lemma length_to_le [simp]: "length (to_le k n) = k"
  by (induction k n rule: to_le.induct) simp_all

lemma from_le_to_le: "from_le (to_le k n) = n mod 256 ^ k"
proof (induction k n rule: to_le.induct)
  case (1 n)
  then show ?case by simp
next
  case (2 k n)
  have "from_le (to_le (Suc k) n) = n mod 256 + 256 * (n div 256 mod 256 ^ k)"
    using 2 by (simp add: unat_of_nat)
  also have "\<dots> = n mod 256 ^ Suc k"
    by (simp add: mod_mult2_eq)
  finally show ?case .
qed

section \<open>The checksum\<close>

lemma xor_right_cancel: "a XOR c = b XOR c \<longleftrightarrow> a = (b :: 'w::len word)"
proof
  assume "a XOR c = b XOR c"
  then have "(a XOR c) XOR c = (b XOR c) XOR c" by simp
  then show "a = b" by (simp add: xor.assoc)
qed simp

lemma xor_left_cancel: "c XOR a = c XOR b \<longleftrightarrow> a = (b :: 'w::len word)"
  by (metis xor.commute xor_right_cancel)

lemma crc_bit_alt:
  "crc_bit c = (if bit c 0 then drop_bit 1 c XOR 0xedb88320 else drop_bit 1 c)"
  by (simp add: crc_bit_def Let_def and_one_eq bit_0 mod2_eq_if)

lemma bit_crc_bit_31: "bit (crc_bit c) 31 \<longleftrightarrow> bit c 0"
proof -
  have top: "\<not> bit (drop_bit 1 c) 31"
    by (auto simp: bit_drop_bit_eq dest: bit_imp_le_length)
  have poly: "bit (0xedb88320 :: 32 word) 31"
    by simp
  show ?thesis
    using top poly by (simp add: crc_bit_alt bit_xor_iff)
qed

lemma crc_bit_inj: "crc_bit a = crc_bit b \<Longrightarrow> a = b"
proof -
  assume eq: "crc_bit a = crc_bit b"
  then have low: "bit a 0 \<longleftrightarrow> bit b 0"
    by (metis bit_crc_bit_31)
  with eq have "drop_bit 1 a = drop_bit 1 b"
    by (auto simp: crc_bit_alt xor_right_cancel split: if_splits)
  then have high: "bit a (Suc n) \<longleftrightarrow> bit b (Suc n)" for n
    by (metis bit_drop_bit_eq comp_apply plus_1_eq_Suc)
  show "a = b"
  proof (rule bit_word_eqI)
    fix n
    show "bit a n \<longleftrightarrow> bit b n"
      using low high by (cases n) auto
  qed
qed

lemma crc_bits_inj: "crc_bits n a = crc_bits n b \<Longrightarrow> a = b"
  by (induction n arbitrary: a b) (auto dest: crc_bit_inj)

lemma crc_byte_inj_state: "crc_byte a x = crc_byte b x \<Longrightarrow> a = b"
  unfolding crc_byte_def by (drule crc_bits_inj) (simp add: xor_right_cancel)

lemma crc_byte_inj_byte: "crc_byte c x = crc_byte c y \<Longrightarrow> x = y"
proof -
  assume "crc_byte c x = crc_byte c y"
  then have "c XOR (ucast x :: 32 word) = c XOR ucast y"
    unfolding crc_byte_def by (rule crc_bits_inj)
  then have "(ucast x :: 32 word) = ucast y"
    by (simp add: xor_left_cancel)
  then have "(ucast (ucast x :: 32 word) :: 8 word) = ucast (ucast y :: 32 word)"
    by simp
  then show "x = y"
    by (simp add: ucast_down_ucast_id is_down)
qed

lemma crc_fold_inj_state:
  "foldl crc_byte a xs = foldl crc_byte b xs \<Longrightarrow> a = b"
  by (induction xs arbitrary: a b) (auto dest: crc_byte_inj_state)

text \<open>
  C35: CRC-32 as the code computes it detects every corruption confined to one byte of a frame's
  payload, whatever the payload and whatever the corrupted byte becomes.
\<close>

theorem crc32_detects_byte_corruption:
  assumes "x \<noteq> y"
  shows "crc32 (pre @ x # post) \<noteq> crc32 (pre @ y # post)"
proof
  assume "crc32 (pre @ x # post) = crc32 (pre @ y # post)"
  then have "foldl crc_byte (crc_byte (foldl crc_byte (- 1) pre) x) post
           = foldl crc_byte (crc_byte (foldl crc_byte (- 1) pre) y) post"
    by (simp add: crc32_def)
  then have "crc_byte (foldl crc_byte (- 1) pre) x = crc_byte (foldl crc_byte (- 1) pre) y"
    by (rule crc_fold_inj_state)
  then have "x = y"
    by (rule crc_byte_inj_byte)
  with assms show False by simp
qed

theorem crc32_detects_byte_corruption_witness:
  "(65::byte) \<noteq> 64 \<and> crc32 ([1, 2] @ 65 # [3]) \<noteq> crc32 ([1, 2] @ 64 # [3])"
proof -
  have h: "(65::byte) \<noteq> 64" by simp
  show ?thesis using h crc32_detects_byte_corruption [OF h, of "[1, 2]" "[3]"] by simp
qed

section \<open>Reading one frame\<close>

lemma frame_ok_payload:
  assumes "frame_ok R i f"
  obtains payload where "to_vec R f = Inr payload" "length payload \<le> MAX_FRAME_BYTES"
    "decode R payload = Inr f" "format_version R f = FORMAT_VERSION" "sequence_of R f = i"
    "frame_bytes R f = to_le 8 (length payload) @ payload @ to_le 4 (unat (crc32 payload))"
  using assms by (auto simp: frame_ok_def frame_bytes_def frame_consts split: sum.splits)

lemma from_le_length_field: "n \<le> MAX_FRAME_BYTES \<Longrightarrow> from_le (to_le 8 n) = n"
  by (simp add: from_le_to_le MAX_FRAME_BYTES_def)

lemma from_le_checksum_field: "from_le (to_le 4 (unat (c :: 32 word))) = unat c"
proof -
  have "unat c < 2 ^ LENGTH(32)" by (rule unsigned_less)
  then show ?thesis by (simp add: from_le_to_le)
qed

lemma read_frame_whole:
  assumes "frame_ok R i f"
  shows "read_frame R i (frame_bytes R f @ rest) = Inr (Some (f, length (frame_bytes R f)))"
proof -
  from assms obtain payload where
    p: "length payload \<le> MAX_FRAME_BYTES" "decode R payload = Inr f"
      "format_version R f = FORMAT_VERSION" "sequence_of R f = i"
    and b: "frame_bytes R f = to_le 8 (length payload) @ payload @ to_le 4 (unat (crc32 payload))"
    by (rule frame_ok_payload)
  show ?thesis
    using p unfolding read_frame_def Let_def b
    by (simp add: frame_consts from_le_length_field from_le_checksum_field)
qed

text \<open>A frame cut anywhere before its last byte is an incomplete tail, never an error.\<close>

lemma read_frame_torn:
  assumes "frame_ok R i f" "k < length (frame_bytes R f)"
  shows "read_frame R i (take k (frame_bytes R f)) = Inr None"
proof -
  from assms(1) obtain payload where
    p: "length payload \<le> MAX_FRAME_BYTES"
    and b: "frame_bytes R f = to_le 8 (length payload) @ payload @ to_le 4 (unat (crc32 payload))"
    by (rule frame_ok_payload)
  show ?thesis
  proof (cases "k < 8")
    case True
    then have "length (take k (frame_bytes R f)) < FRAME_LENGTH_LEN" by (simp add: frame_consts)
    then show ?thesis unfolding read_frame_def by (simp only: if_True)
  next
    case False
    with b have "take 8 (take k (frame_bytes R f)) = to_le 8 (length payload)"
      by (simp add: take_take [symmetric] del: take_take)
    moreover from assms(2) b have "k < 12 + length payload" by simp
    ultimately show ?thesis
      using p False assms(2) by (simp add: read_frame_def Let_def frame_consts from_le_length_field)
  qed
qed

lemma read_frame_empty [simp]: "read_frame R i [] = Inr None"
  by (simp add: read_frame_def frame_consts)

lemma read_frame_sequence:
  "read_frame R i rest = Inr (Some (f, n)) \<Longrightarrow> sequence_of R f = i \<and> format_version R f = FORMAT_VERSION"
  by (auto simp: read_frame_def Let_def split: if_splits sum.splits)

text \<open>Reading a frame depends only on the bytes the frame occupies.\<close>

lemma read_frame_prefix:
  assumes "read_frame R i rest = Inr (Some (f, n))" "n \<le> k"
  shows "read_frame R i (take k rest) = Inr (Some (f, n))"
proof -
  define len where "len = from_le (take 8 rest)"
  from assms(1) have n: "n = 12 + len" and "n \<le> length rest" "\<not> MAX_FRAME_BYTES < len"
    by (auto simp: read_frame_def Let_def frame_consts len_def split: if_splits sum.splits)
  moreover from n assms(2) have "take 8 (take k rest) = take 8 rest"
      "take 4 (drop (8 + len) (take k rest)) = take 4 (drop (8 + len) rest)"
      "take len (drop 8 (take k rest)) = take len (drop 8 rest)"
    by (simp_all add: drop_take min_def)
  ultimately show ?thesis
    using assms by (simp add: read_frame_def Let_def frame_consts len_def [symmetric] split: if_splits)
qed

section \<open>Replaying a journal\<close>

lemma replay_loop_body:
  assumes "frames_ok R i fs"
  shows "replay_loop R retain (journal_body R fs @ rest) c i acc ends =
         replay_loop R retain rest (c + length (journal_body R fs)) (i + length fs)
           (if retain then acc @ fs else acc) (ends @ ends_from R c fs)"
  using assms
proof (induction fs arbitrary: i c acc ends)
  case Nil
  then show ?case by (simp add: journal_body_def)
next
  case (Cons f fs)
  then have "read_frame R i (frame_bytes R f @ journal_body R fs @ rest)
      = Inr (Some (f, length (frame_bytes R f)))"
    by (simp add: read_frame_whole)
  with Cons show ?case
    by (subst replay_loop.simps) (simp add: journal_body_def add.assoc)
qed

lemma replay_loop_stop:
  "read_frame R i rest = Inr None \<Longrightarrow> replay_loop R retain rest c i acc ends = Inr (acc, ends, c)"
  by (simp add: replay_loop.simps [of R retain rest c i acc ends])

lemma length_header_bytes [simp]: "length header_bytes = 10"
  by (simp add: header_bytes_def MAGIC_def)

lemma validate_header_ok [simp]: "validate_header header_bytes = Inr ()"
  by (simp add: validate_header_def header_bytes_def MAGIC_def FILE_HEADER_LEN_def
        from_le_to_le FORMAT_VERSION_def)

lemma replay_bytes_header:
  "replay_bytes R retain (header_bytes @ rest) = replay_loop R retain rest 10 1 [] []"
  by (simp add: replay_bytes_def FILE_HEADER_LEN_def)

text \<open>What replay sees of a journal with an incomplete frame behind its last complete one.\<close>

lemma replay_bytes_journal:
  assumes "frames_ok R 1 fs" "read_frame R (1 + length fs) tail = Inr None"
  shows "replay_bytes R retain (journal_file R fs @ tail) =
         Inr (if retain then fs else [], ends_from R 10 fs, length (journal_file R fs))"
  using assms by (simp add: journal_file_def replay_bytes_header replay_loop_body replay_loop_stop)

lemma length_ends_from [simp]: "length (ends_from R c fs) = length fs"
  by (induction fs arbitrary: c) simp_all

lemma io_bind_apply: "io_bind m f s = (case m s of (Inl e, s') \<Rightarrow> (Inl e, s') | (Inr x, s') \<Rightarrow> f x s')"
  by (simp add: io_bind_def)

lemma io_seq_apply: "io_seq m k s = (case m s of (Inl e, s') \<Rightarrow> (Inl e, s') | (Inr _, s') \<Rightarrow> k s')"
  by (simp add: io_seq_def io_bind_def)

lemmas io_simps = io_bind_apply io_seq_apply io_return_def io_fail_def io_lift_def

text \<open>Replay of a file that holds a journal and an incomplete tail: the frames, and the tail gone.\<close>

lemma replay_internal_journal:
  assumes "frames_ok R 1 fs" "read_frame R (1 + length fs) tail = Inr None"
    and "files s p = Some (journal_file R fs @ tail)"
  shows "replay_internal R p retain s =
         (Inr \<lparr>frames = (if retain then fs else []), frame_ends = ends_from R 10 fs,
               frame_count = length fs\<rparr>,
          s\<lparr>files := (files s)(p := Some (journal_file R fs))\<rparr>)"
  using assms replay_bytes_journal [OF assms(1,2)]
  by (auto simp: replay_internal_def io_simps open_existing_def set_len_def fun_upd_idem)

lemma frames_ok_append:
  "frames_ok R i (fs @ gs) \<longleftrightarrow> frames_ok R i fs \<and> frames_ok R (i + length fs) gs"
  by (induction fs arbitrary: i) simp_all

lemma frames_ok_take: "frames_ok R i fs \<Longrightarrow> frames_ok R i (take n fs)"
  by (metis append_take_drop_id frames_ok_append)

lemma journal_file_append: "journal_file R (fs @ gs) = journal_file R fs @ journal_body R gs"
  by (simp add: journal_file_def journal_body_def)

lemma journal_body_single [simp]: "journal_body R [f] = frame_bytes R f"
  by (simp add: journal_body_def)

text \<open>The result of a replay that reads \<open>fs\<close>.\<close>

definition replay_result :: "'a framed_record \<Rightarrow> 'a list \<Rightarrow> 'a replayed_frames" where
  "replay_result R fs = \<lparr>frames = fs, frame_ends = ends_from R 10 fs, frame_count = length fs\<rparr>"

lemma replay_journal:
  assumes "frames_ok R 1 fs" "read_frame R (1 + length fs) tail = Inr None"
    and "files s p = Some (journal_file R fs @ tail)"
  shows "replay R p s = (Inr (replay_result R fs), s\<lparr>files := (files s)(p := Some (journal_file R fs))\<rparr>)"
  using replay_internal_journal [OF assms, of True] by (simp add: replay_def replay_result_def)

lemma replay_clean:
  assumes "frames_ok R 1 fs" "files s p = Some (journal_file R fs)"
  shows "replay R p s = (Inr (replay_result R fs), s)"
proof -
  have "(files s)(p := Some (journal_file R fs)) = files s"
    using assms(2) by (simp add: fun_upd_idem)
  with replay_journal [of R fs "[]" s p] assms show ?thesis by simp
qed

text \<open>A frame cut after \<open>k\<close> bytes: replay sees it only when it is complete.\<close>

lemma replay_cut:
  assumes "frames_ok R 1 fs" "frame_ok R (1 + length fs) f"
    and "files s p = Some (journal_file R fs @ take k (frame_bytes R f))"
  defines "gs \<equiv> (if k < length (frame_bytes R f) then fs else fs @ [f])"
  shows "replay R p s = (Inr (replay_result R gs), s\<lparr>files := (files s)(p := Some (journal_file R gs))\<rparr>)"
proof (cases "k < length (frame_bytes R f)")
  case True
  with assms show ?thesis
    using replay_journal [OF assms(1) read_frame_torn [OF assms(2) True] assms(3)] by simp
next
  case False
  with assms have "frames_ok R 1 gs" "files s p = Some (journal_file R gs)"
    by (simp_all add: frames_ok_append journal_file_append)
  then show ?thesis
    by (simp add: replay_clean fun_upd_idem)
qed

section \<open>Replay of arbitrary bytes\<close>

lemma replay_loop_sound:
  assumes "replay_loop R True rest c i acc ends = Inr (fs', ends', c')"
  shows "\<exists>fs es n. fs' = acc @ fs \<and> ends' = ends @ es \<and> length es = length fs \<and> c' = c + n
           \<and> n \<le> length rest \<and> map (sequence_of R) fs = [i..<i + length fs]
           \<and> (\<forall>f\<in>set fs. format_version R f = FORMAT_VERSION)
           \<and> (\<forall>retain acc0. replay_loop R retain (take n rest) c i acc0 ends
                 = Inr (if retain then acc0 @ fs else acc0, ends', c'))"
  using assms
proof (induction R True rest c i acc ends rule: replay_loop.induct)
  case (1 R rest c i acc ends)
  show ?case
  proof (cases "read_frame R i rest")
    case (Inl e)
    with 1 show ?thesis by (simp add: replay_loop.simps [of R True rest])
  next
    case (Inr x)
    show ?thesis
    proof (cases x)
      case None
      with Inr 1 have "fs' = acc \<and> ends' = ends \<and> c' = c"
        by (simp add: replay_loop.simps [of R True rest])
      then show ?thesis
        by (intro exI [of _ "[]"] exI [of _ 0]) (simp add: replay_loop_stop)
    next
      case (Some fn)
      then obtain f m where fm: "read_frame R i rest = Inr (Some (f, m))"
        using Inr by (cases fn) simp
      with 1 obtain fs es n where IH:
        "fs' = (acc @ [f]) @ fs" "ends' = (ends @ [c + m]) @ es" "length es = length fs"
        "c' = c + m + n" "n \<le> length (drop m rest)" "map (sequence_of R) fs = [i + 1..<i + 1 + length fs]"
        "\<forall>f\<in>set fs. format_version R f = FORMAT_VERSION"
        "\<And>retain acc0. replay_loop R retain (take n (drop m rest)) (c + m) (i + 1) acc0 (ends @ [c + m])
           = Inr (if retain then acc0 @ fs else acc0, ends', c')"
        using Inr Some by (fastforce simp: replay_loop.simps [of R True rest])
      have read: "read_frame R i (take (m + n) rest) = Inr (Some (f, m))"
        using fm by (rule read_frame_prefix) simp
      have "replay_loop R retain (take (m + n) rest) c i acc0 ends
              = Inr (if retain then acc0 @ f # fs else acc0, ends', c')" for retain acc0
        using IH(8) [of retain "if retain then acc0 @ [f] else acc0"]
        by (simp add: replay_loop.simps [of R retain "take (m + n) rest"] read drop_take)
      moreover have "map (sequence_of R) (f # fs) = [i..<i + length (f # fs)]"
        using IH(6) read_frame_sequence [OF fm] by (simp add: upt_conv_Cons del: upt_Suc)
      moreover have "m + n \<le> length rest"
        using IH(5) read_frame_progress [OF fm] by (auto simp: le_diff_conv2)
      ultimately show ?thesis
        using IH(1-4,7) read_frame_sequence [OF fm]
        by (intro exI [of _ "f # fs"] exI [of _ "(c + m) # es"] exI [of _ "m + n"])
           (simp del: upt_Suc)
    qed
  qed
qed

lemma replay_bytes_sound:
  assumes "replay_bytes R True bytes = Inr (fs, ends, n)"
  shows "n \<le> length bytes" "length ends = length fs"
    and "map (sequence_of R) fs = [1..<Suc (length fs)]"
    and "\<forall>f\<in>set fs. format_version R f = FORMAT_VERSION"
    and "replay_bytes R retain (take n bytes) = Inr (if retain then fs else [], ends, n)"
proof -
  from assms have len: "10 \<le> length bytes" and hdr: "validate_header (take 10 bytes) = Inr ()"
    and loop: "replay_loop R True (drop 10 bytes) 10 1 [] [] = Inr (fs, ends, n)"
    by (auto simp: replay_bytes_def FILE_HEADER_LEN_def and_then_eq_Inr split: if_splits)
  obtain m where m: "length ends = length fs" "n = 10 + m" "m \<le> length (drop 10 bytes)"
      "map (sequence_of R) fs = [1..<1 + length fs]"
      "\<forall>f\<in>set fs. format_version R f = FORMAT_VERSION"
      "\<And>retain. replay_loop R retain (take m (drop 10 bytes)) 10 1 [] [] = Inr (if retain then fs else [], ends, n)"
    using replay_loop_sound [OF loop] by auto
  show "n \<le> length bytes" "length ends = length fs"
    "map (sequence_of R) fs = [1..<Suc (length fs)]"
    "\<forall>f\<in>set fs. format_version R f = FORMAT_VERSION"
    using m len by simp_all
  show "replay_bytes R retain (take n bytes) = Inr (if retain then fs else [], ends, n)"
    using m len hdr by (simp add: replay_bytes_def FILE_HEADER_LEN_def drop_take min_def)
qed

text \<open>
  What a successful replay keeps is nothing but whole frames whose checksums match their payloads,
  behind a valid header: the bytes are determined by the payloads.
\<close>

definition framed_payload :: "byte list \<Rightarrow> byte list" where
  "framed_payload payload = to_le 8 (length payload) @ payload @ to_le 4 (unat (crc32 payload))"

definition payload_of :: "'a framed_record \<Rightarrow> byte list \<Rightarrow> 'a \<Rightarrow> bool" where
  "payload_of R payload f \<longleftrightarrow> length payload \<le> MAX_FRAME_BYTES \<and> decode R payload = Inr f"

lemma to_le_from_le: "length bs = k \<Longrightarrow> to_le k (from_le bs) = bs"
proof (induction bs arbitrary: k)
  case (Cons b bs)
  have "(unat b + 256 * from_le bs) div 256 = from_le bs"
    using unsigned_less [of b, where 'a = nat] by simp
  moreover have "of_nat (unat b + 256 * from_le bs) = b"
  proof -
    have "(256 :: byte) = 0" by simp
    then have "of_nat (256 * from_le bs) = (0 :: byte)"
      by (metis mult_zero_left of_nat_mult of_nat_numeral)
    then show ?thesis by (simp del: of_nat_mult)
  qed
  ultimately show ?case using Cons by (cases k) simp_all
qed simp

lemma read_frame_framed:
  assumes "read_frame R i rest = Inr (Some (f, m))"
  obtains payload where "take m rest = framed_payload payload" "payload_of R payload f"
proof -
  define len where "len = from_le (take 8 rest)"
  define payload where "payload = take len (drop 8 rest)"
  from assms have r: "m = 8 + len + 4" "m \<le> length rest" "\<not> MAX_FRAME_BYTES < len"
      "unat (crc32 payload) = from_le (take 4 (drop (8 + len) rest))" "decode R payload = Inr f"
    by (auto simp: read_frame_def Let_def frame_consts len_def payload_def split: if_splits sum.splits)
  have len: "length payload = len" using r(1,2) by (simp add: payload_def)
  have "take m rest = take 8 rest @ payload @ take 4 (drop (8 + len) rest)"
  proof -
    have "take (8 + (len + 4)) rest = take 8 rest @ take len (drop 8 rest) @ take 4 (drop len (drop 8 rest))"
      by (simp only: take_add)
    then show ?thesis by (simp add: r(1) payload_def add.commute)
  qed
  moreover have "take 8 rest = to_le 8 (length payload)"
    unfolding len len_def by (rule to_le_from_le [symmetric]) (use r(1,2) in simp)
  moreover have "take 4 (drop (8 + len) rest) = to_le 4 (unat (crc32 payload))"
    unfolding r(4) by (rule to_le_from_le [symmetric]) (use r(1,2) in simp)
  ultimately show thesis
    using r(3,5) len by (intro that [of payload]) (simp_all add: framed_payload_def payload_of_def)
qed

lemma replay_loop_framed:
  assumes "replay_loop R True rest c i acc ends = Inr (fs', ends', c')"
  shows "\<exists>fs payloads n. fs' = acc @ fs \<and> c' = c + n \<and> take n rest = concat (map framed_payload payloads)
    \<and> list_all2 (payload_of R) payloads fs"
  using assms
proof (induction R True rest c i acc ends rule: replay_loop.induct)
  case (1 R rest c i acc ends)
  show ?case
  proof (cases "\<exists>f m. read_frame R i rest = Inr (Some (f, m))")
    case True
    then obtain f m where fm: "read_frame R i rest = Inr (Some (f, m))" by blast
    with 1 obtain fs payloads n where IH: "fs' = (acc @ [f]) @ fs" "c' = c + m + n"
      "take n (drop m rest) = concat (map framed_payload payloads)" "list_all2 (payload_of R) payloads fs"
      by (fastforce simp: replay_loop.simps [of R True rest])
    from fm obtain payload where "take m rest = framed_payload payload" "payload_of R payload f"
      by (rule read_frame_framed)
    with IH show ?thesis
      by (intro exI [of _ "f # fs"] exI [of _ "payload # payloads"] exI [of _ "m + n"]) (simp add: take_add)
  next
    case False
    with 1(2) have "fs' = acc \<and> c' = c"
      by (auto simp: replay_loop.simps [of R True rest] split: sum.splits option.splits)
    then show ?thesis by (intro exI [of _ "[]"] exI [of _ 0]) simp
  qed
qed

lemma length_MAGIC: "length MAGIC = 8"
  by (simp add: MAGIC_def)

lemma valid_header:
  assumes "length bytes = 10" "validate_header bytes = Inr ()"
  shows "bytes = header_bytes"
proof -
  from assms have "take 8 bytes = MAGIC" "from_le (take 2 (drop 8 bytes)) = FORMAT_VERSION"
    by (auto simp: validate_header_def Let_def length_MAGIC split: if_splits)
  moreover have "take 2 (drop 8 bytes) = to_le 2 (from_le (take 2 (drop 8 bytes)))"
    by (rule to_le_from_le [symmetric]) (simp add: assms(1))
  moreover have "bytes = take 8 bytes @ take 2 (drop 8 bytes)"
    using assms(1) by simp
  ultimately show ?thesis by (simp add: header_bytes_def)
qed

lemma replay_bytes_framed:
  assumes "replay_bytes R True bytes = Inr (fs, ends, n)"
  shows "\<exists>payloads. take n bytes = header_bytes @ concat (map framed_payload payloads)
    \<and> list_all2 (payload_of R) payloads fs"
proof -
  from assms have len: "10 \<le> length bytes" and hdr: "validate_header (take 10 bytes) = Inr ()"
    and loop: "replay_loop R True (drop 10 bytes) 10 1 [] [] = Inr (fs, ends, n)"
    by (auto simp: replay_bytes_def FILE_HEADER_LEN_def and_then_eq_Inr split: if_splits)
  from replay_loop_framed [OF loop] obtain payloads m where m: "n = 10 + m"
    "take m (drop 10 bytes) = concat (map framed_payload payloads)" "list_all2 (payload_of R) payloads fs"
    by auto
  have "take 10 bytes = header_bytes" by (rule valid_header [OF _ hdr]) (use len in simp)
  with m show ?thesis by (auto simp: take_add)
qed

text \<open>A successful replay, taken apart.\<close>

lemma replay_Inr_elim:
  assumes "replay R p s = (Inr r, s')"
  obtains bytes n where "files s p = Some bytes" "replay_bytes R True bytes = Inr (frames r, frame_ends r, n)"
    "frame_count r = length (frame_ends r)" "n \<le> length bytes"
    "s' = s\<lparr>files := (files s)(p := Some (take n bytes))\<rparr>"
proof -
  from assms obtain bytes where b: "files s p = Some bytes"
    by (auto simp: replay_def replay_internal_def io_simps open_existing_def split: option.splits)
  with assms obtain fs ends n where r: "replay_bytes R True bytes = Inr (fs, ends, n)"
    by (auto simp: replay_def replay_internal_def io_simps open_existing_def split: option.splits sum.splits)
  have n: "n \<le> length bytes" using replay_bytes_sound(1) [OF r] .
  show thesis
    using assms b r n
    by (intro that [of bytes n])
       (auto simp: replay_def replay_internal_def io_simps open_existing_def set_len_def fun_upd_idem
          split: if_splits)
qed

lemma replay_of_bytes:
  assumes "files s p = Some bytes" "replay_bytes R retain bytes = Inr (fs, ends, length bytes)"
  shows "replay_internal R p retain s = (Inr \<lparr>frames = fs, frame_ends = ends, frame_count = length ends\<rparr>, s)"
  using assms by (simp add: replay_internal_def io_simps open_existing_def)

section \<open>Writing\<close>

lemma check_unarmed [simp]: "armed s = None \<Longrightarrow> check kind point s = (Inr (), s)"
  by (simp add: check_def)

lemma write_frame_unarmed:
  assumes "frame_ok R i f" "armed s = None" "files s p = Some bs"
  shows "write_frame R p f kind s = (Inr (), s\<lparr>files := (files s)(p := Some (bs @ frame_bytes R f))\<rparr>)"
  using assms
  by (auto simp: frame_ok_def frame_bytes_def write_frame_def io_simps write_all_def split: sum.splits)

lemma append_unarmed:
  assumes "frame_ok R i f" "armed s = None" "files s p = Some bs"
  shows "append_with_faults R p f kind s =
     (Inr (), s\<lparr>files := (files s)(p := Some (bs @ frame_bytes R f)), sync_calls := u64_add (sync_calls s) 1\<rparr>)"
  using assms
  by (simp add: append_with_faults_def io_simps open_existing_def record_sync_def write_frame_unarmed [OF assms])

section \<open>Every outcome of a computation\<close>

text \<open>
  \<open>io_post m s P\<close>: whatever fault is armed in \<open>s\<close>, the result and the final state of \<open>m\<close> satisfy
  \<open>P\<close>. The rules below compute it backwards through a function's steps; a fault point contributes
  both of its outcomes.
\<close>

definition io_post :: "'a io \<Rightarrow> io_state \<Rightarrow> (runtime_error + 'a \<Rightarrow> io_state \<Rightarrow> bool) \<Rightarrow> bool" where
  "io_post m s P = (case m s of (r, s') \<Rightarrow> P r s')"

named_theorems io_vcg \<open>backward rules for \<open>io_post\<close>\<close>

lemma io_post_check [io_vcg]:
  "(\<And>e. P (Inl e) (s\<lparr>armed := None\<rparr>)) \<Longrightarrow> P (Inr ()) s \<Longrightarrow> io_post (check kind point) s P"
  by (simp add: io_post_def check_def)

lemma io_post_seq_check [io_vcg]:
  "(\<And>e. P (Inl e) (s\<lparr>armed := None\<rparr>)) \<Longrightarrow> io_post k s P \<Longrightarrow> io_post (io_seq (check kind point) k) s P"
  by (simp add: io_post_def check_def io_seq_apply)

lemma io_post_record_sync [io_vcg]:
  "P (Inr ()) (s\<lparr>sync_calls := u64_add (sync_calls s) 1\<rparr>) \<Longrightarrow> io_post record_sync s P"
  by (simp add: io_post_def record_sync_def)

lemma io_post_seq_record_sync [io_vcg]:
  "io_post k (s\<lparr>sync_calls := u64_add (sync_calls s) 1\<rparr>) P \<Longrightarrow> io_post (io_seq record_sync k) s P"
  by (simp add: io_post_def record_sync_def io_seq_apply)

lemma io_post_return [io_vcg]: "P (Inr x) s \<Longrightarrow> io_post (io_return x) s P"
  by (simp add: io_post_def io_return_def)

lemma io_post_fail [io_vcg]: "P (Inl e) s \<Longrightarrow> io_post (io_fail e) s P"
  by (simp add: io_post_def io_fail_def)

lemma io_post_write_all [io_vcg]:
  "P (Inr ()) (snd (write_all p new s)) \<Longrightarrow> io_post (write_all p new) s P"
  by (simp add: io_post_def write_all_def)

lemma io_post_seq_write_all [io_vcg]:
  "io_post k (snd (write_all p new s)) P \<Longrightarrow> io_post (io_seq (write_all p new) k) s P"
  by (simp add: io_post_def write_all_def io_seq_apply)

lemma io_post_seq_set_len [io_vcg]:
  "io_post k (snd (set_len p n s)) P \<Longrightarrow> io_post (io_seq (set_len p n) k) s P"
  by (simp add: io_post_def set_len_def io_seq_apply)

lemma io_post_bind_open_existing [io_vcg]:
  "(\<And>e. files s p = None \<Longrightarrow> P (Inl e) s) \<Longrightarrow> (\<And>bs. files s p = Some bs \<Longrightarrow> io_post (f bs) s P)
     \<Longrightarrow> io_post (io_bind (open_existing stage p) f) s P"
  by (auto simp: io_post_def open_existing_def io_bind_apply split: option.splits)

lemma io_post_seq_any:
  "io_post m s Q \<Longrightarrow> (\<And>e s'. Q (Inl e) s' \<Longrightarrow> P (Inl e) s') \<Longrightarrow> (\<And>u s'. Q (Inr u) s' \<Longrightarrow> io_post k s' P)
     \<Longrightarrow> io_post (io_seq m k) s P"
  by (cases "m s"; cases "fst (m s)") (auto simp: io_post_def io_seq_apply)

lemma io_post_bind_any:
  "io_post m s Q \<Longrightarrow> (\<And>e s'. Q (Inl e) s' \<Longrightarrow> P (Inl e) s') \<Longrightarrow> (\<And>x s'. Q (Inr x) s' \<Longrightarrow> io_post (f x) s' P)
     \<Longrightarrow> io_post (io_bind m f) s P"
  by (cases "m s"; cases "fst (m s)") (auto simp: io_post_def io_bind_apply)

lemma io_postD: "io_post m s P \<Longrightarrow> m s = (r, s') \<Longrightarrow> P r s'"
  by (simp add: io_post_def)

lemma io_post_mono: "io_post m s P \<Longrightarrow> (\<And>r s'. P r s' \<Longrightarrow> Q r s') \<Longrightarrow> io_post m s Q"
  by (auto simp: io_post_def)

text \<open>A frame being written is a prefix of its bytes, whole when the write succeeds.\<close>

definition cut_frame :: "path \<Rightarrow> byte list \<Rightarrow> byte list \<Rightarrow> io_state \<Rightarrow> runtime_error + unit \<Rightarrow> io_state \<Rightarrow> bool" where
  "cut_frame p bs new s r s' \<longleftrightarrow>
     (\<exists>k. files s' = (files s)(p := Some (bs @ take k new)) \<and> dirs s' = dirs s
        \<and> (r = Inr () \<longrightarrow> length new \<le> k))"

lemma cut_frameI:
  "files s' = (files s)(p := Some (bs @ take k new)) \<Longrightarrow> dirs s' = dirs s \<Longrightarrow> (r = Inr () \<Longrightarrow> length new \<le> k)
     \<Longrightarrow> cut_frame p bs new s r s'"
  by (auto simp: cut_frame_def)

lemma write_frame_cut:
  assumes "frame_ok R i f" "files s p = Some bs"
  shows "io_post (write_frame R p f kind) s (cut_frame p bs (frame_bytes R f) s)"
proof -
  from assms(1) obtain payload where p: "to_vec R f = Inr payload" "\<not> MAX_FRAME_BYTES < length payload"
    and b: "frame_bytes R f = to_le 8 (length payload) @ payload @ to_le 4 (unat (crc32 payload))"
    by (rule frame_ok_payload) simp
  show ?thesis
    unfolding write_frame_def b frame_consts p sum.case if_False
    using assms(2) p
    apply (simp only: if_False)
    apply (intro io_vcg)
    subgoal by (rule cut_frameI [of _ _ _ _ 0]) (simp_all add: fun_upd_idem)
    subgoal by (rule cut_frameI [of _ _ _ _ 8]) (simp_all add: write_all_def)
    subgoal by (rule cut_frameI [of _ _ _ _ "8 + length payload"]) (simp_all add: write_all_def)
    subgoal by (rule cut_frameI [of _ _ _ _ "12 + length payload"]) (simp_all add: write_all_def)
    done
qed

lemma append_cut:
  assumes "frame_ok R i f" "files s p = Some bs"
  shows "io_post (append_with_faults R p f kind) s (cut_frame p bs (frame_bytes R f) s)"
  unfolding append_with_faults_def
proof (intro io_vcg)
  show "cut_frame p bs (frame_bytes R f) s (Inl e) (s\<lparr>armed := None\<rparr>)" for e
    using assms(2) by (intro cut_frameI [of _ _ _ _ 0]) (simp_all add: fun_upd_idem)
  show "cut_frame p bs (frame_bytes R f) s (Inl e) s" if "files s p = None" for e
    using assms(2) that by simp
  show "io_post (io_seq (write_frame R p f kind) (io_seq (check kind FileSync) record_sync)) s
          (cut_frame p bs (frame_bytes R f) s)"
  proof (rule io_post_seq_any [OF write_frame_cut [OF assms]])
    show "cut_frame p bs (frame_bytes R f) s (Inl e) s'"
      if "cut_frame p bs (frame_bytes R f) s (Inl e) s'" for e s'
      using that .
    show "io_post (io_seq (check kind FileSync) record_sync) s' (cut_frame p bs (frame_bytes R f) s)"
      if "cut_frame p bs (frame_bytes R f) s (Inr u) s'" for u s'
      using that by (intro io_vcg) (auto simp: cut_frame_def)
  qed
qed

section \<open>Truncation\<close>

lemma ends_from_nth:
  "n < length fs \<Longrightarrow> ends_from R c fs ! n = c + length (journal_body R (take (Suc n) fs))"
  by (induction fs arbitrary: c n) (auto simp: journal_body_def nth_Cons' less_Suc_eq_0_disj)

lemma journal_file_take_length:
  "length (journal_file R (take n fs)) \<le> length (journal_file R fs)"
  "take (length (journal_file R (take n fs))) (journal_file R fs) = journal_file R (take n fs)"
proof -
  have "journal_file R fs = journal_file R (take n fs) @ journal_body R (drop n fs)"
    by (metis append_take_drop_id journal_file_append)
  then show "length (journal_file R (take n fs)) \<le> length (journal_file R fs)"
    "take (length (journal_file R (take n fs))) (journal_file R fs) = journal_file R (take n fs)"
    by simp_all
qed

lemma retained_len:
  assumes "n < length fs"
  shows "(if n = 0 then FILE_HEADER_LEN else frame_ends (replay_result R fs) ! (n - 1))
         = length (journal_file R (take n fs))"
  using assms by (cases n) (simp_all add: replay_result_def ends_from_nth journal_file_def frame_consts
    journal_body_def)

lemma truncate_outcome:
  assumes "files s p = Some (journal_file R fs)" "n < length fs"
  shows "io_post (truncate_after_with_faults p (replay_result R fs) n kind) s
           (\<lambda>r s'. dirs s' = dirs s
              \<and> (files s' = files s \<and> r \<noteq> Inr () \<or> files s' = (files s)(p := Some (journal_file R (take n fs)))))"
proof -
  have "\<not> frame_count (replay_result R fs) \<le> n"
    using assms(2) by (simp add: replay_result_def)
  then show ?thesis
    unfolding truncate_after_with_faults_def retained_len [OF assms(2)] Let_def
    apply (simp only: if_False)
    using assms(1) by (intro io_vcg) (simp_all add: set_len_def journal_file_take_length)
qed

end
