(* ===== verification/Journal_Replace_Facts.thy ===== *)
theory Journal_Replace_Facts
  imports Journal_Frame_Facts
begin

text \<open>
  Creating and replacing journals: the durable creation of directories, the creation of a journal
  with its first frame, and compaction, which writes a temporary journal, validates it by replay
  and publishes it by one rename.
\<close>

section \<open>Directories\<close>

text \<open>A computation that leaves every file as it is and removes no directory.\<close>

definition keeps_files :: "io_state \<Rightarrow> io_state \<Rightarrow> bool" where
  "keeps_files s s' \<longleftrightarrow> files s' = files s \<and> dirs s \<subseteq> dirs s'"

lemma keeps_files_refl [simp]: "keeps_files s s"
  by (simp add: keeps_files_def)

lemma keeps_files_trans: "keeps_files s s' \<Longrightarrow> keeps_files s' s'' \<Longrightarrow> keeps_files s s''"
  by (auto simp: keeps_files_def)

lemma io_post_each:
  assumes "\<And>x s. I s \<Longrightarrow> io_post (f x) s (\<lambda>r s'. I s')" "I s"
  shows "io_post (io_each f xs) s (\<lambda>r s'. I s')"
  using assms(2)
proof (induction xs arbitrary: s)
  case Nil
  then show ?case by (auto intro: io_vcg)
next
  case (Cons x xs)
  show ?case
    unfolding io_each.simps
    by (rule io_post_seq_any [OF assms(1) [OF Cons.prems]]) (simp_all add: Cons.IH)
qed

lemma sync_directory_keeps:
  "io_post (sync_directory d kind point) s (\<lambda>r s'. keeps_files s s')"
  by (auto simp: sync_directory_def io_post_def io_seq_apply check_def record_sync_def keeps_files_def)

lemma keeps_files_chain:
  "keeps_files s s' \<Longrightarrow> io_post m s' (\<lambda>r t. keeps_files s' t) \<Longrightarrow> io_post m s' (\<lambda>r t. keeps_files s t)"
  by (auto intro: io_post_mono keeps_files_trans)

lemma create_dir_all_keeps: "io_post (create_dir_all d) s (\<lambda>r s'. keeps_files s s')"
  by (auto simp: create_dir_all_def io_post_def keeps_files_def)

lemma create_directory_durably_keeps:
  "io_post (create_directory_durably d kind) s (\<lambda>r s'. keeps_files s s')"
proof -
  define sync_up where "sync_up = (\<lambda>created. case parent created of
      None \<Rightarrow> io_fail no_parent | Some up \<Rightarrow> sync_directory up kind DirectoryParentSync)"
  have up: "io_post (sync_up c) t (\<lambda>r s'. keeps_files s s')" if "keeps_files s t" for c t
    using that sync_directory_keeps
    by (auto simp: sync_up_def intro: keeps_files_chain io_vcg split: option.splits)
  have body: "io_post (io_seq (create_dir_all d)
      (io_seq (if missing = [] then sync_up d else io_return ()) (io_each sync_up (rev missing)))) s
      (\<lambda>r s'. keeps_files s s')" for missing
  proof (rule io_post_seq_any [OF create_dir_all_keeps])
    fix t assume t: "keeps_files s t"
    have "io_post (if missing = [] then sync_up d else io_return ()) t (\<lambda>r s'. keeps_files s s')"
      using t up by (auto intro: io_vcg)
    then show "io_post (io_seq (if missing = [] then sync_up d else io_return ())
        (io_each sync_up (rev missing))) t (\<lambda>r s'. keeps_files s s')"
      by (rule io_post_seq_any) (auto intro: io_post_each up)
  qed simp
  show ?thesis
    unfolding io_post_def create_directory_durably_def
    using body [unfolded io_post_def sync_up_def]
    by (auto split: sum.split)
qed

section \<open>Compaction\<close>

lemma journal_body_Cons: "journal_body R (f # fs) = frame_bytes R f @ journal_body R fs"
  by (simp add: journal_body_def)

lemma write_frames_outcome:
  assumes "frames_ok R i fs" "files s p = Some bs"
  shows "io_post (io_each (\<lambda>f. write_frame R p f kind) fs) s
           (\<lambda>r s'. \<exists>bs'. files s' = (files s)(p := Some bs') \<and> (r = Inr () \<longrightarrow> bs' = bs @ journal_body R fs))"
  using assms
proof (induction fs arbitrary: i s bs)
  case Nil
  then show ?case by (auto intro!: io_vcg exI [of _ bs] simp: fun_upd_idem journal_body_def)
next
  case (Cons f fs)
  then have f: "frame_ok R i f" and fs: "frames_ok R (i + 1) fs" by simp_all
  show ?case
    unfolding io_each.simps
  proof (rule io_post_seq_any [OF write_frame_cut [OF f Cons.prems(2)]])
    fix u s' assume "cut_frame p bs (frame_bytes R f) s (Inr u) s'"
    then have s': "files s' = (files s)(p := Some (bs @ frame_bytes R f))"
      by (auto simp: cut_frame_def)
    then have "files s' p = Some (bs @ frame_bytes R f)" by simp
    from Cons.IH [OF fs this] show "io_post (io_each (\<lambda>f. write_frame R p f kind) fs) s'
      (\<lambda>r s'. \<exists>bs'. files s' = (files s)(p := Some bs') \<and> (r = Inr () \<longrightarrow> bs' = bs @ journal_body R (f # fs)))"
      by (rule io_post_mono) (simp only: s' fun_upd_upd journal_body_Cons append_assoc)
  qed (simp only: cut_frame_def, blast)
qed

text \<open>Only \<open>t\<close> may differ from \<open>s\<close>, and it holds \<open>want\<close> when the computation succeeded.\<close>

definition wrote_only :: "path \<Rightarrow> byte list \<Rightarrow> io_state \<Rightarrow> runtime_error + unit \<Rightarrow> io_state \<Rightarrow> bool" where
  "wrote_only t want s r s' \<longleftrightarrow>
     (\<exists>x. files s' = (files s)(t := x) \<and> (r = Inr () \<longrightarrow> x = Some want))"

lemma wrote_only_files: "files s1 = (files s)(t := y) \<Longrightarrow> wrote_only t want s1 r s' \<Longrightarrow> wrote_only t want s r s'"
  by (auto simp: wrote_only_def)

lemma wrote_only_unchanged: "files s' = files s \<Longrightarrow> wrote_only t want s (Inl e) s'"
  unfolding wrote_only_def by (rule exI [of _ "files s t"]) simp

lemma wrote_only_sync_directory:
  assumes "files s' = (files s)(t := Some want)"
  shows "io_post (sync_directory d kind point) s' (wrote_only t want s)"
  by (rule io_post_mono [OF sync_directory_keeps]) (auto simp: wrote_only_def keeps_files_def assms)

lemma open_create_new_outcome:
  "io_post (open_create_new stage p) s
     (\<lambda>r s'. files s' = (if r = Inr () then (files s)(p := Some []) else files s))"
  by (simp add: io_post_def open_create_new_def)

lemma compacted_tail:
  assumes "frames_ok R 1 fs" "files s1 = (files s)(t := Some [])"
  shows "io_post
     (io_seq (check kind CreateHeaderWrite)
     (io_seq (write_all t MAGIC)
     (io_seq (write_all t (to_le 2 FORMAT_VERSION))
     (io_seq (io_each (\<lambda>f. write_frame R t f kind) fs)
     (io_seq (check kind FileSync)
     (io_seq record_sync (sync_directory up kind ParentSync))))))) s1
     (wrote_only t (journal_file R fs) s)"
proof (intro io_vcg)
  show "wrote_only t (journal_file R fs) s (Inl e) (s1\<lparr>armed := None\<rparr>)" for e
    using assms(2) by (auto simp: wrote_only_def)
next
  let ?s2 = "snd (write_all t (to_le 2 FORMAT_VERSION) (snd (write_all t MAGIC s1)))"
  have s2: "files ?s2 = (files s)(t := Some header_bytes)"
    by (simp add: write_all_def assms(2) header_bytes_def)
  then have "files ?s2 t = Some header_bytes" by simp
  note frames = write_frames_outcome [OF assms(1) this]
  show "io_post (io_seq (io_each (\<lambda>f. write_frame R t f kind) fs)
     (io_seq (check kind FileSync) (io_seq record_sync (sync_directory up kind ParentSync)))) ?s2
     (wrote_only t (journal_file R fs) s)"
  proof (rule io_post_seq_any [OF frames])
    fix u and s' :: io_state
    assume "\<exists>bs'. files s' = (files ?s2)(t := Some bs') \<and>
      (Inr u = Inr () \<longrightarrow> bs' = header_bytes @ journal_body R fs)"
    then have s': "files s' = (files s)(t := Some (journal_file R fs))"
      by (auto simp: s2 journal_file_def)
    then show "io_post (io_seq (check kind FileSync)
      (io_seq record_sync (sync_directory up kind ParentSync))) s' (wrote_only t (journal_file R fs) s)"
      by (intro io_vcg wrote_only_sync_directory) (auto simp: wrote_only_def)
  qed (auto simp: wrote_only_def s2)
qed

lemma create_compacted_file_outcome:
  assumes "frames_ok R 1 fs"
  shows "io_post (create_compacted_file R t fs) s (wrote_only t (journal_file R fs) s)"
proof (cases "parent t")
  case None
  then show ?thesis
    by (auto simp: create_compacted_file_def intro!: io_vcg wrote_only_unchanged)
next
  case (Some up)
  have open_step: "io_post (io_seq (open_create_new ''create_open'' t) m) s1 (wrote_only t (journal_file R fs) s)"
    if "files s1 = files s"
      and "\<And>s2. files s2 = (files s)(t := Some []) \<Longrightarrow> io_post m s2 (wrote_only t (journal_file R fs) s)" for m s1
    by (rule io_post_seq_any [OF open_create_new_outcome]) (auto simp: that intro: wrote_only_unchanged)
  show ?thesis
    unfolding create_compacted_file_def Some option.case
    by (rule io_post_seq_any [OF create_directory_durably_keeps])
       (auto simp: keeps_files_def intro!: io_vcg wrote_only_unchanged open_step compacted_tail assms
          del: io_post_seq_write_all)
qed

lemma compact_name_fresh: "p \<noteq> [] \<Longrightarrow> compact_name (butlast p) uuid p \<noteq> p"
proof
  assume "p \<noteq> []" "compact_name (butlast p) uuid p = p"
  then have "last (compact_name (butlast p) uuid p) = last p" by simp
  then have "length (last (compact_name (butlast p) uuid p)) = length (last p)" by simp
  then show False by (simp add: compact_name_def)
qed

lemma durable_replace_outcome:
  assumes "files s t = Some bs"
  shows "io_post (durable_replace t p) s
           (\<lambda>r s'. files s' = (if r = Inr () then (files s)(t := None, p := Some bs) else files s))"
  using assms by (simp add: io_post_def durable_replace_def)

text \<open>
  The state of a replacement of \<open>p\<close> through the temporary \<open>t\<close>: before the rename only \<open>t\<close> may
  differ, after it \<open>p\<close> holds the new journal and \<open>t\<close> is gone.
\<close>

definition replacing :: "path \<Rightarrow> path \<Rightarrow> byte list \<Rightarrow> io_state \<Rightarrow> runtime_error + unit \<Rightarrow> io_state \<Rightarrow> bool" where
  "replacing p t new s r s' \<longleftrightarrow>
     (\<exists>x. files s' = (files s)(t := x)) \<and> r \<noteq> Inr () \<or> files s' = (files s)(t := None, p := Some new)"

lemma replacing_before: "files s' = (files s)(t := x) \<Longrightarrow> replacing p t new s (Inl e) s'"
  by (auto simp: replacing_def)

lemma replace_body_outcome:
  assumes "frames_ok R 1 fs" "p \<noteq> t"
  shows "io_post (replace_body R up t p fs) s (replacing p t (journal_file R fs) s)"
  unfolding replace_body_def
proof (rule io_post_seq_any [OF create_compacted_file_outcome [OF assms(1)]])
  show "replacing p t (journal_file R fs) s (Inl e) s'"
    if "wrote_only t (journal_file R fs) s (Inl e) s'" for e s'
    using that by (auto simp: wrote_only_def intro: replacing_before)
next
  fix u s' assume "wrote_only t (journal_file R fs) s (Inr u) s'"
  then have s': "files s' = (files s)(t := Some (journal_file R fs))" by (simp add: wrote_only_def)
  then have read: "io_post (replay R t) s' (\<lambda>r s''. r = Inr (replay_result R fs) \<and> s'' = s')"
    by (simp add: io_post_def replay_clean [OF assms(1)])
  have publish: "io_post (io_seq (durable_replace t p) (sync_directory up CompactionKind point)) s'
      (replacing p t (journal_file R fs) s)" for point
  proof (rule io_post_seq_any [OF durable_replace_outcome [of s' t "journal_file R fs"]])
    show "files s' t = Some (journal_file R fs)" using s' by simp
    show "replacing p t (journal_file R fs) s (Inl e) s2"
      if "files s2 = (if Inl e = Inr () then (files s')(t := None, p := Some (journal_file R fs)) else files s')" for e s2
      using that s' by (auto intro: replacing_before)
    show "io_post (sync_directory up CompactionKind point) s2 (replacing p t (journal_file R fs) s)"
      if "files s2 = (if Inr u = Inr () then (files s')(t := None, p := Some (journal_file R fs)) else files s')" for u s2
      by (rule io_post_mono [OF sync_directory_keeps]) (use that s' in \<open>simp add: keeps_files_def replacing_def\<close>)
  qed
  show "io_post (io_seq (check CompactionKind CompactionValidate) (io_bind (replay R t) (\<lambda>verified.
      if length (frames verified) \<noteq> length fs
      then io_fail (Storage ''Task journal compaction validation failed'')
      else io_seq (check CompactionKind CompactionPublish)
             (io_seq (durable_replace t p) (sync_directory up CompactionKind CompactionPublishParentSync))))) s'
      (replacing p t (journal_file R fs) s)"
  proof (rule io_post_seq_check)
    show "replacing p t (journal_file R fs) s (Inl e) (s'\<lparr>armed := None\<rparr>)" for e
      using s' by (auto intro: replacing_before)
    show "io_post (io_bind (replay R t) (\<lambda>verified.
      if length (frames verified) \<noteq> length fs
      then io_fail (Storage ''Task journal compaction validation failed'')
      else io_seq (check CompactionKind CompactionPublish)
             (io_seq (durable_replace t p) (sync_directory up CompactionKind CompactionPublishParentSync)))) s'
      (replacing p t (journal_file R fs) s)"
      by (rule io_post_bind_any [OF read])
         (use s' in \<open>auto simp: replay_result_def intro!: io_post_seq_check publish intro: replacing_before\<close>)
  qed
qed

lemma replace_frames_outcome:
  assumes "frames_ok R 1 fs" "p \<noteq> []" "files s (compact_name (butlast p) uuid p) = None"
    and "replace_frames_with_faults R uuid p fs s = (r, s')"
  shows "files s' = files s \<and> r \<noteq> Inr () \<or> files s' = (files s)(p := Some (journal_file R fs)) \<and> fs \<noteq> []"
proof (cases "fs = []")
  case True
  with assms(4) show ?thesis by (auto simp: replace_frames_with_faults_def io_fail_def)
next
  case False
  let ?t = "compact_name (butlast p) uuid p"
  have neq: "p \<noteq> ?t" using compact_name_fresh [OF assms(2)] by metis
  obtain r0 s0 where body: "replace_body R (butlast p) ?t p fs s = (r0, s0)" by fastforce
  have out: "replacing p ?t (journal_file R fs) s r0 s0"
    by (rule io_postD [OF replace_body_outcome [OF assms(1) neq] body])
  have clear: "(files s)(?t := None) = files s" "(files s)(p := y, ?t := None) = (files s)(p := y)" for y
    using assms(3) neq by (simp_all add: fun_upd_idem)
  show ?thesis
    using assms(2,4) False body out neq clear
    by (cases r0) (auto simp: replace_frames_with_faults_def parent_def remove_file_def replacing_def
        split: if_splits)
qed

end
