(* ===== verification/Append_Log.thy ===== *)
theory Append_Log
  imports Prelude "HOL-Library.Sublist"
begin

text \<open>
  The contract between a journal file and the store that appends to it: an append that returns
  success is held, and after an append that failed or was cut short by a power loss a restart
  reads the log without the entry or with it, never anything else. What the store's clients may
  rely on is proved once here, for every sequence of appends, refusals and power losses.
\<close>

text \<open>
  \<open>log_run\<close> collects the state of such a sequence: the file state, the entries a restart would
  read, the entries whose append was acknowledged and the entries whose append was attempted.
\<close>

inductive log_run ::
  "('f list \<Rightarrow> 'f \<Rightarrow> bool) \<Rightarrow> ('a \<Rightarrow> 'f \<Rightarrow> 's \<Rightarrow> ('e + unit) \<times> 's) \<Rightarrow> (nat \<Rightarrow> 'f \<Rightarrow> 's \<Rightarrow> 's)
     \<Rightarrow> ('s \<Rightarrow> ('e + 'f list) \<times> 's) \<Rightarrow> 's \<Rightarrow> 'f list \<Rightarrow> 's \<Rightarrow> 'f list \<Rightarrow> 'f list \<Rightarrow> 'f list \<Rightarrow> bool"
  for admissible append_op crash recover s0 fs0 where
  start: "log_run admissible append_op crash recover s0 fs0 s0 fs0 [] []"
| acknowledged:
    "log_run admissible append_op crash recover s0 fs0 s log acked tried \<Longrightarrow> admissible log f \<Longrightarrow>
     append_op a f s = (Inr (), s') \<Longrightarrow>
     log_run admissible append_op crash recover s0 fs0 s' (log @ [f]) (acked @ [f]) (tried @ [f])"
| refused:
    "log_run admissible append_op crash recover s0 fs0 s log acked tried \<Longrightarrow> admissible log f \<Longrightarrow>
     append_op a f s = (Inl e, s') \<Longrightarrow> recover s' = (Inr gs, s'') \<Longrightarrow>
     log_run admissible append_op crash recover s0 fs0 s'' gs acked (tried @ [f])"
| power_loss:
    "log_run admissible append_op crash recover s0 fs0 s log acked tried \<Longrightarrow> admissible log f \<Longrightarrow>
     recover (crash k f s) = (Inr gs, s') \<Longrightarrow>
     log_run admissible append_op crash recover s0 fs0 s' gs acked (tried @ [f])"

locale append_log =
  fixes holds :: "'s \<Rightarrow> 'f list \<Rightarrow> bool"
    and admissible :: "'f list \<Rightarrow> 'f \<Rightarrow> bool"
    and append_op :: "'a \<Rightarrow> 'f \<Rightarrow> 's \<Rightarrow> ('e + unit) \<times> 's"
    and crash :: "nat \<Rightarrow> 'f \<Rightarrow> 's \<Rightarrow> 's"
    and recover :: "'s \<Rightarrow> ('e + 'f list) \<times> 's"
  assumes recover_clean: "holds s fs \<Longrightarrow> recover s = (Inr fs, s)"
    and append_ok: "holds s fs \<Longrightarrow> admissible fs f \<Longrightarrow> append_op a f s = (Inr (), s') \<Longrightarrow> holds s' (fs @ [f])"
    and append_refused:
      "holds s fs \<Longrightarrow> admissible fs f \<Longrightarrow> append_op a f s = (Inl e, s') \<Longrightarrow>
         \<exists>gs s''. recover s' = (Inr gs, s'') \<and> holds s'' gs \<and> (gs = fs \<or> gs = fs @ [f])"
    and crash_recovers:
      "holds s fs \<Longrightarrow> admissible fs f \<Longrightarrow>
         \<exists>gs s''. recover (crash k f s) = (Inr gs, s'') \<and> holds s'' gs \<and> (gs = fs \<or> gs = fs @ [f])"
begin

lemma run_sound:
  assumes "log_run admissible append_op crash recover s0 fs0 s log acked tried" "holds s0 fs0"
  shows "holds s log \<and> (\<exists>extra. log = fs0 @ extra \<and> subseq acked extra \<and> subseq extra tried)"
  using assms
proof (induction rule: log_run.induct)
  case start
  then show ?case by simp
next
  case (acknowledged s log acked tried f a s')
  then have "holds s' (log @ [f])" using append_ok by blast
  with acknowledged show ?case by (auto intro: list_emb_append_mono)
next
  case (refused s log acked tried f a e s' gs s'')
  then have "holds s'' gs \<and> (gs = log \<or> gs = log @ [f])"
    using append_refused [of s log f a e s'] by auto
  with refused show ?case by (auto intro: list_emb_append_mono list_emb_prefix)
next
  case (power_loss s log acked tried f k gs s')
  then have "holds s' gs \<and> (gs = log \<or> gs = log @ [f])"
    using crash_recovers [of s log f k] by auto
  with power_loss show ?case by (auto intro: list_emb_append_mono list_emb_prefix)
qed

lemma run_restarts:
  assumes "log_run admissible append_op crash recover s0 fs0 s log acked tried" "holds s0 fs0"
    and "admissible log f"
  shows "recover s = (Inr log, s)"
    and "\<exists>gs s'. recover (crash k f s) = (Inr gs, s') \<and> (gs = log \<or> gs = log @ [f])"
  using run_sound [OF assms(1,2)] recover_clean crash_recovers assms(3) by blast+

end

end
