(* ===== verification/Journal_Durability.thy ===== *)
theory Journal_Durability
  imports Journal_Replace_Facts Append_Log
begin

text \<open>
  The properties of the framed journal: what was written is read back, what a crash or an injected
  fault can leave behind, what replay accepts, and what truncation and compaction keep.
\<close>

section \<open>A codec for the witnesses\<close>

definition number_codec :: "nat framed_record" where
  "number_codec = \<lparr>to_vec = (\<lambda>n. Inr (to_le 8 n)), decode = (\<lambda>bs. Inr (from_le bs)),
                   format_version = (\<lambda>_. FORMAT_VERSION), sequence_of = (\<lambda>n. n)\<rparr>"

lemma number_codec_ok: "n < 2 ^ 64 \<Longrightarrow> frame_ok number_codec i n \<longleftrightarrow> n = i"
  by (auto simp add: frame_ok_def number_codec_def from_le_to_le MAX_FRAME_BYTES_def)

lemma length_number_frame [simp]: "length (frame_bytes number_codec n) = 20"
  by (simp add: frame_bytes_def number_codec_def frame_consts)

definition number_state :: "nat list \<Rightarrow> io_state" where
  "number_state fs = \<lparr>files = [[''tasks'', ''journal''] \<mapsto> journal_file number_codec fs],
                      dirs = {[], [''tasks'']}, armed = None, sync_calls = 0\<rparr>"

section \<open>Creation\<close>

definition dir_ok :: "io_state \<Rightarrow> path \<Rightarrow> bool" where
  "dir_ok s d \<longleftrightarrow> d \<noteq> [] \<and> (\<forall>a\<in>set (ancestors d). a \<in> dirs s \<and> files s a = None)"

lemma ancestors_self: "d \<in> set (ancestors d)"
  by (auto simp: ancestors_def intro: image_eqI [of _ _ "length d"])

lemma ancestors_butlast: "butlast d \<in> set (ancestors d)"
  by (auto simp: ancestors_def butlast_conv_take)

lemma create_directory_durably_exists:
  assumes "dir_ok s d" "armed s = None"
  shows "create_directory_durably d kind s = (Inr (), s\<lparr>sync_calls := u64_add (sync_calls s) 1\<rparr>)"
proof -
  have d: "d \<in> dirs s" "files s d = None" "butlast d \<in> dirs s" "d \<noteq> []"
    using assms(1) ancestors_self ancestors_butlast by (auto simp: dir_ok_def)
  have "collect_missing s d [] = Inr []"
    using d by (simp add: collect_missing.simps path_exists_def)
  moreover have "create_dir_all d s = (Inr (), s)"
    using assms(1) d by (auto simp: create_dir_all_def dir_ok_def Un_absorb2 subset_eq)
  ultimately show ?thesis
    using d assms(2)
    by (simp add: create_directory_durably_def io_simps parent_def sync_directory_def record_sync_def
        path_exists_def)
qed

lemma create_unarmed:
  assumes "frame_ok R i f" "p \<noteq> []" "dir_ok s (butlast p)" "\<not> path_exists s p" "armed s = None"
  shows "\<exists>n. create_with_faults R p f kind s =
           (Inr (), s\<lparr>files := (files s)(p := Some (journal_file R [f])), sync_calls := n\<rparr>)"
proof -
  have d: "butlast p \<in> dirs s"
    using assms(3) ancestors_self by (auto simp: dir_ok_def)
  with assms show ?thesis
    by (simp add: create_with_faults_def parent_def io_seq_apply create_directory_durably_exists
        open_create_new_def path_exists_def write_frame_unarmed [OF assms(1)] record_sync_def
        sync_directory_def journal_file_def write_all_def header_bytes_def) blast
qed

lemma appends_unarmed:
  assumes "frames_ok R (1 + length fs) gs" "armed s = None" "files s p = Some (journal_file R fs)"
  shows "\<exists>s'. io_each (\<lambda>g. append_with_faults R p g kind) gs s = (Inr (), s')
           \<and> armed s' = None \<and> files s' p = Some (journal_file R (fs @ gs))"
  using assms
proof (induction gs arbitrary: fs s)
  case Nil
  then show ?case by (simp add: io_return_def)
next
  case (Cons g gs)
  let ?s1 = "s\<lparr>files := (files s)(p := Some (journal_file R fs @ frame_bytes R g)),
    sync_calls := u64_add (sync_calls s) 1\<rparr>"
  from Cons.prems have g: "append_with_faults R p g kind s = (Inr (), ?s1)"
    by (intro append_unarmed [of R "1 + length fs"]) simp_all
  have "frames_ok R (1 + length (fs @ [g])) gs" "armed ?s1 = None"
      "files ?s1 p = Some (journal_file R (fs @ [g]))"
    using Cons.prems by (simp_all add: journal_file_append)
  from Cons.IH [OF this] show ?case
    by (simp add: io_seq_apply g)
qed

text \<open>
  C1: A journal reads back exactly what was written. When no fault is injected and the directory
  exists, creating a journal with a first frame and appending the remaining frames one by one
  succeeds; replaying the file returns all the frames in order, and scanning it returns the same
  frame count and ends without the frames; neither changes anything.
\<close>

theorem journal_roundtrip:
  assumes "frames_ok R 1 (f # fs)" "p \<noteq> []" "dir_ok s (butlast p)" "\<not> path_exists s p" "armed s = None"
  shows "\<exists>s'. io_seq (create_with_faults R p f kind)
                 (io_each (\<lambda>g. append_with_faults R p g kind) fs) s = (Inr (), s')
         \<and> (\<exists>r. replay R p s' = (Inr r, s') \<and> frames r = f # fs
              \<and> scan R p s' = (Inr (r\<lparr>frames := []\<rparr>), s'))"
proof -
  from create_unarmed [of R 1 f p s kind] assms obtain n where
    c: "create_with_faults R p f kind s =
          (Inr (), s\<lparr>files := (files s)(p := Some (journal_file R [f])), sync_calls := n\<rparr>)"
    by auto
  let ?s1 = "s\<lparr>files := (files s)(p := Some (journal_file R [f])), sync_calls := n\<rparr>"
  from assms appends_unarmed [of R "[f]" fs ?s1 p kind] obtain s' where
    a: "io_each (\<lambda>g. append_with_faults R p g kind) fs ?s1 = (Inr (), s')"
      "files s' p = Some (journal_file R (f # fs))"
    by auto
  have "scan R p s' = (Inr ((replay_result R (f # fs))\<lparr>frames := []\<rparr>), s')"
    using replay_internal_journal [of R "f # fs" "[]" s' p False] assms(1) a(2)
    by (simp add: scan_def replay_result_def fun_upd_idem)
  moreover have "replay R p s' = (Inr (replay_result R (f # fs)), s')"
    using assms(1) a(2) by (rule replay_clean)
  moreover have "frames (replay_result R (f # fs)) = f # fs"
    by (simp add: replay_result_def)
  ultimately show ?thesis
    using c a(1) by (auto simp: io_seq_apply)
qed

theorem journal_roundtrip_witness:
  "\<exists>s'. io_seq (create_with_faults number_codec [''tasks'', ''log''] 1 TaskKind)
           (io_each (\<lambda>g. append_with_faults number_codec [''tasks'', ''log''] g TaskKind) [2, 3])
           (number_state []) = (Inr (), s')
     \<and> (\<exists>r. replay number_codec [''tasks'', ''log''] s' = (Inr r, s') \<and> frames r = [1, 2, 3]
          \<and> scan number_codec [''tasks'', ''log''] s' = (Inr (r\<lparr>frames := []\<rparr>), s'))"
  by (rule journal_roundtrip)
     (auto simp: number_codec_ok dir_ok_def ancestors_def number_state_def path_exists_def)

section \<open>Appends, faults and power losses\<close>

text \<open>
  The journal as an append log: an append runs under an injector armed with \<open>a\<close>; a power loss
  leaves the first \<open>k\<close> bytes of the frame being appended; a restart replays the file.
\<close>

definition journal_holds :: "'a framed_record \<Rightarrow> path \<Rightarrow> io_state \<Rightarrow> 'a list \<Rightarrow> bool" where
  "journal_holds R p s fs \<longleftrightarrow> frames_ok R 1 fs \<and> files s p = Some (journal_file R fs)"

definition journal_next :: "'a framed_record \<Rightarrow> 'a list \<Rightarrow> 'a \<Rightarrow> bool" where
  "journal_next R fs f \<longleftrightarrow> frame_ok R (length fs + 1) f"

definition journal_append ::
  "'a framed_record \<Rightarrow> path \<Rightarrow> journal_kind \<Rightarrow> (journal_kind \<times> fault_point) option \<Rightarrow> 'a \<Rightarrow> unit io" where
  "journal_append R p kind a f s = append_with_faults R p f kind (s\<lparr>armed := a\<rparr>)"

definition journal_crash :: "'a framed_record \<Rightarrow> path \<Rightarrow> nat \<Rightarrow> 'a \<Rightarrow> io_state \<Rightarrow> io_state" where
  "journal_crash R p k f s = snd (write_all p (take k (frame_bytes R f)) s)"

definition journal_recover :: "'a framed_record \<Rightarrow> path \<Rightarrow> ('a list) io" where
  "journal_recover R p = io_bind (replay R p) (\<lambda>r. io_return (frames r))"

lemma journal_recover_cut:
  assumes "frames_ok R 1 fs" "frame_ok R (length fs + 1) f"
    and "files s p = Some (journal_file R fs @ take k (frame_bytes R f))"
  shows "\<exists>gs s'. journal_recover R p s = (Inr gs, s') \<and> journal_holds R p s' gs \<and> (gs = fs \<or> gs = fs @ [f])"
  using replay_cut [of R fs f s p k] assms
  by (auto simp: journal_recover_def io_simps replay_result_def journal_holds_def frames_ok_append)

lemma journal_append_cut:
  assumes "journal_holds R p s fs" "journal_next R fs f" "journal_append R p kind a f s = (r, s')"
  shows "cut_frame p (journal_file R fs) (frame_bytes R f) (s\<lparr>armed := a\<rparr>) r s'"
  using assms unfolding journal_append_def journal_holds_def journal_next_def
  by (intro io_postD [OF append_cut]) auto

interpretation journal: append_log "journal_holds R p" "journal_next R" "journal_append R p kind"
  "journal_crash R p" "journal_recover R p" for R p kind
proof unfold_locales
  show "journal_recover R p s = (Inr fs, s)" if "journal_holds R p s fs" for s fs
    using that replay_clean [of R fs s p]
    by (auto simp: journal_holds_def journal_recover_def io_simps replay_result_def)
next
  fix s fs f a s'
  assume h: "journal_holds R p s fs" "journal_next R fs f" and r: "journal_append R p kind a f s = (Inr (), s')"
  from journal_append_cut [OF h r] have "files s' p = Some (journal_file R fs @ frame_bytes R f)"
    by (auto simp: cut_frame_def)
  with h show "journal_holds R p s' (fs @ [f])"
    by (simp add: journal_holds_def journal_next_def frames_ok_append journal_file_append)
next
  fix s fs f a e s'
  assume h: "journal_holds R p s fs" "journal_next R fs f" and r: "journal_append R p kind a f s = (Inl e, s')"
  from journal_append_cut [OF h r] obtain k where
    "files s' p = Some (journal_file R fs @ take k (frame_bytes R f))"
    by (auto simp: cut_frame_def)
  with h show "\<exists>gs s''. journal_recover R p s' = (Inr gs, s'') \<and> journal_holds R p s'' gs \<and> (gs = fs \<or> gs = fs @ [f])"
    by (intro journal_recover_cut) (simp_all add: journal_holds_def journal_next_def)
next
  fix s fs f k
  assume h: "journal_holds R p s fs" "journal_next R fs f"
  then show "\<exists>gs s''. journal_recover R p (journal_crash R p k f s) = (Inr gs, s'') \<and> journal_holds R p s'' gs
      \<and> (gs = fs \<or> gs = fs @ [f])"
    by (intro journal_recover_cut) (simp_all add: journal_holds_def journal_next_def journal_crash_def write_all_def)
qed


text \<open>A run of two appends: the first acknowledged, the second lost after three bytes.\<close>

lemma number_run:
  "\<exists>s. log_run (journal_next number_codec) (journal_append number_codec [''tasks'', ''journal''] TaskKind)
     (journal_crash number_codec [''tasks'', ''journal'']) (journal_recover number_codec [''tasks'', ''journal''])
     (number_state [1]) [1] s [1, 2] [2] [2, 3]"
proof -
  let ?p = "[''tasks'', ''journal'']"
  let ?R = "number_codec"
  have ok: "frame_ok ?R 2 2" "frame_ok ?R 3 3" "frames_ok ?R 1 [1, 2]"
    by (simp_all add: number_codec_ok)
  have "files ((number_state [1])\<lparr>armed := None\<rparr>) ?p = Some (journal_file ?R [1])"
    by (simp add: number_state_def)
  from append_unarmed [OF ok(1) _ this] obtain s1 where
    s1: "journal_append ?R ?p TaskKind None 2 (number_state [1]) = (Inr (), s1)"
      "files s1 ?p = Some (journal_file ?R [1] @ frame_bytes ?R 2)"
    by (auto simp: journal_append_def)
  let ?run = "log_run (journal_next ?R) (journal_append ?R ?p TaskKind) (journal_crash ?R ?p)
    (journal_recover ?R ?p) (number_state [1]) [1]"
  have "?run s1 ([1] @ [2]) ([] @ [2]) ([] @ [2])"
  proof (rule log_run.acknowledged)
    show "?run (number_state [1]) [1] [] []" by (rule log_run.start)
    show "journal_next ?R [1] 2" by (simp add: journal_next_def number_codec_ok)
  qed (rule s1(1))
  then have run: "?run s1 [1, 2] [2] [2]" by simp
  have "files s1 ?p = Some (journal_file ?R [1, 2])"
    using s1(2) journal_file_append [of ?R "[1]" "[2]"] by simp
  then have "files (journal_crash ?R ?p 3 3 s1) ?p = Some (journal_file ?R [1, 2] @ take 3 (frame_bytes ?R 3))"
    by (simp add: journal_crash_def write_all_def)
  from replay_cut [OF ok(3) _ this] ok(2) obtain s2 where
    "journal_recover ?R ?p (journal_crash ?R ?p 3 3 s1) = (Inr [1, 2], s2)"
    by (auto simp: journal_recover_def io_simps replay_result_def number_codec_ok)
  from log_run.power_loss [OF run _ this] have "?run s2 [1, 2] [2] ([2] @ [3])"
    by (simp add: journal_next_def number_codec_ok)
  then show ?thesis by (intro exI [of _ s2]) simp
qed


section \<open>Replay, truncation and compaction\<close>

text \<open>
  C4: Whatever bytes a journal file holds, a replay that succeeds returns frames whose sequence
  numbers are 1, 2, 3 and so on without a gap, all of the current version, with one end offset per
  frame; it never lengthens the file and touches no other; what it keeps of the file is a valid header
  and, frame by frame, a length field, a payload that decodes to the returned frame and the checksum of
  that payload; and it has repaired the file: replaying again returns the same result and discards
  nothing, and a scan agrees with it.
\<close>

theorem replay_sound:
  assumes "replay R p s = (Inr r, s')"
  shows "map (sequence_of R) (frames r) = [1..<Suc (length (frames r))]
    \<and> list_all (\<lambda>f. format_version R f = FORMAT_VERSION) (frames r)
    \<and> frame_count r = length (frames r) \<and> length (frame_ends r) = length (frames r)
    \<and> (\<exists>bytes n payloads. files s p = Some bytes \<and> s' = s\<lparr>files := (files s)(p := Some (take n bytes))\<rparr>
         \<and> take n bytes = header_bytes @ concat (map framed_payload payloads)
         \<and> list_all2 (payload_of R) payloads (frames r))
    \<and> replay R p s' = (Inr r, s') \<and> scan R p s' = (Inr (r\<lparr>frames := []\<rparr>), s')"
proof -
  from assms obtain bytes n where b: "files s p = Some bytes"
      "replay_bytes R True bytes = Inr (frames r, frame_ends r, n)" "frame_count r = length (frame_ends r)"
      "n \<le> length bytes" "s' = s\<lparr>files := (files s)(p := Some (take n bytes))\<rparr>"
    by (rule replay_Inr_elim)
  note sound = replay_bytes_sound [OF b(2)]
  note framed = replay_bytes_framed [OF b(2)]
  have s': "files s' p = Some (take n bytes)" using b(5) by simp
  have again: "replay_bytes R True (take n bytes) = Inr (frames r, frame_ends r, length (take n bytes))"
      "replay_bytes R False (take n bytes) = Inr ([], frame_ends r, length (take n bytes))"
    using sound(5) [of True] sound(5) [of False] b(4) by simp_all
  have "replay R p s' = (Inr r, s')" "scan R p s' = (Inr (r\<lparr>frames := []\<rparr>), s')"
    unfolding replay_def scan_def
    using replay_of_bytes [OF s' again(1)] replay_of_bytes [OF s' again(2)] b(3)
    by simp_all
  moreover have "\<exists>bytes n payloads. files s p = Some bytes \<and> s' = s\<lparr>files := (files s)(p := Some (take n bytes))\<rparr>
      \<and> take n bytes = header_bytes @ concat (map framed_payload payloads)
      \<and> list_all2 (payload_of R) payloads (frames r)"
    using b(1,5) framed by blast
  ultimately show ?thesis
    using b(3) sound(2-4) by (simp add: list_all_iff)
qed

theorem replay_sound_witness:
  "\<exists>r s'. replay number_codec [''tasks'', ''journal''] (number_state [1, 2]) = (Inr r, s')
     \<and> map (sequence_of number_codec) (frames r) = [1..<Suc (length (frames r))]
     \<and> replay number_codec [''tasks'', ''journal''] s' = (Inr r, s')"
proof -
  have "frames_ok number_codec 1 [1, 2]"
    "files (number_state [1, 2]) [''tasks'', ''journal''] = Some (journal_file number_codec [1, 2])"
    by (simp_all add: number_codec_ok number_state_def)
  note r = replay_clean [OF this]
  show ?thesis using r replay_sound [OF r] by blast
qed

text \<open>
  C32: Truncating a replayed journal keeps exactly the first \<open>n\<close> frames, whatever fault interrupts
  it: the file is either unchanged, and then an error was reported, or the journal of the first
  \<open>n\<close> frames, which the next replay returns; no other file changes.
\<close>

theorem truncate_keeps_prefix:
  assumes "frames_ok R 1 fs" "files s p = Some (journal_file R fs)" "n < length fs"
    and "replay R p s = (Inr replayed, s)"
    and "truncate_after_with_faults p replayed n kind s = (r, s')"
  shows "files s' = files s \<and> r \<noteq> Inr ()
    \<or> files s' = (files s)(p := Some (journal_file R (take n fs)))
      \<and> (\<exists>again. replay R p s' = (Inr again, s') \<and> frames again = take n fs)"
proof -
  have "replayed = replay_result R fs"
    using assms(4) replay_clean [OF assms(1,2)] by simp
  with truncate_outcome [OF assms(2,3)] assms(5)
  have out: "files s' = files s \<and> r \<noteq> Inr () \<or> files s' = (files s)(p := Some (journal_file R (take n fs)))"
    by (auto dest: io_postD)
  have "\<exists>again. replay R p s' = (Inr again, s') \<and> frames again = take n fs"
    if "files s' p = Some (journal_file R (take n fs))"
    using replay_clean [OF frames_ok_take [OF assms(1)] that] by (simp add: replay_result_def)
  with out show ?thesis by auto
qed

theorem truncate_keeps_prefix_witness:
  "\<exists>(replayed :: nat replayed_frames) r s'.
     truncate_after_with_faults [''tasks'', ''journal''] replayed 1 TaskKind (number_state [1, 2, 3]) = (r, s')
     \<and> (files s' = files (number_state [1, 2, 3]) \<and> r \<noteq> Inr ()
       \<or> files s' = (files (number_state [1, 2, 3]))([''tasks'', ''journal''] := Some (journal_file number_codec (take 1 [1, 2, 3])))
         \<and> (\<exists>again. replay number_codec [''tasks'', ''journal''] s' = (Inr again, s') \<and> frames again = take 1 [1, 2, 3]))"
proof -
  have ok: "frames_ok number_codec 1 [1, 2, 3]"
    "files (number_state [1, 2, 3]) [''tasks'', ''journal''] = Some (journal_file number_codec [1, 2, 3])"
    by (simp_all add: number_codec_ok number_state_def)
  have n: "1 < length [1, 2, 3 :: nat]" by simp
  obtain r s' where run: "truncate_after_with_faults [''tasks'', ''journal''] (replay_result number_codec [1, 2, 3]) 1
      TaskKind (number_state [1, 2, 3]) = (r, s')"
    by fastforce
  show ?thesis
    using run truncate_keeps_prefix [OF ok n replay_clean [OF ok] run] by blast
qed

text \<open>
  C7: Compaction is atomic. Replacing a journal by a non-empty list of frames, under any injected
  fault, leaves the file either as it was or holding exactly the new journal, and changes no other
  file: the temporary file is gone in both cases. Success is reported only for the new journal,
  which the next replay returns.
\<close>

theorem compaction_atomic:
  assumes "frames_ok R 1 fs" "p \<noteq> []" "files s (compact_name (butlast p) uuid p) = None"
    and "replace_frames_with_faults R uuid p fs s = (r, s')"
  shows "files s' = files s \<and> r \<noteq> Inr ()
    \<or> files s' = (files s)(p := Some (journal_file R fs))
      \<and> (\<exists>again. replay R p s' = (Inr again, s') \<and> frames again = fs)"
proof -
  have "\<exists>again. replay R p s' = (Inr again, s') \<and> frames again = fs"
    if "files s' p = Some (journal_file R fs)"
    using replay_clean [OF assms(1) that] by (simp add: replay_result_def)
  then show ?thesis
    using replace_frames_outcome [OF assms] by auto
qed

theorem compaction_atomic_witness:
  "\<exists>r s'. replace_frames_with_faults number_codec ''u'' [''tasks'', ''journal''] [1] (number_state [1, 2]) = (r, s')
     \<and> (files s' = files (number_state [1, 2]) \<and> r \<noteq> Inr ()
       \<or> files s' = (files (number_state [1, 2]))([''tasks'', ''journal''] := Some (journal_file number_codec [1]))
         \<and> (\<exists>again. replay number_codec [''tasks'', ''journal''] s' = (Inr again, s') \<and> frames again = [1]))"
proof -
  have ok: "frames_ok number_codec 1 [1]" "[''tasks'', ''journal''] \<noteq> []"
    "files (number_state [1, 2]) (compact_name (butlast [''tasks'', ''journal'']) ''u'' [''tasks'', ''journal'']) = None"
    by (simp_all add: number_codec_ok number_state_def compact_name_def)
  obtain r s' where run: "replace_frames_with_faults number_codec ''u'' [''tasks'', ''journal''] [1]
      (number_state [1, 2]) = (r, s')"
    by fastforce
  show ?thesis
    by (intro exI conjI, rule run, rule compaction_atomic [OF ok run])
qed

section \<open>Sizes\<close>

lemma framed_file_len_from_exact:
  assumes "frames_ok R i fs"
  shows "framed_file_len_from R len fs =
     (if len + length (journal_body R fs) < two64 \<or> fs = [] then Inr (len + length (journal_body R fs))
      else Inl size_overflow)"
  using assms
proof (induction fs arbitrary: i len)
  case Nil
  then show ?case by (simp add: journal_body_def)
next
  case (Cons f fs)
  then obtain payload where "to_vec R f = Inr payload" "length payload \<le> MAX_FRAME_BYTES"
      "length (frame_bytes R f) = 12 + length payload"
    using frame_ok_payload [of R i f] by force
  with Cons.IH [of "i + 1" "12 + (len + length payload)"] Cons.prems show ?case
    by (auto simp: journal_body_Cons checked_add64_def frame_consts journal_body_def)
qed

text \<open>
  C36: The size computed before a journal is written is the size of the file that is written: for
  frames that encode, \<open>framed_file_len\<close> is the exact number of bytes of the journal, and its only
  error is a total that does not fit in 64 bits.
\<close>

theorem framed_file_len_exact:
  assumes "frames_ok R 1 fs"
  shows "framed_file_len R fs =
     (if length (journal_file R fs) < two64 then Inr (length (journal_file R fs)) else Inl size_overflow)"
  using framed_file_len_from_exact [OF assms, of FILE_HEADER_LEN]
  by (auto simp: framed_file_len_def journal_file_def frame_consts journal_body_def)

theorem framed_file_len_exact_witness:
  "framed_file_len number_codec [1, 2] = Inr (length (journal_file number_codec [1, 2]))"
  using framed_file_len_exact [of number_codec "[1, 2]"]
  by (simp add: number_codec_ok journal_file_def journal_body_def)

end
