(* ===== verification/Reliable_Session.thy ===== *)
theory Reliable_Session
  imports Prelude
begin

text \<open>
  The transport-independent half of a resumable RPC session
  (\<open>src/openaide-rs/app-server/src/protocol_edge/reliable_session.rs\<close>, with the wake-up counter of
  \<open>delivery_signal.rs\<close>): sequencing of client frames, duplicate suppression, the bounded replay
  window of server frames, and the ownership of a session by its newest link.

  The registry's mutex makes each critical section one step. \<open>open\<close> takes the random session
  identifier (\<open>Uuid::new_v4\<close>) as an argument. \<open>accept_client_frame\<close> gives the lock back before it
  calls \<open>dispatch\<close>, a callback of the caller: its definition returns the message to dispatch, and the
  call of \<open>dispatch\<close> is a step of its own. Sequence numbers and epochs are \<open>u64\<close> and wrap.
\<close>

definition MAX_SERVER_REPLAY_FRAMES :: nat where
  "MAX_SERVER_REPLAY_FRAMES = 1024"

section \<open>The delivery signal\<close>

text \<open>The signal's state is its generation; a waiter that saw \<open>seen\<close> is woken when it differs.\<close>

definition notify :: "nat \<Rightarrow> nat" where
  "notify generation = u64_add generation 1"

definition wait_changed :: "nat \<Rightarrow> nat \<Rightarrow> nat option" where
  "wait_changed generation seen = (if generation = seen then None else Some generation)"

section \<open>Sessions\<close>

record 'm server_frame =
  sequence :: nat
  message :: 'm

record 'm reliable_session =
  connection_id :: string
  last_client_sequence :: nat
  next_server_sequence :: nat
  server_frames :: "'m server_frame list"
  link_epoch :: nat

record 'm session_registry =
  server_id :: string
  sessions :: "string \<Rightarrow> 'm reliable_session option"
  deliveries :: nat

record attached_link =
  link_session_id :: string
  link_server_id :: string
  link_connection_id :: string
  link_last_client_sequence :: nat
  epoch :: nat

datatype attach_error = AttachUnknownSession | AttachWrongConnection

record opened_session =
  opened_session_id :: string
  opened_server_id :: string

datatype accept_outcome = Accepted | Duplicate | Gap nat | UnknownSession | WrongConnection

datatype poll_error = PollUnknownSession | InvalidAcknowledgement | ReplayExpired

definition with_delivery_signal :: "string \<Rightarrow> nat \<Rightarrow> 'm session_registry" where
  "with_delivery_signal server generation =
     \<lparr>server_id = server, sessions = Map.empty, deliveries = generation\<rparr>"

definition put_session :: "string \<Rightarrow> 'm reliable_session \<Rightarrow> 'm session_registry \<Rightarrow> 'm session_registry" where
  "put_session sid s r = r\<lparr>sessions := (sessions r)(sid := Some s)\<rparr>"

definition open_session :: "string \<Rightarrow> string \<Rightarrow> 'm session_registry \<Rightarrow> opened_session \<times> 'm session_registry" where
  "open_session uuid conn r =
     (\<lparr>opened_session_id = uuid, opened_server_id = server_id r\<rparr>,
      put_session uuid
        \<lparr>connection_id = conn, last_client_sequence = 0, next_server_sequence = 1,
         server_frames = [], link_epoch = 0\<rparr> r)"

text \<open>The second critical section of \<open>attach_link\<close>, and the notification after it.\<close>

definition bind_link ::
  "string \<Rightarrow> string \<Rightarrow> 'm session_registry \<Rightarrow> (attach_error + attached_link) \<times> 'm session_registry" where
  "bind_link sid conn r =
     (case sessions r sid of
        None \<Rightarrow> (Inl AttachUnknownSession, r)
      | Some s \<Rightarrow>
          if connection_id s \<noteq> conn then (Inl AttachWrongConnection, r)
          else
            let s' = s\<lparr>link_epoch := u64_add (link_epoch s) 1\<rparr> in
            (Inr \<lparr>link_session_id = sid, link_server_id = server_id r, link_connection_id = conn,
                  link_last_client_sequence = last_client_sequence s', epoch = link_epoch s'\<rparr>,
             (put_session sid s' r)\<lparr>deliveries := notify (deliveries r)\<rparr>))"

definition attach_link ::
  "string \<Rightarrow> string \<Rightarrow> string option \<Rightarrow> 'm session_registry
     \<Rightarrow> (attach_error + attached_link) \<times> 'm session_registry" where
  "attach_link uuid conn resume r =
     (case resume of
        Some sid \<Rightarrow> bind_link sid conn r
      | None \<Rightarrow> (case open_session uuid conn r of (opened, r') \<Rightarrow> bind_link (opened_session_id opened) conn r'))"

definition link_is_current :: "attached_link \<Rightarrow> 'm session_registry \<Rightarrow> bool" where
  "link_is_current link r =
     (case sessions r (link_session_id link) of
        None \<Rightarrow> False
      | Some s \<Rightarrow> link_epoch s = epoch link)"

text \<open>The critical section: the outcome, the message to dispatch once the lock is free, and the registry.\<close>

definition accept_client_frame ::
  "string \<Rightarrow> string \<Rightarrow> nat \<Rightarrow> 'm \<Rightarrow> 'm session_registry
     \<Rightarrow> accept_outcome \<times> 'm option \<times> 'm session_registry" where
  "accept_client_frame sid conn seq msg r =
     (case sessions r sid of
        None \<Rightarrow> (UnknownSession, None, r)
      | Some s \<Rightarrow>
          if connection_id s \<noteq> conn then (WrongConnection, None, r)
          else if seq \<le> last_client_sequence s then (Duplicate, None, r)
          else
            let expected = u64_add (last_client_sequence s) 1 in
            if seq \<noteq> expected then (Gap expected, None, r)
            else (Accepted, Some msg, put_session sid (s\<lparr>last_client_sequence := seq\<rparr>) r))"

definition enqueue_server_message :: "string \<Rightarrow> 'm \<Rightarrow> 'm session_registry \<Rightarrow> bool \<times> 'm session_registry" where
  "enqueue_server_message sid msg r =
     (case sessions r sid of
        None \<Rightarrow> (False, r)
      | Some s \<Rightarrow>
          let seq = next_server_sequence s;
              fs = server_frames s @ [\<lparr>sequence = seq, message = msg\<rparr>];
              s' = s\<lparr>next_server_sequence := u64_add seq 1,
                     server_frames := (if length fs > MAX_SERVER_REPLAY_FRAMES then tl fs else fs)\<rparr> in
          (True, (put_session sid s' r)\<lparr>deliveries := notify (deliveries r)\<rparr>))"

definition session_connection_id :: "string \<Rightarrow> 'm session_registry \<Rightarrow> string option" where
  "session_connection_id sid r = map_option connection_id (sessions r sid)"

definition checked_session :: "string \<Rightarrow> nat \<Rightarrow> 'm session_registry \<Rightarrow> poll_error + 'm reliable_session" where
  "checked_session sid after r =
     (case sessions r sid of
        None \<Rightarrow> Inl PollUnknownSession
      | Some s \<Rightarrow>
          if after \<ge> next_server_sequence s then Inl InvalidAcknowledgement
          else if (case server_frames s of [] \<Rightarrow> False | f # _ \<Rightarrow> sat_add64 after 1 < sequence f)
          then Inl ReplayExpired
          else Inr s)"

definition acknowledge ::
  "string \<Rightarrow> nat \<Rightarrow> 'm session_registry \<Rightarrow> (poll_error + unit) \<times> 'm session_registry" where
  "acknowledge sid through r =
     (case checked_session sid through r of
        Inl e \<Rightarrow> (Inl e, r)
      | Inr s \<Rightarrow>
          (Inr (),
           put_session sid (s\<lparr>server_frames := dropWhile (\<lambda>f. sequence f \<le> through) (server_frames s)\<rparr>) r))"

definition frames_after :: "string \<Rightarrow> nat \<Rightarrow> 'm session_registry \<Rightarrow> poll_error + 'm server_frame list" where
  "frames_after sid after r =
     (case checked_session sid after r of
        Inl e \<Rightarrow> Inl e
      | Inr s \<Rightarrow> Inr (filter (\<lambda>f. after < sequence f) (server_frames s)))"

definition poll ::
  "string \<Rightarrow> nat \<Rightarrow> 'm session_registry \<Rightarrow> (poll_error + 'm server_frame list) \<times> 'm session_registry" where
  "poll sid after r =
     (case acknowledge sid after r of
        (Inl e, r') \<Rightarrow> (Inl e, r')
      | (Inr _, r') \<Rightarrow> (frames_after sid after r', r'))"

section \<open>Runs\<close>

text \<open>
  One call of the registry, at the granularity of its critical sections, and the history a run
  leaves behind: per session, since it was opened, the client frames accepted, those of them whose
  \<open>dispatch\<close> has not been called yet, those dispatched, the messages enqueued, the highest sequence
  acknowledged and the links attached. Calls of several threads overlap, so that between the acceptance
  of a frame and its dispatch any other call may come; \<open>DispatchEv\<close> is the moment one of the waiting
  frames is dispatched.
\<close>

datatype 'm session_event =
    OpenEv string string
  | BindEv string string
  | AcceptEv string string nat 'm
  | DispatchEv string nat
  | EnqueueEv string 'm
  | AckEv string nat

record 'm session_run =
  registry :: "'m session_registry"
  accepted_frames :: "string \<Rightarrow> (nat \<times> 'm) list"
  pending_frames :: "string \<Rightarrow> (nat \<times> 'm) list"
  dispatched :: "string \<Rightarrow> (nat \<times> 'm) list"
  enqueued :: "string \<Rightarrow> 'm list"
  acked :: "string \<Rightarrow> nat"
  links :: "string \<Rightarrow> attached_link list"

definition session_step :: "'m session_run \<Rightarrow> 'm session_event \<Rightarrow> 'm session_run" where
  "session_step t ev =
     (case ev of
        OpenEv uuid conn \<Rightarrow>
          t\<lparr>registry := snd (open_session uuid conn (registry t)),
            accepted_frames := (accepted_frames t)(uuid := []), pending_frames := (pending_frames t)(uuid := []),
            dispatched := (dispatched t)(uuid := []), enqueued := (enqueued t)(uuid := []),
            acked := (acked t)(uuid := 0), links := (links t)(uuid := [])\<rparr>
      | BindEv sid conn \<Rightarrow>
          (case bind_link sid conn (registry t) of
             (Inl _, r) \<Rightarrow> t\<lparr>registry := r\<rparr>
           | (Inr l, r) \<Rightarrow> t\<lparr>registry := r, links := (links t)(sid := links t sid @ [l])\<rparr>)
      | AcceptEv sid conn seq msg \<Rightarrow>
          (case accept_client_frame sid conn seq msg (registry t) of
             (_, None, r) \<Rightarrow> t\<lparr>registry := r\<rparr>
           | (_, Some m, r) \<Rightarrow>
               t\<lparr>registry := r, accepted_frames := (accepted_frames t)(sid := accepted_frames t sid @ [(seq, m)]),
                 pending_frames := (pending_frames t)(sid := pending_frames t sid @ [(seq, m)])\<rparr>)
      | DispatchEv sid seq \<Rightarrow>
          (case map_of (pending_frames t sid) seq of
             None \<Rightarrow> t
           | Some m \<Rightarrow>
               t\<lparr>pending_frames := (pending_frames t)(sid := remove1 (seq, m) (pending_frames t sid)),
                 dispatched := (dispatched t)(sid := dispatched t sid @ [(seq, m)])\<rparr>)
      | EnqueueEv sid msg \<Rightarrow>
          (case enqueue_server_message sid msg (registry t) of
             (False, r) \<Rightarrow> t\<lparr>registry := r\<rparr>
           | (True, r) \<Rightarrow> t\<lparr>registry := r, enqueued := (enqueued t)(sid := enqueued t sid @ [msg])\<rparr>)
      | AckEv sid through \<Rightarrow>
          (case acknowledge sid through (registry t) of
             (Inl _, r) \<Rightarrow> t\<lparr>registry := r\<rparr>
           | (Inr _, r) \<Rightarrow> t\<lparr>registry := r, acked := (acked t)(sid := max (acked t sid) through)\<rparr>))"

definition session_start :: "string \<Rightarrow> 'm session_run" where
  "session_start server =
     \<lparr>registry = with_delivery_signal server 0, accepted_frames = (\<lambda>_. []), pending_frames = (\<lambda>_. []),
      dispatched = (\<lambda>_. []), enqueued = (\<lambda>_. []), acked = (\<lambda>_. 0), links = (\<lambda>_. [])\<rparr>"

definition session_run_of :: "string \<Rightarrow> 'm session_event list \<Rightarrow> 'm session_run" where
  "session_run_of server evs = foldl session_step (session_start server) evs"

end
