(* ===== verification/Reliable_Session_Facts.thy ===== *)
theory Reliable_Session_Facts
  imports Reliable_Session "HOL-Library.Multiset"
begin

text \<open>
  What a resumable session promises, over every sequence of calls to the registry: client frames
  are accepted exactly once and in order and each is dispatched at most once, in order too when the
  calls do not overlap; what a client that resumes at any cursor gets; and a session is owned by its
  newest link only.
\<close>

section \<open>The replay window\<close>

text \<open>The retained frames are the enqueued messages from position \<open>k\<close> on, numbered from one.\<close>

definition window :: "nat \<Rightarrow> 'm list \<Rightarrow> 'm server_frame list" where
  "window k h = map (\<lambda>i. \<lparr>sequence = Suc i, message = h ! i\<rparr>) [k..<length h]"

lemma length_window [simp]: "length (window k h) = length h - k"
  by (simp add: window_def)

lemma window_empty [simp]: "length h \<le> k \<Longrightarrow> window k h = []"
  by (simp add: window_def)

lemma window_unfold: "k < length h \<Longrightarrow> window k h = \<lparr>sequence = Suc k, message = h ! k\<rparr> # window (Suc k) h"
  by (simp add: window_def upt_conv_Cons)

lemma window_snoc:
  "k \<le> length h \<Longrightarrow> window k (h @ [x]) = window k h @ [\<lparr>sequence = Suc (length h), message = x\<rparr>]"
  by (simp add: window_def nth_append)

lemma window_tl: "k < length h \<Longrightarrow> tl (window k h) = window (Suc k) h"
  by (simp add: window_unfold)

lemma window_messages: "map message (window k h) = drop k h"
  by (rule nth_equalityI) (simp_all add: window_def)

lemma window_sequences: "map sequence (window k h) = [Suc k..<Suc (length h)]"
  by (simp add: window_def comp_def map_Suc_upt del: upt_Suc)

lemma window_filter: "filter (\<lambda>f. a < sequence f) (window k h) = window (max k a) h"
proof (induction "length h - k" arbitrary: k)
  case 0
  then show ?case by simp
next
  case (Suc n)
  then have "filter (\<lambda>f. a < sequence f) (window (Suc k) h) = window (max (Suc k) a) h" by simp
  with Suc show ?case
    by (cases "a \<le> k") (simp_all add: window_unfold max.absorb1 max.absorb2)
qed

lemma window_dropWhile: "dropWhile (\<lambda>f. sequence f \<le> a) (window k h) = window (max k a) h"
proof (induction "length h - k" arbitrary: k)
  case 0
  then show ?case by simp
next
  case (Suc n)
  then have "dropWhile (\<lambda>f. sequence f \<le> a) (window (Suc k) h) = window (max (Suc k) a) h" by simp
  with Suc show ?case
    by (cases "a \<le> k") (simp_all add: window_unfold max.absorb1 max.absorb2)
qed

section \<open>The invariant\<close>

text \<open>A frame leaves the window only when it was acknowledged or when the window overflowed.\<close>

definition retained_from :: "'m list \<Rightarrow> nat \<Rightarrow> nat" where
  "retained_from enq ack = max ack (length enq - MAX_SERVER_REPLAY_FRAMES)"

lemma window_push:
  assumes "ack \<le> length enq" "gs = window (retained_from enq ack) enq @ [\<lparr>sequence = Suc (length enq), message = m\<rparr>]"
  shows "(if length gs > MAX_SERVER_REPLAY_FRAMES then tl gs else gs) = window (retained_from (enq @ [m]) ack) (enq @ [m])"
proof -
  define k where "k = retained_from enq ack"
  have k: "k \<le> length enq" using assms(1) by (simp add: k_def retained_from_def)
  then have gs: "gs = window k (enq @ [m])" using assms(2) by (simp add: window_snoc k_def)
  show ?thesis
  proof (cases "length gs > MAX_SERVER_REPLAY_FRAMES")
    case True
    then have "retained_from (enq @ [m]) ack = Suc k"
      using k by (auto simp: gs k_def retained_from_def MAX_SERVER_REPLAY_FRAMES_def)
    with True k show ?thesis by (simp add: gs window_tl)
  next
    case False
    then have "retained_from (enq @ [m]) ack = k"
      using k by (auto simp: gs k_def retained_from_def MAX_SERVER_REPLAY_FRAMES_def)
    with False show ?thesis by (simp add: gs)
  qed
qed

lemma window_acknowledge:
  "dropWhile (\<lambda>f. sequence f \<le> through) (window (retained_from enq ack) enq)
   = window (retained_from enq (max ack through)) enq"
  by (simp add: window_dropWhile retained_from_def ac_simps)

record 'm session_history =
  h_taken :: "(nat \<times> 'm) list"
  h_waiting :: "(nat \<times> 'm) list"
  h_sent :: "(nat \<times> 'm) list"
  h_queued :: "'m list"
  h_confirmed :: nat
  h_attached :: "attached_link list"

definition history_of :: "'m session_run \<Rightarrow> string \<Rightarrow> 'm session_history" where
  "history_of t sid =
     \<lparr>h_taken = accepted_frames t sid, h_waiting = pending_frames t sid, h_sent = dispatched t sid,
      h_queued = enqueued t sid, h_confirmed = acked t sid, h_attached = links t sid\<rparr>"

definition session_ok :: "nat \<Rightarrow> string \<Rightarrow> 'm reliable_session \<Rightarrow> 'm session_history \<Rightarrow> bool" where
  "session_ok n sid s h \<longleftrightarrow>
     last_client_sequence s = length (h_taken h) \<and> length (h_taken h) < two64
   \<and> map fst (h_taken h) = [1..<Suc (length (h_taken h))]
   \<and> mset (h_sent h) + mset (h_waiting h) = mset (h_taken h)
   \<and> next_server_sequence s = Suc (length (h_queued h)) \<and> length (h_queued h) \<le> n \<and> h_confirmed h \<le> length (h_queued h)
   \<and> server_frames s = window (retained_from (h_queued h) (h_confirmed h)) (h_queued h)
   \<and> link_epoch s = length (h_attached h) \<and> length (h_attached h) \<le> n
   \<and> map epoch (h_attached h) = [1..<Suc (length (h_attached h))]
   \<and> list_all (\<lambda>l. link_session_id l = sid) (h_attached h)"

definition session_inv :: "nat \<Rightarrow> 'm session_run \<Rightarrow> bool" where
  "session_inv n t \<longleftrightarrow>
     (\<forall>sid s. sessions (registry t) sid = Some s \<longrightarrow> session_ok n sid s (history_of t sid))"

lemma session_ok_mono: "session_ok n sid s h \<Longrightarrow> session_ok (Suc n) sid s h"
  by (simp add: session_ok_def)

text \<open>A step that replaces one session and its history keeps every other session's history.\<close>

lemma session_inv_put:
  assumes "session_inv n t" "session_ok (Suc n) sid s h"
    and "sessions (registry t') = (sessions (registry t))(sid := Some s)"
    and "history_of t' = (history_of t)(sid := h)"
  shows "session_inv (Suc n) t'"
  using assms by (auto simp: session_inv_def session_ok_mono)

lemma session_inv_same:
  assumes "session_inv n t" "sessions (registry t') = sessions (registry t)" "history_of t' = history_of t"
  shows "session_inv (Suc n) t'"
  using assms by (auto simp: session_inv_def session_ok_mono)

lemma session_ok_open:
  "session_ok n uuid \<lparr>connection_id = conn, last_client_sequence = 0, next_server_sequence = 1,
     server_frames = [], link_epoch = 0\<rparr>
     \<lparr>h_taken = [], h_waiting = [], h_sent = [], h_queued = [], h_confirmed = 0, h_attached = []\<rparr>"
  by (simp add: session_ok_def)

lemma session_ok_accept:
  assumes "session_ok n sid s h" "last_client_sequence s < seq" "seq = u64_add (last_client_sequence s) 1"
  shows "session_ok (Suc n) sid (s\<lparr>last_client_sequence := seq\<rparr>)
           (h\<lparr>h_taken := h_taken h @ [(seq, m)], h_waiting := h_waiting h @ [(seq, m)]\<rparr>)"
proof -
  from assms have d: "last_client_sequence s = length (h_taken h)" "length (h_taken h) < two64"
    by (simp_all add: session_ok_def)
  with assms(2,3) have "Suc (length (h_taken h)) < two64"
    by (cases "Suc (length (h_taken h)) = two64") (auto simp: u64_add_def)
  then have "seq = Suc (length (h_taken h))" "Suc (length (h_taken h)) < two64"
    using assms(3) d by (simp_all add: u64_simps)
  then show ?thesis
    using session_ok_mono [OF assms(1)] by (auto simp: session_ok_def)
qed

lemma session_ok_dispatch:
  assumes "session_ok n sid s h" "x \<in> set (h_waiting h)"
  shows "session_ok (Suc n) sid s (h\<lparr>h_waiting := remove1 x (h_waiting h), h_sent := h_sent h @ [x]\<rparr>)"
proof -
  have "mset (h_sent h @ [x]) + mset (remove1 x (h_waiting h)) = mset (h_sent h) + mset (h_waiting h)"
    using assms(2) by simp
  with session_ok_mono [OF assms(1)] show ?thesis by (simp add: session_ok_def)
qed

lemma session_ok_enqueue:
  assumes "session_ok n sid s h" "n + 2 < two64"
  shows "session_ok (Suc n) sid
     (s\<lparr>next_server_sequence := u64_add (next_server_sequence s) 1,
        server_frames := (let fs = server_frames s @ [\<lparr>sequence = next_server_sequence s, message = m\<rparr>]
          in if length fs > MAX_SERVER_REPLAY_FRAMES then tl fs else fs)\<rparr>) (h\<lparr>h_queued := h_queued h @ [m]\<rparr>)"
proof -
  have "u64_add (next_server_sequence s) 1 = Suc (Suc (length (h_queued h)))" "h_confirmed h \<le> length (h_queued h)"
    using assms by (auto simp: session_ok_def u64_simps)
  then show ?thesis
    using session_ok_mono [OF assms(1)] assms(1) window_push [OF _ refl, of "h_confirmed h" "h_queued h" m]
    by (simp add: session_ok_def Let_def)
qed

lemma session_ok_acknowledge:
  assumes "session_ok n sid s h" "through < next_server_sequence s"
  shows "session_ok (Suc n) sid
     (s\<lparr>server_frames := dropWhile (\<lambda>f. sequence f \<le> through) (server_frames s)\<rparr>)
     (h\<lparr>h_confirmed := max (h_confirmed h) through\<rparr>)"
  using session_ok_mono [OF assms(1)] assms by (simp add: session_ok_def window_acknowledge)

lemma session_ok_bind:
  assumes "session_ok n sid s h" "n + 2 < two64" "link_session_id lk = sid"
    and "epoch lk = u64_add (link_epoch s) 1"
  shows "session_ok (Suc n) sid (s\<lparr>link_epoch := u64_add (link_epoch s) 1\<rparr>) (h\<lparr>h_attached := h_attached h @ [lk]\<rparr>)"
proof -
  have "u64_add (link_epoch s) 1 = Suc (length (h_attached h))"
    using assms(1,2) by (simp add: session_ok_def u64_simps)
  with session_ok_mono [OF assms(1)] assms show ?thesis
    by (auto simp: session_ok_def)
qed

lemma checked_session_cases:
  assumes "checked_session sid after r = Inr s"
  shows "sessions r sid = Some s" "after < next_server_sequence s"
  using assms by (auto simp: checked_session_def split: option.splits if_splits)

lemma history_of_eq:
  assumes "\<And>x. history_of t' x = (if x = sid then h else history_of t x)"
  shows "history_of t' = (history_of t)(sid := h)"
  using assms by auto

lemma dispatch_inv:
  assumes "session_inv n t"
  shows "session_inv (Suc n) (session_step t (DispatchEv sid seq))"
proof (cases "map_of (pending_frames t sid) seq")
  case None
  then show ?thesis by (intro session_inv_same [OF assms]) (simp_all add: session_step_def)
next
  case (Some m)
  let ?t = "session_step t (DispatchEv sid seq)"
  have reg: "registry ?t = registry t" using Some by (simp add: session_step_def)
  have hist: "history_of ?t x = (if x = sid then (history_of t sid)\<lparr>h_waiting := remove1 (seq, m) (pending_frames t sid),
      h_sent := dispatched t sid @ [(seq, m)]\<rparr> else history_of t x)" for x
    using Some by (simp add: session_step_def history_of_def)
  have "session_ok (Suc n) x s (history_of ?t x)" if "sessions (registry t) x = Some s" for x s
  proof -
    have "session_ok n x s (history_of t x)" using assms that by (simp add: session_inv_def)
    moreover from Some have "(seq, m) \<in> set (h_waiting (history_of t sid))"
      by (auto simp: history_of_def dest: map_of_SomeD)
    ultimately show ?thesis
      using session_ok_dispatch [of n x s "history_of t x" "(seq, m)"] session_ok_mono
      unfolding hist by (auto simp: history_of_def)
  qed
  then show ?thesis by (simp add: session_inv_def reg)
qed

lemma session_step_inv:
  assumes "session_inv n t" "n < two64 - 2"
  shows "session_inv (Suc n) (session_step t ev)"
proof -
  have ok: "session_ok n sid s (history_of t sid)" if "sessions (registry t) sid = Some s" for sid s
    using that assms(1) by (simp add: session_inv_def)
  have room: "n + 2 < two64" using assms(2) by simp
  note put = session_inv_put [OF assms(1) _ _ history_of_eq]
  note same = session_inv_same [OF assms(1)]
  show ?thesis
  proof (cases ev)
    case (OpenEv uuid conn)
    show ?thesis
      by (rule put [OF session_ok_open [of _ uuid conn]])
         (simp_all add: OpenEv session_step_def open_session_def put_session_def history_of_def)
  next
    case (BindEv sid conn)
    show ?thesis
    proof (cases "\<exists>s. sessions (registry t) sid = Some s \<and> connection_id s = conn")
      case True
      then obtain s where s: "sessions (registry t) sid = Some s" "connection_id s = conn" by blast
      show ?thesis
        by (rule put [OF session_ok_bind [OF ok [OF s(1)] room, of
              "\<lparr>link_session_id = sid, link_server_id = server_id (registry t), link_connection_id = conn,
                link_last_client_sequence = last_client_sequence s, epoch = u64_add (link_epoch s) 1\<rparr>"]])
           (use s in \<open>simp_all add: BindEv session_step_def bind_link_def put_session_def history_of_def Let_def\<close>)
    next
      case False
      then show ?thesis
        by (intro same) (auto simp: BindEv session_step_def bind_link_def history_of_def split: option.splits)
    qed
  next
    case (AcceptEv sid conn seq m)
    show ?thesis
    proof (cases "\<exists>s. sessions (registry t) sid = Some s \<and> connection_id s = conn
        \<and> last_client_sequence s < seq \<and> seq = u64_add (last_client_sequence s) 1")
      case True
      then obtain s where s: "sessions (registry t) sid = Some s" "connection_id s = conn"
          "last_client_sequence s < seq" "seq = u64_add (last_client_sequence s) 1"
        by blast
      show ?thesis
        by (rule put [OF session_ok_accept [OF ok [OF s(1)] s(3,4), of m]])
           (use s in \<open>simp_all add: AcceptEv session_step_def accept_client_frame_def put_session_def
              history_of_def Let_def\<close>)
    next
      case False
      then show ?thesis
        by (intro same) (auto simp: AcceptEv session_step_def accept_client_frame_def history_of_def Let_def
            split: option.splits)
    qed
  next
    case (DispatchEv sid seq)
    show ?thesis unfolding DispatchEv by (rule dispatch_inv [OF assms(1)])
  next
    case (EnqueueEv sid m)
    show ?thesis
    proof (cases "sessions (registry t) sid")
      case None
      then show ?thesis
        by (intro same) (auto simp: EnqueueEv session_step_def enqueue_server_message_def history_of_def)
    next
      case (Some s)
      show ?thesis
        by (rule put [OF session_ok_enqueue [OF ok [OF Some] room, of m]])
           (use Some in \<open>simp_all add: EnqueueEv session_step_def enqueue_server_message_def put_session_def
              history_of_def Let_def\<close>)
    qed
  next
    case (AckEv sid through)
    show ?thesis
    proof (cases "checked_session sid through (registry t)")
      case (Inl e)
      then show ?thesis
        by (intro same) (auto simp: AckEv session_step_def acknowledge_def history_of_def)
    next
      case (Inr s)
      note s = checked_session_cases [OF Inr]
      show ?thesis
        by (rule put [OF session_ok_acknowledge [OF ok [OF s(1)] s(2)]])
           (use Inr in \<open>simp_all add: AckEv session_step_def acknowledge_def put_session_def history_of_def\<close>)
    qed
  qed
qed

interpretation session: step_machine session_step session_inv "two64 - 2"
  by unfold_locales (rule session_step_inv)

lemma session_run_ok:
  assumes "length evs \<le> two64 - 2" "sessions (registry (session_run_of server evs)) sid = Some s"
  shows "session_ok (length evs) sid s (history_of (session_run_of server evs) sid)"
proof -
  have "session_inv 0 (session_start server)"
    by (simp add: session_inv_def session_start_def with_delivery_signal_def)
  from session.run_inv [OF this, of evs] assms show ?thesis
    by (simp add: session_run_of_def session_inv_def)
qed

lemma session_run_snoc: "session_run_of server (evs @ [ev]) = session_step (session_run_of server evs) ev"
  by (simp add: session_run_of_def)

text \<open>No call of a session is accepted while the dispatch of an earlier one is still to come.\<close>

definition one_at_a_time :: "string \<Rightarrow> 'm session_event list \<Rightarrow> string \<Rightarrow> bool" where
  "one_at_a_time server evs sid \<longleftrightarrow>
     list_all (\<lambda>n. length (pending_frames (session_run_of server (take n evs)) sid) \<le> 1) [0..<Suc (length evs)]"

lemma one_at_a_time_snoc:
  "one_at_a_time server (evs @ [ev]) sid \<longleftrightarrow>
     one_at_a_time server evs sid \<and> length (pending_frames (session_run_of server (evs @ [ev])) sid) \<le> 1"
proof -
  have "take n (evs @ [ev]) = take n evs" if "n \<in> set [0..<Suc (length evs)]" for n using that by auto
  then show ?thesis
    unfolding one_at_a_time_def list_all_iff length_append_singleton
    by (simp add: ball_Un atLeastLessThanSuc del: upt_Suc) blast
qed

lemma step_keeps_order:
  assumes "length (pending_frames t sid) \<le> 1"
    and "dispatched t sid @ pending_frames t sid = accepted_frames t sid"
  shows "dispatched (session_step t ev) sid @ pending_frames (session_step t ev) sid
         = accepted_frames (session_step t ev) sid"
proof (cases ev)
  case (DispatchEv sid' seq)
  from assms(1) have "pending_frames t sid = [] \<or> (\<exists>q x. pending_frames t sid = [(q, x)])"
    by (cases "pending_frames t sid") auto
  with assms(2) show ?thesis
    by (auto simp: DispatchEv session_step_def split: option.split if_splits)
qed (use assms(2) in \<open>auto simp: session_step_def split: option.split prod.split sum.split bool.split\<close>)

lemma dispatched_in_order:
  "one_at_a_time server evs sid \<Longrightarrow>
     dispatched (session_run_of server evs) sid @ pending_frames (session_run_of server evs) sid
     = accepted_frames (session_run_of server evs) sid"
proof (induction evs rule: rev_induct)
  case Nil
  then show ?case by (simp add: session_run_of_def session_start_def)
next
  case (snoc ev evs)
  then have "one_at_a_time server evs sid" by (simp add: one_at_a_time_snoc)
  moreover from this have "length (pending_frames (session_run_of server evs) sid) \<le> 1"
    unfolding one_at_a_time_def list_all_iff by (metis atLeast0LessThan lessThan_iff lessI set_upt take_all order_refl)
  ultimately show ?case unfolding session_run_snoc by (intro step_keeps_order snoc.IH)
qed

section \<open>Properties\<close>

text \<open>
  C21: Client frames are accepted exactly once and in order, and each is dispatched once. After any
  sequence of calls, the frames a session has accepted carry the sequence numbers 1, 2, 3 up to the
  last one, whatever retries, gaps and reorderings the transport produced; every one of them has been
  dispatched once, or its dispatch is still to come, and nothing else was dispatched; the dispatches come
  in sequence order when no two calls for the session overlap. The next frame is accepted precisely when
  it carries the following number, is reported as a duplicate when it was accepted before, and as a gap,
  with the number expected, otherwise.
\<close>

theorem client_frames_exactly_once:
  fixes evs :: "'m session_event list"
  assumes "length evs \<le> two64 - 2" "sessions (registry (session_run_of server evs)) sid = Some s" "seq < two64"
  defines "t \<equiv> session_run_of server evs"
  shows "map fst (accepted_frames t sid) = [1..<Suc (last_client_sequence s)]
    \<and> mset (dispatched t sid) + mset (pending_frames t sid) = mset (accepted_frames t sid)
    \<and> (one_at_a_time server evs sid \<longrightarrow> dispatched t sid @ pending_frames t sid = accepted_frames t sid)
    \<and> (case accept_client_frame sid (connection_id s) seq m (registry t) of (outcome, sent, r) \<Rightarrow>
         outcome = (if seq \<le> last_client_sequence s then Duplicate
                    else if seq = last_client_sequence s + 1 then Accepted
                    else Gap (last_client_sequence s + 1))
         \<and> sent = (if outcome = Accepted then Some m else None)
         \<and> (outcome \<noteq> Accepted \<longrightarrow> r = registry t))"
proof -
  have ok: "session_ok (length evs) sid s (history_of t sid)"
    unfolding t_def by (rule session_run_ok [OF assms(1,2)])
  have "u64_add (last_client_sequence s) 1 = last_client_sequence s + 1" if "last_client_sequence s < seq"
    using that assms(3) by (simp add: u64_simps)
  with assms(2) have "case accept_client_frame sid (connection_id s) seq m (registry t) of (outcome, sent, r) \<Rightarrow>
         outcome = (if seq \<le> last_client_sequence s then Duplicate
                    else if seq = last_client_sequence s + 1 then Accepted
                    else Gap (last_client_sequence s + 1))
         \<and> sent = (if outcome = Accepted then Some m else None)
         \<and> (outcome \<noteq> Accepted \<longrightarrow> r = registry t)"
    by (auto simp: accept_client_frame_def Let_def t_def)
  moreover have "map fst (accepted_frames t sid) = [1..<Suc (last_client_sequence s)]"
    "mset (dispatched t sid) + mset (pending_frames t sid) = mset (accepted_frames t sid)"
    using ok by (simp_all add: session_ok_def history_of_def del: upt_Suc)
  moreover have "one_at_a_time server evs sid \<longrightarrow> dispatched t sid @ pending_frames t sid = accepted_frames t sid"
    unfolding t_def using dispatched_in_order by blast
  ultimately show ?thesis by blast
qed

definition demo_events :: "string session_event list" where
  "demo_events = [OpenEv ''s'' ''c'', BindEv ''s'' ''c'', AcceptEv ''s'' ''c'' 1 ''a'', AcceptEv ''s'' ''c'' 1 ''a'',
     AcceptEv ''s'' ''c'' 3 ''x'', DispatchEv ''s'' 1, AcceptEv ''s'' ''c'' 2 ''b'', EnqueueEv ''s'' ''p'',
     EnqueueEv ''s'' ''q'', EnqueueEv ''s'' ''r'', AckEv ''s'' 1, BindEv ''s'' ''c'', DispatchEv ''s'' 2]"

lemmas session_eval = session_run_of_def session_start_def with_delivery_signal_def session_step_def
  open_session_def bind_link_def accept_client_frame_def enqueue_server_message_def acknowledge_def
  checked_session_def put_session_def notify_def Let_def u64_add_def sat_add64_def u64_max_def
  MAX_SERVER_REPLAY_FRAMES_def demo_events_def

lemma demo_session:
  "sessions (registry (session_run_of ''srv'' demo_events)) ''s'' =
     Some \<lparr>connection_id = ''c'', last_client_sequence = 2, next_server_sequence = 4,
           server_frames = [\<lparr>sequence = 2, message = ''q''\<rparr>, \<lparr>sequence = 3, message = ''r''\<rparr>], link_epoch = 2\<rparr>"
  by (simp add: session_eval)

lemma demo_one_at_a_time: "one_at_a_time ''srv'' demo_events ''s''"
  by (simp add: one_at_a_time_def upt_rec session_eval)

theorem client_frames_exactly_once_witness:
  "dispatched (session_run_of ''srv'' demo_events) ''s'' = [(1, ''a''), (2, ''b'')]
   \<and> fst (accept_client_frame ''s'' ''c'' 3 ''d'' (registry (session_run_of ''srv'' demo_events))) = Accepted"
proof -
  have "length demo_events \<le> two64 - 2" by (simp add: demo_events_def)
  note once = client_frames_exactly_once [OF this demo_session, of 3 "''d''"]
  have "pending_frames (session_run_of ''srv'' demo_events) ''s'' = []"
    "accepted_frames (session_run_of ''srv'' demo_events) ''s'' = [(1, ''a''), (2, ''b'')]"
    by (simp_all add: session_eval)
  with once demo_one_at_a_time show ?thesis by (auto split: prod.splits)
qed

text \<open>
  C22: What a resuming client gets, at any cursor. After any sequence of calls, the frames after a cursor
  from which the session still retains everything (not before the highest acknowledgement and at most 1024
  messages behind) are exactly the messages enqueued after that cursor, in order and with consecutive
  sequence numbers; a cursor beyond the last message is refused; and at an earlier cursor the client is
  told that the replay expired as long as any message is retained. The one cursor the code answers as if
  nothing was missing is an earlier one when everything enqueued has been acknowledged.
\<close>

theorem resume_loses_nothing:
  fixes evs :: "'m session_event list"
  assumes "length evs \<le> two64 - 2" "sessions (registry (session_run_of server evs)) sid = Some s"
  defines "h \<equiv> enqueued (session_run_of server evs) sid"
  defines "first \<equiv> max (acked (session_run_of server evs) sid) (length h - MAX_SERVER_REPLAY_FRAMES)"
  shows "case frames_after sid after (registry (session_run_of server evs)) of
      Inr fs \<Rightarrow>
        first \<le> after \<and> after \<le> length h \<and> map message fs = drop after h \<and> map sequence fs = [Suc after..<Suc (length h)]
        \<or> after < first \<and> first = length h \<and> acked (session_run_of server evs) sid = length h \<and> fs = []
    | Inl e \<Rightarrow>
        e = InvalidAcknowledgement \<and> length h < after \<or> e = ReplayExpired \<and> after < first \<and> first < length h"
proof -
  have ok: "session_ok (length evs) sid s (history_of (session_run_of server evs) sid)"
    by (rule session_run_ok [OF assms(1,2)])
  then have fs: "server_frames s = window first h" and next_seq: "next_server_sequence s = Suc (length h)"
    and len: "length h \<le> length evs" and ack: "acked (session_run_of server evs) sid \<le> length h"
    by (simp_all add: session_ok_def history_of_def retained_from_def first_def h_def)
  have bound: "first \<le> length h" using ack by (simp add: first_def)
  have head: "(case window first h of [] \<Rightarrow> False | f # _ \<Rightarrow> sat_add64 after 1 < sequence f)
      \<longleftrightarrow> first < length h \<and> after < first" if "after \<le> length h"
    using that len assms(1) by (cases "first < length h") (simp_all add: window_unfold u64_simps)
  have answer: "frames_after sid after (registry (session_run_of server evs)) =
      (if length h < after then Inl InvalidAcknowledgement
       else if first < length h \<and> after < first then Inl ReplayExpired else Inr (window (max first after) h))"
    unfolding frames_after_def checked_session_def
    using assms(2) head next_seq fs by (auto simp: window_filter)
  have "acked (session_run_of server evs) sid = length h" if "first = length h" "after < first"
    using that ack unfolding first_def MAX_SERVER_REPLAY_FRAMES_def by linarith
  moreover consider "length h < after" | "after \<le> length h" "first \<le> after" | "after < first" "first < length h"
    | "after < first" "first = length h"
    using bound by linarith
  ultimately show ?thesis
    unfolding answer by cases (auto simp: window_messages window_sequences max_def simp del: upt_Suc)
qed

text \<open>The demonstration at cursor 1, and the silent answer at cursor 0 once the only message is acknowledged.\<close>

theorem resume_loses_nothing_witness:
  "(\<exists>fs. frames_after ''s'' 1 (registry (session_run_of ''srv'' demo_events)) = Inr fs
      \<and> map message fs = [''q'', ''r''] \<and> map sequence fs = [2, 3])
   \<and> frames_after ''s'' 0 (registry (session_run_of ''srv'' demo_events)) = Inl ReplayExpired
   \<and> frames_after ''s'' 4 (registry (session_run_of ''srv'' demo_events)) = Inl InvalidAcknowledgement
   \<and> frames_after ''s'' 0 (registry (session_run_of ''srv'' [OpenEv ''s'' ''c'', EnqueueEv ''s'' ''p'', AckEv ''s'' 1])) = Inr []"
proof -
  have len: "length demo_events \<le> two64 - 2" by (simp add: demo_events_def)
  have ack: "acked (session_run_of ''srv'' demo_events) ''s'' = 1" by (simp add: session_eval)
  have h: "enqueued (session_run_of ''srv'' demo_events) ''s'' = [''p'', ''q'', ''r'']" by (simp add: session_eval)
  note resume = resume_loses_nothing [OF len demo_session, unfolded ack h]
  have "\<exists>fs. frames_after ''s'' 1 (registry (session_run_of ''srv'' demo_events)) = Inr fs
      \<and> map message fs = [''q'', ''r''] \<and> map sequence fs = [2, 3]"
    using resume [of 1]
    by (auto simp: MAX_SERVER_REPLAY_FRAMES_def upt_rec numeral_2_eq_2 numeral_3_eq_3 split: sum.splits)
  moreover have "frames_after ''s'' 0 (registry (session_run_of ''srv'' demo_events)) = Inl ReplayExpired"
    using resume [of 0] by (auto simp: MAX_SERVER_REPLAY_FRAMES_def split: sum.splits)
  moreover have "frames_after ''s'' 4 (registry (session_run_of ''srv'' demo_events)) = Inl InvalidAcknowledgement"
    using resume [of 4] by (auto simp: MAX_SERVER_REPLAY_FRAMES_def split: sum.splits)
  moreover have "frames_after ''s'' 0 (registry (session_run_of ''srv'' [OpenEv ''s'' ''c'', EnqueueEv ''s'' ''p'', AckEv ''s'' 1])) = Inr []"
    by (simp add: session_eval frames_after_def)
  ultimately show ?thesis by blast
qed

text \<open>
  C34: A session has one owner. After any sequence of calls, of all the links ever attached to a
  session exactly the newest one is current: every older link observes that it lost the session.
\<close>

theorem newest_link_owns_session:
  fixes evs :: "'m session_event list"
  assumes "length evs \<le> two64 - 2" "sessions (registry (session_run_of server evs)) sid = Some s"
    and "l \<in> set (links (session_run_of server evs) sid)"
  shows "link_is_current l (registry (session_run_of server evs))
    \<longleftrightarrow> l = last (links (session_run_of server evs) sid)"
proof -
  let ?ls = "links (session_run_of server evs) sid"
  have ls: "link_epoch s = length ?ls" "map epoch ?ls = [1..<Suc (length ?ls)]" "link_session_id l = sid"
    using session_run_ok [OF assms(1,2)] assms(3) by (auto simp: session_ok_def history_of_def list_all_iff)
  obtain i where i: "i < length ?ls" "?ls ! i = l"
    using assms(3) by (auto simp: in_set_conv_nth)
  have epochs: "epoch (?ls ! j) = Suc j" if "j < length ?ls" for j
    using that ls(2) by (metis One_nat_def length_map nth_map nth_upt plus_1_eq_Suc Suc_less_eq)
  have "link_is_current l (registry (session_run_of server evs)) \<longleftrightarrow> length ?ls = Suc i"
    using assms(2) ls i epochs [OF i(1)] by (auto simp: link_is_current_def)
  also have "\<dots> \<longleftrightarrow> l = last ?ls"
  proof
    assume "length ?ls = Suc i"
    then show "l = last ?ls" using i by (metis diff_Suc_1 last_conv_nth list.size(3) nat.distinct(1))
  next
    assume "l = last ?ls"
    then have "epoch l = length ?ls"
      using epochs [of "length ?ls - 1"] i by (simp add: last_conv_nth [of ?ls] flip: length_greater_0_conv)
    then show "length ?ls = Suc i" using epochs [OF i(1)] i by simp
  qed
  finally show ?thesis .
qed

theorem newest_link_owns_session_witness:
  "length (links (session_run_of ''srv'' demo_events) ''s'') = 2
   \<and> (link_is_current (hd (links (session_run_of ''srv'' demo_events) ''s'')) (registry (session_run_of ''srv'' demo_events))
     \<longleftrightarrow> hd (links (session_run_of ''srv'' demo_events) ''s'') = last (links (session_run_of ''srv'' demo_events) ''s''))"
proof -
  have len: "length demo_events \<le> two64 - 2" by (simp add: demo_events_def)
  have two: "length (links (session_run_of ''srv'' demo_events) ''s'') = 2" by (simp add: session_eval)
  then have "hd (links (session_run_of ''srv'' demo_events) ''s'') \<in> set (links (session_run_of ''srv'' demo_events) ''s'')"
    by (intro hd_in_set) auto
  from newest_link_owns_session [OF len demo_session this] two show ?thesis by blast
qed

section \<open>Wake-ups\<close>

text \<open>A link parked on the signal is woken by every message queued and every link attached.\<close>

lemma notify_wakes: "seen < two64 \<Longrightarrow> wait_changed (notify seen) seen \<noteq> None"
  by (auto simp: wait_changed_def notify_def u64_add_def mod_if split: if_splits)

lemma enqueue_wakes:
  "deliveries r < two64 \<Longrightarrow> enqueue_server_message sid m r = (True, r') \<Longrightarrow> wait_changed (deliveries r') (deliveries r) \<noteq> None"
  using notify_wakes by (auto simp: enqueue_server_message_def Let_def split: option.splits)

lemma bind_wakes:
  "deliveries r < two64 \<Longrightarrow> bind_link sid conn r = (Inr l, r') \<Longrightarrow> wait_changed (deliveries r') (deliveries r) \<noteq> None"
  using notify_wakes by (auto simp: bind_link_def Let_def split: option.splits if_splits)

text \<open>A poll is an acknowledgement followed by a read at the same cursor.\<close>

lemma poll_keeps_later_frames:
  assumes "poll sid after r = (Inr fs, r')"
  shows "frames_after sid after r' = Inr fs"
  using assms by (auto simp: poll_def split: prod.splits sum.splits)

end
