(* ===== verification/Client_Lifecycle.thy ===== *)
theory Client_Lifecycle
  imports Prelude "HOL-Library.List_Lexorder" "HOL-Library.Char_ord"
begin

text \<open>
  Clients of the App Server and the server's own lifecycle
  (\<open>src/openaide-rs/app-server/src/client_lifecycle.rs\<close> and \<open>app_lifecycle.rs\<close>). Times are
  milliseconds in a \<open>u64\<close>; sums wrap. The table of clients is iterated by the source and is an
  association list; the table of connections is a map.
\<close>

section \<open>Protocol values\<close>

datatype shell_kind = Web | Desktop | Mobile | VscodeExtension | TerminalShell | Keeper

datatype shell_capability =
    OpenExternal | RevealFile | ResolveFileReveal | PickLocalFile | OpenTerminal | ReadSecret
  | WriteSecret | ShowNotification

datatype protocol_capability =
    Resync | RequestResponses | StableClientRequestIds | PermissionResponses | QuestionResponses

datatype client_role = Interactive | ShellHold

datatype settings_section = AgentsSection | McpServersSection | SkillsSection | CommonSettingsSection

datatype requested_surface =
    HomeSurface
  | ProjectSurface string
  | NewTaskSurface "string option"
  | TaskSurface string
  | SettingsSurface "settings_section option"

record shell_descriptor =
  shell_kind :: shell_kind
  shell_name :: "string option"
  shell_version :: "string option"

record client_capabilities =
  protocol_caps :: "protocol_capability list"
  shell_caps :: "shell_capability list"

type_synonym protocol_version = "nat \<times> nat"

record initialize_params =
  init_client_instance_id :: string
  init_shell :: shell_descriptor
  init_requested_surface :: requested_surface
  init_capabilities :: client_capabilities
  init_protocol_version :: "protocol_version option"
  init_role :: client_role

record attached_client_summary =
  summary_kind :: shell_kind
  summary_name :: "string option"
  summary_app_version :: "string option"
  summary_protocol_version :: "protocol_version option"
  summary_reconnecting :: bool

section \<open>The client hub\<close>

record client_context =
  client_instance_id :: string
  connection_id :: string
  shell :: shell_descriptor
  surface :: requested_surface
  capabilities :: client_capabilities
  role :: client_role

datatype initialize_client_outcome = NewClient client_context | ReattachedClient client_context

datatype transport_closed_outcome = EnteredReconnectGrace string nat | UnknownConnection

datatype client_expiry_outcome =
    Expired string bool
  | StillInGrace nat
  | ClientConnected
  | ExpiryUnknownClient

record client_expiry_batch =
  entered_reconnect_grace :: "(string \<times> nat) list"
  expired :: "string list"
  last_client_expired :: bool

datatype capability_change_outcome = CapabilitiesUpdated client_context | CapabilityUnknownClient

datatype detach_outcome = Detached string bool | DetachUnknownClient

datatype request_capability = PermissionCapability | QuestionCapability

record delivery =
  delivery_client :: string
  delivery_connection :: string
  delivery_capabilities :: "request_capability list"

record client_record =
  context_of :: client_context
  client_protocol_version :: "protocol_version option"
  reconnect_expires_at :: "nat option"
  liveness_expires_at :: nat

record client_liveness_policy =
  reconnect_grace_ms :: nat
  heartbeat_timeout_ms :: nat

record client_hub =
  liveness_policy :: client_liveness_policy
  clients :: "(string \<times> client_record) list"
  connections :: "string \<Rightarrow> string option"
  has_ever_initialized :: bool

definition PERMISSION_REQUEST :: string where
  "PERMISSION_REQUEST = ''permission/request''"

definition QUESTION_REQUEST :: string where
  "QUESTION_REQUEST = ''question/request''"

definition supports_method :: "string \<Rightarrow> delivery \<Rightarrow> bool" where
  "supports_method m d =
     (if m = PERMISSION_REQUEST then PermissionCapability \<in> set (delivery_capabilities d)
      else if m = QUESTION_REQUEST then QuestionCapability \<in> set (delivery_capabilities d)
      else True)"

definition request_capabilities :: "client_capabilities \<Rightarrow> request_capability list" where
  "request_capabilities c =
     (if PermissionResponses \<in> set (protocol_caps c) then [PermissionCapability] else [])
     @ (if QuestionResponses \<in> set (protocol_caps c) then [QuestionCapability] else [])"

definition new_hub :: "client_liveness_policy \<Rightarrow> client_hub" where
  "new_hub policy =
     \<lparr>liveness_policy = policy, clients = [], connections = Map.empty, has_ever_initialized = False\<rparr>"

text \<open>\<open>connections.retain\<close> of the entries of every other client.\<close>

definition without_client :: "string \<Rightarrow> (string \<Rightarrow> string option) \<Rightarrow> string \<Rightarrow> string option" where
  "without_client client m c = (case m c of None \<Rightarrow> None | Some v \<Rightarrow> if v \<noteq> client then Some v else None)"

definition initialize ::
  "string \<Rightarrow> initialize_params \<Rightarrow> nat \<Rightarrow> client_hub \<Rightarrow> initialize_client_outcome \<times> client_hub" where
  "initialize conn params now h =
     (let client = init_client_instance_id params;
          ctx = \<lparr>client_instance_id = client, connection_id = conn, shell = init_shell params,
                 surface = init_requested_surface params, capabilities = init_capabilities params,
                 role = init_role params\<rparr>;
          was_present = (map_of (clients h) client \<noteq> None);
          h' = h\<lparr>has_ever_initialized := True,
                 connections := (without_client client (connections h))(conn := Some client),
                 clients := AList.update client
                   \<lparr>context_of = ctx, client_protocol_version = init_protocol_version params,
                    reconnect_expires_at = None,
                    liveness_expires_at = u64_add now (heartbeat_timeout_ms (liveness_policy h))\<rparr>
                   (clients h)\<rparr>
      in (if was_present then ReattachedClient ctx else NewClient ctx, h'))"

definition update_capabilities ::
  "string \<Rightarrow> client_capabilities \<Rightarrow> client_hub \<Rightarrow> capability_change_outcome \<times> client_hub" where
  "update_capabilities client caps h =
     (case map_of (clients h) client of
        None \<Rightarrow> (CapabilityUnknownClient, h)
      | Some r \<Rightarrow>
          let ctx = (context_of r)\<lparr>capabilities := caps\<rparr> in
          (CapabilitiesUpdated ctx, h\<lparr>clients := AList.update client (r\<lparr>context_of := ctx\<rparr>) (clients h)\<rparr>))"

definition observe_transport_closed ::
  "string \<Rightarrow> nat \<Rightarrow> client_hub \<Rightarrow> transport_closed_outcome \<times> client_hub" where
  "observe_transport_closed conn now h =
     (case connections h conn of
        None \<Rightarrow> (UnknownConnection, h)
      | Some client \<Rightarrow>
          let h1 = h\<lparr>connections := (connections h)(conn := None)\<rparr>;
              expires_at = u64_add now (reconnect_grace_ms (liveness_policy h)) in
          (EnteredReconnectGrace client expires_at,
           (case map_of (clients h1) client of
              None \<Rightarrow> h1
            | Some r \<Rightarrow>
                h1\<lparr>clients := AList.update client (r\<lparr>reconnect_expires_at := Some expires_at\<rparr>) (clients h1)\<rparr>)))"

definition observe_connection_activity :: "string \<Rightarrow> nat \<Rightarrow> client_hub \<Rightarrow> string option \<times> client_hub" where
  "observe_connection_activity conn now h =
     (case connections h conn of
        None \<Rightarrow> (None, h)
      | Some client \<Rightarrow>
          (case map_of (clients h) client of
             None \<Rightarrow> (None, h)
           | Some r \<Rightarrow>
               (Some client,
                h\<lparr>clients := AList.update client
                    (r\<lparr>liveness_expires_at := u64_add now (heartbeat_timeout_ms (liveness_policy h))\<rparr>) (clients h)\<rparr>)))"

definition remove_client :: "string \<Rightarrow> client_hub \<Rightarrow> client_hub" where
  "remove_client client h =
     h\<lparr>clients := AList.delete client (clients h), connections := without_client client (connections h)\<rparr>"

definition expire_after_grace :: "string \<Rightarrow> nat \<Rightarrow> client_hub \<Rightarrow> client_expiry_outcome \<times> client_hub" where
  "expire_after_grace client now h =
     (case map_of (clients h) client of
        None \<Rightarrow> (ExpiryUnknownClient, h)
      | Some r \<Rightarrow>
          (case reconnect_expires_at r of
             None \<Rightarrow> (ClientConnected, h)
           | Some expires_at \<Rightarrow>
               if now < expires_at then (StillInGrace expires_at, h)
               else let h' = remove_client client h in (Expired client (clients h' = []), h')))"

text \<open>One iteration of each of the two loops of \<open>expire_inactive_clients\<close>.\<close>

definition enter_grace :: "nat \<Rightarrow> client_hub \<Rightarrow> string \<Rightarrow> client_hub" where
  "enter_grace expires_at h client =
     (let h1 = (case map_of (clients h) client of
                  None \<Rightarrow> h
                | Some r \<Rightarrow>
                    h\<lparr>clients := AList.update client (r\<lparr>reconnect_expires_at := Some expires_at\<rparr>) (clients h)\<rparr>)
      in h1\<lparr>connections := without_client client (connections h1)\<rparr>)"

definition expire_inactive_clients :: "nat \<Rightarrow> client_hub \<Rightarrow> client_expiry_batch \<times> client_hub" where
  "expire_inactive_clients now h =
     (let entered = map fst (filter (\<lambda>(_, r). reconnect_expires_at r = None \<and> now \<ge> liveness_expires_at r) (clients h));
          grace = u64_add now (reconnect_grace_ms (liveness_policy h));
          h1 = foldl (enter_grace grace) h entered;
          gone = map fst (filter (\<lambda>(_, r). case reconnect_expires_at r of None \<Rightarrow> False | Some e \<Rightarrow> now \<ge> e) (clients h1));
          h2 = foldl (\<lambda>hub client. remove_client client hub) h1 gone
      in (\<lparr>entered_reconnect_grace = map (\<lambda>client. (client, grace)) entered, expired = gone,
           last_client_expired = (gone \<noteq> [] \<and> clients h2 = [])\<rparr>, h2))"

definition detach :: "string \<Rightarrow> client_hub \<Rightarrow> detach_outcome \<times> client_hub" where
  "detach client h =
     (case map_of (clients h) client of
        None \<Rightarrow> (DetachUnknownClient, h)
      | Some _ \<Rightarrow> let h' = remove_client client h in (Detached client (clients h' = []), h'))"

definition context_for_connection :: "string \<Rightarrow> client_hub \<Rightarrow> client_context option" where
  "context_for_connection conn h =
     (case connections h conn of
        None \<Rightarrow> None
      | Some client \<Rightarrow> map_option context_of (map_of (clients h) client))"

definition has_initialized_clients :: "client_hub \<Rightarrow> bool" where
  "has_initialized_clients h \<longleftrightarrow> clients h \<noteq> []"

definition other_owners :: "string \<Rightarrow> client_hub \<Rightarrow> client_context list" where
  "other_owners client h =
     map (context_of \<circ> snd) (filter (\<lambda>(candidate, r). candidate \<noteq> client \<and> role (context_of r) \<noteq> ShellHold) (clients h))"

definition has_other_initialized_client :: "string \<Rightarrow> client_hub \<Rightarrow> bool" where
  "has_other_initialized_client client h \<longleftrightarrow> other_owners client h \<noteq> []"

definition other_client_summaries :: "string \<Rightarrow> client_hub \<Rightarrow> attached_client_summary list" where
  "other_client_summaries client h =
     map (\<lambda>(_, r).
            \<lparr>summary_kind = shell_kind (shell (context_of r)), summary_name = shell_name (shell (context_of r)),
             summary_app_version = shell_version (shell (context_of r)),
             summary_protocol_version = client_protocol_version r,
             summary_reconnecting = (reconnect_expires_at r \<noteq> None)\<rparr>)
       (sort_key fst (filter (\<lambda>(candidate, _). candidate \<noteq> client) (clients h)))"

definition client_by_instance :: "string \<Rightarrow> client_hub \<Rightarrow> client_context option" where
  "client_by_instance client h = map_option context_of (map_of (clients h) client)"

definition delivery_for :: "client_hub \<Rightarrow> string \<Rightarrow> delivery option" where
  "delivery_for h client =
     map_option (\<lambda>r. \<lparr>delivery_client = client, delivery_connection = connection_id (context_of r),
                       delivery_capabilities = request_capabilities (capabilities (context_of r))\<rparr>)
       (map_of (clients h) client)"

definition deliveries_supporting :: "string \<Rightarrow> client_hub \<Rightarrow> delivery list" where
  "deliveries_supporting m h =
     filter (supports_method m) (List.map_filter (delivery_for h) (map fst (clients h)))"

definition deliveries_with_shell_capability :: "shell_capability \<Rightarrow> client_hub \<Rightarrow> delivery list" where
  "deliveries_with_shell_capability cap h =
     List.map_filter (\<lambda>r. delivery_for h (client_instance_id (context_of r)))
       (filter (\<lambda>r. reconnect_expires_at r = None \<and> connections h (connection_id (context_of r)) \<noteq> None)
         (filter (\<lambda>r. cap \<in> set (shell_caps (capabilities (context_of r)))) (map snd (clients h))))"

section \<open>The lifecycle of the server\<close>

datatype lifecycle_state = Running | Draining | Stopping

datatype initialize_admission = AdmissionAccepted | AcceptedAndAbortedDraining | AdmissionRejected

datatype shutdown_cause = LastClientExpired | LastClientDetached | ReplacementRequested | RequestersGone

fun reason_code :: "shutdown_cause \<Rightarrow> string" where
  "reason_code LastClientExpired = ''last_client_expired''"
| "reason_code LastClientDetached = ''last_client_detached''"
| "reason_code ReplacementRequested = ''replacement_requested''"
| "reason_code RequestersGone = ''requesters_gone''"

record shutdown_plan =
  stop_accepting_new_work :: bool
  interrupt_pending_requests :: bool
  detach_agent_transports :: bool
  remove_endpoint_records :: bool

datatype shutdown_request_outcome = AlreadyStopping | ShutdownPlanned shutdown_plan

datatype shutdown_completion = CleanRelease | UncleanLeaseExpiryRequired

fun admit_initialize :: "lifecycle_state \<Rightarrow> initialize_admission \<times> lifecycle_state" where
  "admit_initialize Running = (AdmissionAccepted, Running)"
| "admit_initialize Draining = (AcceptedAndAbortedDraining, Running)"
| "admit_initialize Stopping = (AdmissionRejected, Stopping)"

definition begin_draining :: "lifecycle_state \<Rightarrow> lifecycle_state" where
  "begin_draining s = (if s = Running then Draining else s)"

definition begin_stopping :: "lifecycle_state \<Rightarrow> lifecycle_state" where
  "begin_stopping s = Stopping"

definition request_shutdown :: "lifecycle_state \<Rightarrow> shutdown_request_outcome \<times> lifecycle_state" where
  "request_shutdown s =
     (if s = Stopping then (AlreadyStopping, s)
      else (ShutdownPlanned \<lparr>stop_accepting_new_work = True, interrupt_pending_requests = True,
              detach_agent_transports = True, remove_endpoint_records = True\<rparr>, Stopping))"

definition complete_shutdown :: "bool \<Rightarrow> shutdown_completion" where
  "complete_shutdown coherent_persistence =
     (if coherent_persistence then CleanRelease else UncleanLeaseExpiryRequired)"

end
