(* ===== verification/Task_Change_Log.thy ===== *)
theory Task_Change_Log
  imports Prelude
begin

text \<open>
  The process-local log of published Task changes
  (\<open>src/openaide-rs/app-server/src/state_sync/task_change_log.rs\<close>). Revisions, the recording
  sequence and byte counts keep their 64-bit width. The encoded size of a change
  (\<open>serde_json::to_vec\<close>) is the parameter \<open>encoded_len\<close>, absent when the change does not serialize.
  The two eviction loops are partial functions: \<open>None\<close> is a loop that does not end, or the panic of
  an \<open>expect\<close>.
\<close>

definition MAX_TASK_BYTES :: nat where
  "MAX_TASK_BYTES = 2097152"

definition MAX_TOTAL_BYTES :: nat where
  "MAX_TOTAL_BYTES = 16777216"

text \<open>\<open>TaskChanges\<close>: the flag the log reads and the remaining members.\<close>

record 'p task_changes =
  members :: 'p
  removed :: bool

record 'p log_entry =
  revision :: nat
  changes :: "'p task_changes"
  entry_bytes :: nat

record 'p task_entries =
  last_published :: nat
  entries :: "'p log_entry list"
  bytes :: nat
  last_recorded :: nat

record 'p task_change_log =
  tasks :: "(string \<times> 'p task_entries) list"
  total_bytes :: nat
  max_task_bytes :: nat
  max_total_bytes :: nat
  recorded :: nat

record 'p task_revision_changes =
  change_revision :: nat
  change_content :: "'p task_changes"

datatype 'p changes_since =
    Changes "'p task_revision_changes list" nat
  | Unknown
  | Evicted

definition default_entries :: "'p task_entries" where
  "default_entries = \<lparr>last_published = 0, entries = [], bytes = 0, last_recorded = 0\<rparr>"

definition with_bounds :: "nat \<Rightarrow> nat \<Rightarrow> 'p task_change_log" where
  "with_bounds max_task max_total =
     \<lparr>tasks = [], total_bytes = 0, max_task_bytes = max_task, max_total_bytes = max_total, recorded = 0\<rparr>"

definition default_log :: "'p task_change_log" where
  "default_log = with_bounds MAX_TASK_BYTES MAX_TOTAL_BYTES"

section \<open>One Task's entries\<close>

definition clear_entries :: "'p task_entries \<Rightarrow> nat \<times> 'p task_entries" where
  "clear_entries t = (bytes t, t\<lparr>entries := [], bytes := 0\<rparr>)"

definition pop_oldest :: "'p task_entries \<Rightarrow> nat \<times> 'p task_entries" where
  "pop_oldest t =
     (case entries t of
        [] \<Rightarrow> (0, t\<lparr>bytes := u64_sub (bytes t) 0\<rparr>)
      | e # es \<Rightarrow> (entry_bytes e, t\<lparr>entries := es, bytes := u64_sub (bytes t) (entry_bytes e)\<rparr>))"

text \<open>The loop \<open>while task.bytes > max_task_bytes\<close> with the bytes released so far.\<close>

partial_function (option) trim_task :: "nat \<Rightarrow> nat \<Rightarrow> 'p task_entries \<Rightarrow> (nat \<times> 'p task_entries) option" where
  "trim_task max_bytes released t =
     (if bytes t > max_bytes
      then (let p = pop_oldest t in trim_task max_bytes (u64_add released (fst p)) (snd p))
      else Some (released, t))"

section \<open>Eviction\<close>

text \<open>\<open>Iterator::min_by_key\<close>: the first element with the least key.\<close>

fun min_by_key :: "('a \<Rightarrow> nat) \<Rightarrow> 'a list \<Rightarrow> 'a option" where
  "min_by_key key [] = None"
| "min_by_key key (x # xs) =
     (case min_by_key key xs of
        None \<Rightarrow> Some x
      | Some y \<Rightarrow> if key x \<le> key y then Some x else Some y)"

definition oldest_task :: "string \<Rightarrow> 'p task_change_log \<Rightarrow> string option" where
  "oldest_task keep l =
     map_option fst (min_by_key (\<lambda>(_, t). last_recorded t)
       (filter (\<lambda>(task_id, t). task_id \<noteq> keep \<and> entries t \<noteq> []) (tasks l)))"

definition evict_one :: "string \<Rightarrow> 'p task_change_log \<Rightarrow> 'p task_change_log option" where
  "evict_one keep l =
     (case oldest_task keep l of
        Some task_id \<Rightarrow>
          (case map_of (tasks l) task_id of
             None \<Rightarrow> None
           | Some t \<Rightarrow>
               let p = clear_entries t in
               Some (l\<lparr>tasks := AList.update task_id (snd p) (tasks l),
                       total_bytes := u64_sub (total_bytes l) (fst p)\<rparr>))
      | None \<Rightarrow>
          (case map_of (tasks l) keep of
             None \<Rightarrow> None
           | Some t \<Rightarrow>
               let p = pop_oldest t in
               Some (l\<lparr>tasks := AList.update keep (snd p) (tasks l),
                       total_bytes := u64_sub (total_bytes l) (fst p)\<rparr>)))"

partial_function (option) evict_to_total_bound :: "string \<Rightarrow> 'p task_change_log \<Rightarrow> 'p task_change_log option" where
  "evict_to_total_bound keep l =
     (if total_bytes l > max_total_bytes l
      then Option.bind (evict_one keep l) (evict_to_total_bound keep)
      else Some l)"

section \<open>Operations\<close>

definition forget :: "string \<Rightarrow> 'p task_change_log \<Rightarrow> 'p task_change_log" where
  "forget task_id l =
     (case map_of (tasks l) task_id of
        None \<Rightarrow> l
      | Some t \<Rightarrow> l\<lparr>tasks := AList.delete task_id (tasks l), total_bytes := u64_sub (total_bytes l) (bytes t)\<rparr>)"

text \<open>What \<open>record\<close> does to the Task's own entries: the bytes added, released, and the entries.\<close>

definition record_entry ::
  "nat \<Rightarrow> nat \<Rightarrow> nat \<Rightarrow> 'p task_changes \<Rightarrow> nat \<Rightarrow> 'p task_entries \<Rightarrow> (nat \<times> nat \<times> 'p task_entries) option" where
  "record_entry max_bytes seq rv c sz t0 =
     (let gap = entries t0 \<noteq> [] \<and> rv \<noteq> u64_add (last_published t0) 1;
          released1 = (if gap then fst (clear_entries t0) else 0);
          t1 = (if gap then snd (clear_entries t0) else t0);
          t2 = t1\<lparr>last_published := max (last_published t1) rv, last_recorded := seq\<rparr>
      in if sz > max_bytes
         then Some (0, u64_add released1 (fst (clear_entries t2)), snd (clear_entries t2))
         else
           let t3 = t2\<lparr>entries := entries t2 @ [\<lparr>revision = rv, changes = c, entry_bytes = sz\<rparr>],
                       bytes := u64_add (bytes t2) sz\<rparr> in
           map_option (\<lambda>(released, t). (sz, released, t)) (trim_task max_bytes released1 t3))"

definition record_change ::
  "('p task_changes \<Rightarrow> nat option) \<Rightarrow> string \<Rightarrow> nat \<Rightarrow> 'p task_changes \<Rightarrow> 'p task_change_log
     \<Rightarrow> 'p task_change_log option" where
  "record_change encoded_len task_id rv c l =
     (if removed c then Some (forget task_id l)
      else
        let sz = (case encoded_len c of None \<Rightarrow> u64_max | Some n \<Rightarrow> n);
            seq = u64_add (recorded l) 1;
            t0 = (case map_of (tasks l) task_id of None \<Rightarrow> default_entries | Some t \<Rightarrow> t)
        in Option.bind (record_entry (max_task_bytes l) seq rv c sz t0) (\<lambda>(added, released, t).
             evict_to_total_bound task_id
               (l\<lparr>recorded := seq, tasks := AList.update task_id t (tasks l),
                  total_bytes := u64_sub (u64_add (total_bytes l) added) released\<rparr>)))"

definition to_revision_changes :: "'p log_entry \<Rightarrow> 'p task_revision_changes" where
  "to_revision_changes e = \<lparr>change_revision = revision e, change_content = changes e\<rparr>"

definition changes_since :: "string \<Rightarrow> nat \<Rightarrow> 'p task_change_log \<Rightarrow> 'p changes_since" where
  "changes_since task_id known l =
     (case map_of (tasks l) task_id of
        None \<Rightarrow> Unknown
      | Some t \<Rightarrow>
          if known \<ge> last_published t then Changes [] 0
          else (case entries t of
              [] \<Rightarrow> Evicted
            | first # _ \<Rightarrow>
                if revision first \<le> u64_add known 1
                then let missed = filter (\<lambda>e. revision e > known) (entries t) in
                  Changes (map to_revision_changes missed) (sum_list (map entry_bytes missed))
                else Evicted))"

end
