(* ===== verification/State_Sync.thy ===== *)
theory State_Sync
  imports Client_Lifecycle Task_Change_Log
begin

text \<open>
  The state stream (\<open>src/openaide-rs/app-server/src/state_sync.rs\<close> with
  \<open>storage_runtime/cursor.rs\<close>): subscriptions, the presence of Task viewers, cursors per
  subscription scope, the matching of events to subscriptions, and the resume of a returning
  client. The snapshot provider, a trait implemented elsewhere, is the record
  \<open>snapshot_provider\<close>; the closure that finds a client's delivery is an argument of
  \<open>publish_committed\<close>. Members of event payloads that the stream never reads are opaque.
\<close>

section \<open>Protocol values\<close>

datatype navigation_section = TasksSection | ArchiveSection

datatype task_lifecycle = PreparedTask | OpenTask | ArchivedTask

datatype subscription_scope =
    Projects
  | Agents
  | Settings "settings_section option"
  | TaskNavigation navigation_section "string list option"
  | Task string
  | SubagentCatalog string
  | SubagentHistory string string
  | ToolDetail string string
  | WorktreeRepository string
  | Devices
  | Terminals

datatype event_scope =
    StateRootScope string
  | ClientScope string string
  | TaskScope string string

text \<open>\<open>'p\<close>: members of Task changes; \<open>'x\<close>: payload members the stream does not read.\<close>

datatype ('p, 'x) event_payload =
    SnapshotReplaced 'x
  | TaskChanged string nat "'p task_changes"
  | TaskHistorySyncUpdated string 'x
  | TaskUpdated string task_lifecycle 'x
  | ProjectEntriesReplaced navigation_section string 'x
  | RefreshStateChanged 'x
  | NavigationReplaced navigation_section 'x
  | ProjectCollectionUpdated 'x
  | TaskRequestsUpdated string 'x
  | SubagentCatalogUpdated string 'x
  | SubagentHistoryChanged string string nat 'x
  | ToolDetailUpdated string string 'x
  | ToolDetailChanged string string nat 'x
  | RequestUpdated 'x
  | AgentCollectionUpdated 'x
  | WorktreeRepositoryUpdated string 'x
  | DeviceCollectionUpdated 'x
  | TerminalCollectionUpdated 'x

record ('p, 'x) app_server_event =
  subscription :: subscription_scope
  previous_cursor :: string
  cursor :: string
  scope :: event_scope
  payload :: "('p, 'x) event_payload"

record ('p, 'x) state_event_delivery =
  event_delivery :: delivery
  event :: "('p, 'x) app_server_event"

section \<open>Cursors\<close>

text \<open>A \<open>CursorSequencer\<close> is its sequence number.\<close>

definition cursor_text :: "nat \<Rightarrow> string" where
  "cursor_text n = ''cursor-'' @ dec_string n"

definition read_token :: "nat \<Rightarrow> string" where
  "read_token sequence = cursor_text sequence"

definition advance :: "nat \<Rightarrow> (string \<times> string) \<times> nat" where
  "advance sequence =
     (let sequence' = u64_add sequence 1 in ((cursor_text sequence, cursor_text sequence'), sequence'))"

section \<open>Presence of Task viewers\<close>

type_synonym presence = "string \<Rightarrow> string set option"

definition observe_subscribed :: "string \<Rightarrow> string \<Rightarrow> presence \<Rightarrow> presence" where
  "observe_subscribed client task_id p =
     p(task_id := Some (insert client (case p task_id of None \<Rightarrow> {} | Some s \<Rightarrow> s)))"

definition observe_unsubscribed :: "string \<Rightarrow> string \<Rightarrow> presence \<Rightarrow> presence" where
  "observe_unsubscribed client task_id p =
     (case p task_id of
        None \<Rightarrow> p
      | Some s \<Rightarrow> let s' = s - {client} in p(task_id := (if s' = {} then None else Some s')))"

definition observe_client_expired :: "string \<Rightarrow> presence \<Rightarrow> presence" where
  "observe_client_expired client p task_id =
     (case p task_id of
        None \<Rightarrow> None
      | Some s \<Rightarrow> let s' = s - {client} in if s' = {} then None else Some s')"

definition has_subscribers :: "string \<Rightarrow> presence \<Rightarrow> bool" where
  "has_subscribers task_id p = (case p task_id of None \<Rightarrow> False | Some s \<Rightarrow> s \<noteq> {})"

section \<open>The stream\<close>

record subscription_record =
  subscriber :: string
  subscribed :: subscription_scope

record 'p state_stream =
  state_root_id :: string
  cursors :: nat
  scope_cursors :: "subscription_scope \<Rightarrow> nat option"
  subscriptions :: "subscription_record list"
  task_presence :: presence
  task_changes :: "'p task_change_log"

definition new_stream :: "string \<Rightarrow> 'p state_stream" where
  "new_stream root =
     \<lparr>state_root_id = root, cursors = 0, scope_cursors = Map.empty, subscriptions = [],
      task_presence = Map.empty, task_changes = default_log\<rparr>"

text \<open>\<open>scope_cursors.entry(scope).or_default()\<close>.\<close>

definition scope_cursor :: "subscription_scope \<Rightarrow> 'p state_stream \<Rightarrow> nat" where
  "scope_cursor sc s = (case scope_cursors s sc of None \<Rightarrow> 0 | Some n \<Rightarrow> n)"

definition read_token_for_scope :: "subscription_scope \<Rightarrow> 'p state_stream \<Rightarrow> string \<times> 'p state_stream" where
  "read_token_for_scope sc s =
     (read_token (scope_cursor sc s), s\<lparr>scope_cursors := (scope_cursors s)(sc := Some (scope_cursor sc s))\<rparr>)"

definition upsert_subscription :: "string \<Rightarrow> subscription_scope \<Rightarrow> 'p state_stream \<Rightarrow> bool \<times> 'p state_stream" where
  "upsert_subscription client sc s =
     (if list_ex (\<lambda>sub. subscriber sub = client \<and> subscribed sub = sc) (subscriptions s) then (False, s)
      else (True, s\<lparr>subscriptions := subscriptions s @ [\<lparr>subscriber = client, subscribed = sc\<rparr>]\<rparr>))"

section \<open>Resuming a Task\<close>

record 'b task_resume_basis =
  basis_revision :: nat
  basis_rest :: 'b

record ('p, 'b) task_resume_snapshot =
  resume_task_id :: string
  resume_known_revision :: nat
  resume_changes :: "'p task_revision_changes list"
  resume_rest :: 'b

datatype ('p, 'b, 'snap) subscription_snapshot = Baseline 'snap | TaskResume "('p, 'b) task_resume_snapshot"

text \<open>The trait \<open>SnapshotProvider\<close>, with errors of type \<open>'e\<close>.\<close>

record ('b, 'snap, 'e) snapshot_provider =
  snapshot :: "client_context \<Rightarrow> subscription_scope \<Rightarrow> string \<Rightarrow> 'e + 'snap"
  task_resume_basis :: "client_context \<Rightarrow> string \<Rightarrow> 'e + 'b task_resume_basis option"

text \<open>
  The changes a client at \<open>known\<close> misses, given a log's \<open>since\<close> operation, or the reason for a
  baseline.
\<close>

definition resolve_missed ::
  "(string \<Rightarrow> nat \<Rightarrow> 'l \<Rightarrow> 'p changes_since) \<Rightarrow> string \<Rightarrow> nat \<Rightarrow> nat \<Rightarrow> 'l
     \<Rightarrow> string + 'p task_revision_changes list \<times> nat" where
  "resolve_missed since task_id known current l =
     (if known > current then Inl ''knownRevisionAhead''
      else if known = current then Inr ([], 0)
      else (case since task_id known l of
          Changes cs n \<Rightarrow> Inr (cs, n)
        | Unknown \<Rightarrow> Inl ''changesNotRetained''
        | Evicted \<Rightarrow> Inl ''changesEvicted''))"

definition task_snapshot ::
  "client_context \<Rightarrow> string \<Rightarrow> nat option \<Rightarrow> ('b, 'snap, 'e) snapshot_provider \<Rightarrow> string \<Rightarrow> 'p state_stream
     \<Rightarrow> 'e + ('p, 'b, 'snap) subscription_snapshot" where
  "task_snapshot ctx task_id known provider token s =
     (let baseline = and_then (snapshot provider ctx (Task task_id) token) (\<lambda>snap. Inr (Baseline snap)) in
      case known of
        None \<Rightarrow> baseline
      | Some rv \<Rightarrow>
          and_then (task_resume_basis provider ctx task_id) (\<lambda>found.
            case found of
              None \<Rightarrow> baseline
            | Some basis \<Rightarrow>
                (case resolve_missed changes_since task_id rv (basis_revision basis) (task_changes s) of
                   Inl _ \<Rightarrow> baseline
                 | Inr (cs, _) \<Rightarrow>
                     Inr (TaskResume \<lparr>resume_task_id = task_id, resume_known_revision = rv,
                                      resume_changes = cs, resume_rest = basis_rest basis\<rparr>))))"

record ('p, 'b, 'snap) subscribe_result =
  result_cursor :: string
  result_scope :: subscription_scope
  result_snapshot :: "('p, 'b, 'snap) subscription_snapshot"

text \<open>The result (with whether the client gained the scope) and the stream, changed also on errors.\<close>

definition subscribe_with_membership ::
  "client_context \<Rightarrow> subscription_scope \<Rightarrow> nat option \<Rightarrow> ('b, 'snap, 'e) snapshot_provider \<Rightarrow> 'p state_stream
     \<Rightarrow> ('e + ('p, 'b, 'snap) subscribe_result \<times> bool) \<times> 'p state_stream" where
  "subscribe_with_membership ctx sc known provider s =
     (case read_token_for_scope sc s of (token, s1) \<Rightarrow>
        (case (case sc of
                 Task task_id \<Rightarrow> task_snapshot ctx task_id known provider token s1
               | _ \<Rightarrow> and_then (snapshot provider ctx sc token) (\<lambda>snap. Inr (Baseline snap))) of
           Inl e \<Rightarrow> (Inl e, s1)
         | Inr snap \<Rightarrow>
             (case upsert_subscription (client_instance_id ctx) sc s1 of (added, s2) \<Rightarrow>
                (Inr (\<lparr>result_cursor = token, result_scope = sc, result_snapshot = snap\<rparr>, added),
                 (case sc of
                    Task task_id \<Rightarrow>
                      if added
                      then s2\<lparr>task_presence := observe_subscribed (client_instance_id ctx) task_id (task_presence s2)\<rparr>
                      else s2
                  | _ \<Rightarrow> s2)))))"

definition subscribe ::
  "client_context \<Rightarrow> subscription_scope \<Rightarrow> ('b, 'snap, 'e) snapshot_provider \<Rightarrow> 'p state_stream
     \<Rightarrow> ('e + ('p, 'b, 'snap) subscribe_result) \<times> 'p state_stream" where
  "subscribe ctx sc provider s =
     (case subscribe_with_membership ctx sc None provider s of
        (Inl e, s') \<Rightarrow> (Inl e, s')
      | (Inr (result, _), s') \<Rightarrow> (Inr result, s'))"

definition unsubscribe :: "client_context \<Rightarrow> subscription_scope \<Rightarrow> 'p state_stream \<Rightarrow> 'p state_stream" where
  "unsubscribe ctx sc s =
     (let kept = filter (\<lambda>sub. subscriber sub \<noteq> client_instance_id ctx \<or> subscribed sub \<noteq> sc) (subscriptions s);
          s1 = s\<lparr>subscriptions := kept\<rparr>
      in if length kept \<noteq> length (subscriptions s)
         then (case sc of
             Task task_id \<Rightarrow>
               s1\<lparr>task_presence := observe_unsubscribed (client_instance_id ctx) task_id (task_presence s1)\<rparr>
           | _ \<Rightarrow> s1)
         else s1)"

definition drop_client_subscriptions :: "string \<Rightarrow> 'p state_stream \<Rightarrow> 'p state_stream" where
  "drop_client_subscriptions client s =
     s\<lparr>subscriptions := filter (\<lambda>sub. subscriber sub \<noteq> client) (subscriptions s),
       task_presence := observe_client_expired client (task_presence s)\<rparr>"

definition subscribers_for_scope :: "subscription_scope \<Rightarrow> 'p state_stream \<Rightarrow> string list" where
  "subscribers_for_scope sc s = map subscriber (filter (\<lambda>sub. subscribed sub = sc) (subscriptions s))"

definition subscriptions_for_client :: "string \<Rightarrow> 'p state_stream \<Rightarrow> subscription_scope list" where
  "subscriptions_for_client client s = map subscribed (filter (\<lambda>sub. subscriber sub = client) (subscriptions s))"

definition subscription_count :: "'p state_stream \<Rightarrow> nat" where
  "subscription_count s = length (subscriptions s)"

definition subscription_count_for_kind :: "(subscription_scope \<Rightarrow> bool) \<Rightarrow> 'p state_stream \<Rightarrow> nat" where
  "subscription_count_for_kind matches s = length (filter (\<lambda>sub. matches (subscribed sub)) (subscriptions s))"

definition stream_read_token :: "'p state_stream \<Rightarrow> string" where
  "stream_read_token s = read_token (cursors s)"

section \<open>Which events reach which subscriptions\<close>

fun task_lifecycle_matches_navigation_section :: "task_lifecycle \<Rightarrow> navigation_section \<Rightarrow> bool" where
  "task_lifecycle_matches_navigation_section OpenTask TasksSection = True"
| "task_lifecycle_matches_navigation_section ArchivedTask ArchiveSection = True"
| "task_lifecycle_matches_navigation_section _ _ = False"

definition project_selected :: "string list option \<Rightarrow> string \<Rightarrow> bool" where
  "project_selected project_ids project_id =
     (case project_ids of None \<Rightarrow> True | Some ids \<Rightarrow> project_id \<in> set ids)"

fun payload_matches_subscription :: "('p, 'x) event_payload \<Rightarrow> subscription_scope \<Rightarrow> bool" where
  "payload_matches_subscription pl Projects =
     (case pl of SnapshotReplaced _ \<Rightarrow> True | ProjectCollectionUpdated _ \<Rightarrow> True | _ \<Rightarrow> False)"
| "payload_matches_subscription pl Agents =
     (case pl of SnapshotReplaced _ \<Rightarrow> True | AgentCollectionUpdated _ \<Rightarrow> True | _ \<Rightarrow> False)"
| "payload_matches_subscription pl (Settings _) =
     (case pl of SnapshotReplaced _ \<Rightarrow> True | _ \<Rightarrow> False)"
| "payload_matches_subscription pl Devices =
     (case pl of SnapshotReplaced _ \<Rightarrow> True | DeviceCollectionUpdated _ \<Rightarrow> True | _ \<Rightarrow> False)"
| "payload_matches_subscription pl Terminals =
     (case pl of TerminalCollectionUpdated _ \<Rightarrow> True | SnapshotReplaced _ \<Rightarrow> True | _ \<Rightarrow> False)"
| "payload_matches_subscription pl (TaskNavigation sec project_ids) =
     (case pl of
        SnapshotReplaced _ \<Rightarrow> True
      | NavigationReplaced changed _ \<Rightarrow> changed = sec
      | RefreshStateChanged _ \<Rightarrow> sec = TasksSection
      | ProjectEntriesReplaced changed project_id _ \<Rightarrow> changed = sec \<and> project_selected project_ids project_id
      | TaskUpdated project_id lifecycle _ \<Rightarrow>
          project_selected project_ids project_id \<and> task_lifecycle_matches_navigation_section lifecycle sec
      | _ \<Rightarrow> False)"
| "payload_matches_subscription pl (Task _) =
     (case pl of
        SnapshotReplaced _ \<Rightarrow> True
      | TaskChanged _ _ _ \<Rightarrow> True
      | TaskHistorySyncUpdated _ _ \<Rightarrow> True
      | TaskRequestsUpdated _ _ \<Rightarrow> True
      | RequestUpdated _ \<Rightarrow> True
      | _ \<Rightarrow> False)"
| "payload_matches_subscription pl (SubagentCatalog task_id) =
     (case pl of SubagentCatalogUpdated catalog_task _ \<Rightarrow> catalog_task = task_id | _ \<Rightarrow> False)"
| "payload_matches_subscription pl (SubagentHistory task_id subagent_id) =
     (case pl of
        SubagentHistoryChanged changed_task changed_subagent _ _ \<Rightarrow>
          changed_task = task_id \<and> changed_subagent = subagent_id
      | _ \<Rightarrow> False)"
| "payload_matches_subscription pl (ToolDetail task_id artifact_id) =
     (case pl of
        ToolDetailUpdated t a _ \<Rightarrow> t = task_id \<and> a = artifact_id
      | ToolDetailChanged t a _ _ \<Rightarrow> t = task_id \<and> a = artifact_id
      | _ \<Rightarrow> False)"
| "payload_matches_subscription pl (WorktreeRepository repository_id) =
     (case pl of
        SnapshotReplaced _ \<Rightarrow> True
      | WorktreeRepositoryUpdated updated _ \<Rightarrow> updated = repository_id
      | _ \<Rightarrow> False)"

fun event_scope_state_root_matches :: "event_scope \<Rightarrow> string \<Rightarrow> bool" where
  "event_scope_state_root_matches (StateRootScope r) root = (r = root)"
| "event_scope_state_root_matches (ClientScope r _) root = (r = root)"
| "event_scope_state_root_matches (TaskScope r _) root = (r = root)"

text \<open>The scopes a state-root or client event never reaches.\<close>

fun task_bound :: "subscription_scope \<Rightarrow> bool" where
  "task_bound (Task _) = True"
| "task_bound (SubagentCatalog _) = True"
| "task_bound (SubagentHistory _ _) = True"
| "task_bound _ = False"

fun scope_matches :: "event_scope \<Rightarrow> string \<Rightarrow> string \<Rightarrow> subscription_scope \<Rightarrow> bool" where
  "scope_matches (StateRootScope r) root client sc = (r = root \<and> \<not> task_bound sc)"
| "scope_matches (ClientScope r c) root client sc = (r = root \<and> c = client \<and> \<not> task_bound sc)"
| "scope_matches (TaskScope r t) root client sc =
     (r = root \<and>
      (case sc of
         Task t' \<Rightarrow> t' = t
       | ToolDetail t' _ \<Rightarrow> t' = t
       | SubagentCatalog t' \<Rightarrow> t' = t
       | SubagentHistory t' _ \<Rightarrow> t' = t
       | _ \<Rightarrow> False))"

definition event_matches_subscription ::
  "event_scope \<Rightarrow> ('p, 'x) event_payload \<Rightarrow> string \<Rightarrow> subscription_record \<Rightarrow> bool" where
  "event_matches_subscription es pl root sub =
     (case pl of
        ProjectCollectionUpdated _ \<Rightarrow>
          event_scope_state_root_matches es root \<and> payload_matches_subscription pl (subscribed sub)
      | _ \<Rightarrow>
          scope_matches es root (subscriber sub) (subscribed sub)
          \<and> payload_matches_subscription pl (subscribed sub))"

section \<open>Publication\<close>

text \<open>The grouping loop: one group per scope, in order of first occurrence, each client once.\<close>

fun add_to_group ::
  "subscription_record \<Rightarrow> (subscription_scope \<times> string list) list \<Rightarrow> (subscription_scope \<times> string list) list" where
  "add_to_group sub [] = [(subscribed sub, [subscriber sub])]"
| "add_to_group sub ((sc, cs) # rest) =
     (if sc = subscribed sub
      then (sc, if subscriber sub \<in> set cs then cs else cs @ [subscriber sub]) # rest
      else (sc, cs) # add_to_group sub rest)"

definition group_by_scope :: "subscription_record list \<Rightarrow> (subscription_scope \<times> string list) list" where
  "group_by_scope subs = foldl (\<lambda>groups sub. add_to_group sub groups) [] subs"

definition deliver_group ::
  "event_scope \<Rightarrow> ('p, 'x) event_payload \<Rightarrow> (string \<Rightarrow> delivery option) \<Rightarrow> string \<times> string
     \<Rightarrow> subscription_scope \<Rightarrow> string list \<Rightarrow> ('p, 'x) state_event_delivery list" where
  "deliver_group es pl deliveries link sc cs =
     List.map_filter
       (\<lambda>client. map_option
          (\<lambda>d. \<lparr>event_delivery = d,
                event = \<lparr>subscription = sc, previous_cursor = fst link, cursor = snd link, scope = es, payload = pl\<rparr>\<rparr>)
          (deliveries client))
       cs"

fun publish_groups ::
  "event_scope \<Rightarrow> ('p, 'x) event_payload \<Rightarrow> (string \<Rightarrow> delivery option)
     \<Rightarrow> (subscription_scope \<times> string list) list \<Rightarrow> 'p state_stream
     \<Rightarrow> ('p, 'x) state_event_delivery list \<times> 'p state_stream" where
  "publish_groups es pl deliveries [] s = ([], s)"
| "publish_groups es pl deliveries ((sc, cs) # rest) s =
     (case advance (scope_cursor sc s) of (link, n) \<Rightarrow>
        (case publish_groups es pl deliveries rest (s\<lparr>scope_cursors := (scope_cursors s)(sc := Some n)\<rparr>) of
           (out, s') \<Rightarrow> (deliver_group es pl deliveries link sc cs @ out, s')))"

definition record_published ::
  "('p task_changes \<Rightarrow> nat option) \<Rightarrow> event_scope \<Rightarrow> ('p, 'x) event_payload \<Rightarrow> 'p task_change_log
     \<Rightarrow> 'p task_change_log option" where
  "record_published encoded_len es pl l =
     (case (es, pl) of
        (TaskScope _ task_id, TaskChanged _ rv c) \<Rightarrow> record_change encoded_len task_id rv c l
      | _ \<Rightarrow> Some l)"

text \<open>\<open>None\<close> is the change log not returning.\<close>

definition publish_committed ::
  "('p task_changes \<Rightarrow> nat option) \<Rightarrow> event_scope \<Rightarrow> ('p, 'x) event_payload \<Rightarrow> (string \<Rightarrow> delivery option)
     \<Rightarrow> 'p state_stream \<Rightarrow> (('p, 'x) state_event_delivery list \<times> 'p state_stream) option" where
  "publish_committed encoded_len es pl deliveries s =
     (let s1 = s\<lparr>cursors := snd (advance (cursors s))\<rparr> in
      case record_published encoded_len es pl (task_changes s1) of
        None \<Rightarrow> None
      | Some l \<Rightarrow>
          let s2 = s1\<lparr>task_changes := l\<rparr>;
              matching = filter (event_matches_subscription es pl (state_root_id s2)) (subscriptions s2)
          in Some (publish_groups es pl deliveries (group_by_scope matching) s2))"

end
