(* ===== verification/Task_Change_Log_Facts.thy ===== *)
theory Task_Change_Log_Facts
  imports Task_Change_Log
begin

text \<open>
  What the change log promises: its byte counters are exact and its bounds hold after every call,
  both eviction loops end, and a replay offered to a returning client contains every change
  published after the client's revision.
\<close>

definition entries_size :: "'p log_entry list \<Rightarrow> nat" where
  "entries_size es = sum_list (map entry_bytes es)"

lemma entries_size_simps [simp]:
  "entries_size [] = 0"
  "entries_size (e # es) = entry_bytes e + entries_size es"
  "entries_size (es @ fs) = entries_size es + entries_size fs"
  by (simp_all add: entries_size_def)

section \<open>Trimming one Task\<close>

text \<open>\<open>t'\<close> is \<open>t\<close> without its oldest entries.\<close>

definition trimmed :: "'p task_entries \<Rightarrow> 'p task_entries \<Rightarrow> bool" where
  "trimmed t t' \<longleftrightarrow>
     (\<exists>k. entries t' = drop k (entries t)) \<and> bytes t' = entries_size (entries t')
   \<and> last_published t' = last_published t \<and> last_recorded t' = last_recorded t"

lemma pop_oldest_trimmed:
  assumes "bytes t = entries_size (entries t)" "pop_oldest t = (released, t')"
  shows "trimmed t t' \<and> released + bytes t' = bytes t"
  using assms
  by (cases "entries t") (auto simp: pop_oldest_def trimmed_def u64_simps intro: exI [of _ 1])

lemma clear_entries_trimmed:
  assumes "clear_entries t = (released, t')"
  shows "trimmed t t' \<and> released = bytes t \<and> bytes t' = 0 \<and> entries t' = []"
  using assms by (auto simp: clear_entries_def trimmed_def intro: exI [of _ "length (entries t)"])

lemma trimmed_trans: "trimmed t t' \<Longrightarrow> trimmed t' t'' \<Longrightarrow> trimmed t t''"
  by (auto simp: trimmed_def)

lemma trimmed_refl: "bytes t = entries_size (entries t) \<Longrightarrow> trimmed t t"
  by (auto simp: trimmed_def intro: exI [of _ 0])

text \<open>\<open>es'\<close> is at least as long as every end of \<open>es\<close> that fits.\<close>

definition longest_fit :: "nat \<Rightarrow> 'p log_entry list \<Rightarrow> 'p log_entry list \<Rightarrow> bool" where
  "longest_fit max_bytes es es' \<longleftrightarrow>
     (\<forall>j. entries_size (drop j es) \<le> max_bytes \<longrightarrow> length (drop j es) \<le> length es')"

lemma longest_fitD:
  "longest_fit max_bytes es es' \<Longrightarrow> entries_size (drop j es) \<le> max_bytes \<Longrightarrow> length (drop j es) \<le> length es'"
  by (simp add: longest_fit_def)

lemma longest_fit_refl: "longest_fit max_bytes es es"
  by (simp add: longest_fit_def)

lemma longest_fit_Cons:
  assumes "longest_fit max_bytes es es'" "max_bytes < entries_size (e # es)"
  shows "longest_fit max_bytes (e # es) es'"
  unfolding longest_fit_def
proof (intro allI impI)
  fix j
  assume fits: "entries_size (drop j (e # es)) \<le> max_bytes"
  then obtain i where "j = Suc i" using assms(2) by (cases j) auto
  with fits assms(1) show "length (drop j (e # es)) \<le> length es'"
    using longest_fitD [of max_bytes es es' i] by simp
qed

lemma trim_task_returns:
  assumes "bytes t = entries_size (entries t)" "released + bytes t < two64"
  shows "\<exists>r t'. trim_task max_bytes released t = Some (r, t') \<and> trimmed t t' \<and> bytes t' \<le> max_bytes
           \<and> r + bytes t' = released + bytes t \<and> longest_fit max_bytes (entries t) (entries t')"
  using assms
proof (induction "length (entries t)" arbitrary: t released rule: less_induct)
  case less
  show ?case
  proof (cases "bytes t > max_bytes")
    case False
    then show ?thesis
      using less.prems by (simp add: trim_task.simps [of max_bytes released t] trimmed_refl longest_fit_refl)
  next
    case True
    then obtain e es where es: "entries t = e # es"
      using less.prems(1) by (cases "entries t") auto
    obtain r1 t1 where p: "pop_oldest t = (r1, t1)" by fastforce
    have t1: "trimmed t t1" "r1 + bytes t1 = bytes t" "entries t1 = es"
      using pop_oldest_trimmed [OF less.prems(1) p] p es by (auto simp: pop_oldest_def)
    have add: "u64_add released r1 = released + r1"
      using less.prems(2) t1(2) by (simp add: u64_simps)
    have "bytes t1 = entries_size (entries t1)" using t1(1) by (simp add: trimmed_def)
    moreover have "released + r1 + bytes t1 < two64" using less.prems(2) t1(2) by simp
    ultimately obtain r t' where "trim_task max_bytes (released + r1) t1 = Some (r, t')" "trimmed t1 t'"
        "bytes t' \<le> max_bytes" "r + bytes t' = released + r1 + bytes t1" "longest_fit max_bytes es (entries t')"
      using less.hyps [of t1 "released + r1"] es t1(3) by auto
    with True p add t1 less.prems(1) show ?thesis
      by (auto simp: trim_task.simps [of max_bytes released t] Let_def es intro: trimmed_trans longest_fit_Cons)
  qed
qed

section \<open>Recording into one Task\<close>

definition new_entry :: "nat \<Rightarrow> 'p task_changes \<Rightarrow> nat \<Rightarrow> 'p log_entry" where
  "new_entry rv c sz = \<lparr>revision = rv, changes = c, entry_bytes = sz\<rparr>"

text \<open>The entries a new one is put behind: none when the new revision does not follow the last one.\<close>

definition run_before :: "'p log_entry \<Rightarrow> 'p task_entries \<Rightarrow> 'p log_entry list" where
  "run_before e t = (if revision e = u64_add (last_published t) 1 then entries t else [])"

definition recorded_entries :: "nat \<Rightarrow> 'p log_entry \<Rightarrow> 'p task_entries \<Rightarrow> 'p task_entries \<Rightarrow> bool" where
  "recorded_entries max_bytes e t t' \<longleftrightarrow>
     (\<exists>k. entries t' = drop k (run_before e t @ [e])) \<and> bytes t' = entries_size (entries t') \<and> bytes t' \<le> max_bytes
   \<and> last_published t' = max (last_published t) (revision e)
   \<and> longest_fit max_bytes (run_before e t @ [e]) (entries t')"

lemma drop_snoc_suffix: "\<exists>k. drop j [e] = drop k (xs @ [e])" "\<exists>k. [] = drop k (xs @ [e])"
  by (rule exI [of _ "length xs + j"], simp) (rule exI [of _ "Suc (length xs)"], simp)

lemma recorded_suffix:
  assumes "recorded_entries max_bytes e t t'"
  obtains k where "entries t' = drop k (entries t @ [e])"
proof -
  from assms obtain j where "entries t' = drop j (run_before e t @ [e])" by (auto simp: recorded_entries_def)
  moreover obtain k where "drop j [e] = drop k (entries t @ [e])"
    using drop_snoc_suffix(1) [of j e "entries t"] by blast
  ultimately show thesis
    using that by (auto simp: run_before_def simp del: drop_append split: if_splits)
qed

lemma longest_fit_none: "max_bytes < entry_bytes e \<Longrightarrow> longest_fit max_bytes (es @ [e]) []"
  unfolding longest_fit_def
proof (intro allI impI)
  fix j
  assume big: "max_bytes < entry_bytes e" and fits: "entries_size (drop j (es @ [e])) \<le> max_bytes"
  show "length (drop j (es @ [e])) \<le> length []"
  proof (cases "j \<le> length es")
    case True
    with big fits show ?thesis by simp
  qed simp
qed

lemma record_entry_returns:
  assumes "bytes t = entries_size (entries t)" "bytes t \<le> max_bytes" "2 * max_bytes < two64"
  shows "\<exists>added released t'. record_entry max_bytes seq rv c sz t = Some (added, released, t')
           \<and> recorded_entries max_bytes (new_entry rv c sz) t t' \<and> released + bytes t' = bytes t + added
           \<and> added \<le> max_bytes \<and> added \<le> sz"
proof -
  define gap where "gap \<longleftrightarrow> entries t \<noteq> [] \<and> rv \<noteq> u64_add (last_published t) 1"
  define t2 where "t2 = (if gap then snd (clear_entries t) else t)
    \<lparr>last_published := max (last_published t) rv, last_recorded := seq\<rparr>"
  define released where "released = (if gap then fst (clear_entries t) else 0)"
  have t2: "bytes t2 = entries_size (entries t2)" "released + bytes t2 = bytes t"
      "last_published t2 = max (last_published t) rv" "entries t2 = (if gap then [] else entries t)"
    using assms(1) by (simp_all add: t2_def released_def clear_entries_def)
  have unfolded: "record_entry max_bytes seq rv c sz t =
     (if sz > max_bytes then Some (0, u64_add released (bytes t2), t2\<lparr>entries := [], bytes := 0\<rparr>)
      else map_option (\<lambda>(r, u). (sz, r, u)) (trim_task max_bytes released
        (t2\<lparr>entries := entries t2 @ [new_entry rv c sz], bytes := u64_add (bytes t2) sz\<rparr>)))"
    by (cases gap) (simp_all add: record_entry_def Let_def gap_def t2_def released_def clear_entries_def
        new_entry_def)
  show ?thesis
  proof (cases "sz > max_bytes")
    case True
    then show ?thesis
      using t2 assms(2,3) drop_snoc_suffix(2) longest_fit_none [of max_bytes "new_entry rv c sz"]
      by (simp add: unfolded recorded_entries_def new_entry_def u64_simps)
  next
    case False
    define t3 where "t3 = t2\<lparr>entries := entries t2 @ [new_entry rv c sz], bytes := u64_add (bytes t2) sz\<rparr>"
    have t3: "bytes t3 = entries_size (entries t3)" "bytes t3 = bytes t2 + sz"
        "last_published t3 = max (last_published t) rv" "entries t3 = entries t2 @ [new_entry rv c sz]"
      using t2 assms False by (simp_all add: t3_def u64_simps new_entry_def)
    moreover have "released + bytes t3 < two64" using t2(2) t3(2) assms False by simp
    ultimately obtain r t' where tt: "trim_task max_bytes released t3 = Some (r, t')" "trimmed t3 t'"
        "bytes t' \<le> max_bytes" "r + bytes t' = released + bytes t3" "longest_fit max_bytes (entries t3) (entries t')"
      using trim_task_returns [of t3 released max_bytes] by auto
    have "entries t2 = run_before (new_entry rv c sz) t"
      using t2(4) by (auto simp: gap_def run_before_def new_entry_def)
    with t3(4) have run: "entries t3 = run_before (new_entry rv c sz) t @ [new_entry rv c sz]" by simp
    have "\<exists>k. entries t' = drop k (run_before (new_entry rv c sz) t @ [new_entry rv c sz])"
      using tt(2) unfolding trimmed_def run by blast
    moreover have "r + bytes t' = bytes t + sz" using tt(4) t2(2) t3(2) by simp
    ultimately show ?thesis
      using tt(1-3,5) t3(3) False unfolding unfolded t3_def [symmetric] run
      by (simp add: recorded_entries_def trimmed_def new_entry_def del: drop_append)
  qed
qed

section \<open>The log as a whole\<close>

definition entries_ok :: "nat \<Rightarrow> 'p task_entries \<Rightarrow> bool" where
  "entries_ok max_bytes t \<longleftrightarrow> bytes t = entries_size (entries t) \<and> bytes t \<le> max_bytes"

lemma entries_ok_default [simp]: "entries_ok n default_entries"
  by (simp add: entries_ok_def default_entries_def)

text \<open>The counters are exact; \<open>log_ok\<close> adds the total bound, which eviction restores.\<close>

definition log_counts :: "'p task_change_log \<Rightarrow> bool" where
  "log_counts l \<longleftrightarrow> keys_distinct (tasks l) \<and> (\<forall>k t. map_of (tasks l) k = Some t \<longrightarrow> entries_ok (max_task_bytes l) t)
     \<and> total_bytes l = alist_sum bytes (tasks l)"

definition log_ok :: "'p task_change_log \<Rightarrow> bool" where
  "log_ok l \<longleftrightarrow> log_counts l \<and> total_bytes l \<le> max_total_bytes l"

lemma log_counts_replace:
  assumes "log_counts l" "map_of (tasks l) k = Some t" "entries_ok (max_task_bytes l) t'" "released + bytes t' = bytes t"
  shows "log_counts (l\<lparr>tasks := AList.update k t' (tasks l), total_bytes := u64_sub (total_bytes l) released\<rparr>)"
proof -
  have "released \<le> total_bytes l"
    using assms alist_sum_ge [OF assms(2), of bytes] by (simp add: log_counts_def)
  with assms alist_sum_update [OF assms(2), of bytes t'] show ?thesis
    by (auto simp: log_counts_def alist_simps u64_simps)
qed

lemma min_by_key_in: "min_by_key key xs = Some x \<Longrightarrow> x \<in> set xs"
  by (induction xs arbitrary: x) (auto split: option.splits if_splits)

lemma min_by_key_None: "min_by_key key xs = None \<longleftrightarrow> xs = []"
  by (cases xs) (auto split: option.splits)

lemma min_by_key_least: "min_by_key key xs = Some x \<Longrightarrow> y \<in> set xs \<Longrightarrow> key x \<le> key y"
proof (induction xs arbitrary: x y)
  case (Cons a xs)
  then show ?case
    by (cases "min_by_key key xs") (fastforce simp: min_by_key_None split: if_splits)+
qed simp

lemma oldest_task_Some:
  assumes "keys_distinct (tasks l)" "oldest_task keep l = Some k"
  obtains t where "map_of (tasks l) k = Some t" "k \<noteq> keep" "entries t \<noteq> []"
    "\<And>k' t'. map_of (tasks l) k' = Some t' \<Longrightarrow> k' \<noteq> keep \<Longrightarrow> entries t' \<noteq> [] \<Longrightarrow> last_recorded t \<le> last_recorded t'"
proof -
  from assms(2) obtain t where t: "min_by_key (\<lambda>(_, t). last_recorded t)
      (filter (\<lambda>(task_id, t). task_id \<noteq> keep \<and> entries t \<noteq> []) (tasks l)) = Some (k, t)"
    by (auto simp: oldest_task_def)
  from min_by_key_in [OF t] have kt: "(k, t) \<in> set (tasks l)" "k \<noteq> keep" "entries t \<noteq> []" by auto
  have "last_recorded t \<le> last_recorded t'"
    if "map_of (tasks l) k' = Some t'" "k' \<noteq> keep" "entries t' \<noteq> []" for k' t'
    using min_by_key_least [OF t, of "(k', t')"] that by (auto dest: map_of_SomeD)
  with kt assms(1) show thesis by (intro that [of t]) (auto simp: map_of_eq_Some_iff)
qed

lemma oldest_task_None:
  assumes "oldest_task keep l = None" "map_of (tasks l) k = Some t" "k \<noteq> keep"
  shows "entries t = []"
proof -
  have "filter (\<lambda>(task_id, t). task_id \<noteq> keep \<and> entries t \<noteq> []) (tasks l) = []"
    using assms(1) by (simp add: oldest_task_def min_by_key_None)
  with assms(2,3) show ?thesis by (auto simp: filter_empty_conv dest: map_of_SomeD)
qed

text \<open>\<open>l'\<close> has the Tasks of \<open>l\<close>, each without some of its oldest entries.\<close>

definition evicted :: "'p task_change_log \<Rightarrow> 'p task_change_log \<Rightarrow> bool" where
  "evicted l l' \<longleftrightarrow>
     (\<forall>k. rel_option trimmed (map_of (tasks l) k) (map_of (tasks l') k))
   \<and> max_task_bytes l' = max_task_bytes l \<and> max_total_bytes l' = max_total_bytes l \<and> recorded l' = recorded l"

lemma rel_option_trimmed_trans:
  "rel_option trimmed a b \<Longrightarrow> rel_option trimmed b c \<Longrightarrow> rel_option trimmed a c"
  by (cases a; cases b; cases c) (auto intro: trimmed_trans)

lemma evicted_trans: "evicted l l' \<Longrightarrow> evicted l' l'' \<Longrightarrow> evicted l l''"
  by (auto simp: evicted_def intro: rel_option_trimmed_trans)

lemma counted_trimmed_refl: "log_counts l \<Longrightarrow> rel_option trimmed (map_of (tasks l) k) (map_of (tasks l) k)"
  by (cases "map_of (tasks l) k") (simp_all add: log_counts_def entries_ok_def trimmed_refl)

lemma evicted_refl: "log_counts l \<Longrightarrow> evicted l l"
  by (simp add: evicted_def counted_trimmed_refl)

lemma evicted_replace:
  assumes "log_counts l" "map_of (tasks l) k = Some t" "trimmed t t'"
  shows "evicted l (l\<lparr>tasks := AList.update k t' (tasks l), total_bytes := n\<rparr>)"
  using assms by (simp add: evicted_def counted_trimmed_refl alist_simps)

definition entry_count :: "'p task_change_log \<Rightarrow> nat" where
  "entry_count l = alist_sum (\<lambda>t. length (entries t)) (tasks l)"

lemma evict_one_progress:
  assumes "log_counts l" "total_bytes l > max_total_bytes l" "map_of (tasks l) keep \<noteq> None"
  shows "\<exists>l'. evict_one keep l = Some l' \<and> log_counts l' \<and> evicted l l' \<and> entry_count l' < entry_count l"
proof (cases "oldest_task keep l")
  case (Some k)
  with assms(1) obtain t where t: "map_of (tasks l) k = Some t" "entries t \<noteq> []"
    by (auto simp: log_counts_def elim: oldest_task_Some)
  obtain r t' where c: "clear_entries t = (r, t')" by fastforce
  note ct = clear_entries_trimmed [OF c]
  have "evict_one keep l = Some (l\<lparr>tasks := AList.update k t' (tasks l), total_bytes := u64_sub (total_bytes l) r\<rparr>)"
    using Some t c by (simp add: evict_one_def)
  moreover have "entry_count (l\<lparr>tasks := AList.update k t' (tasks l), total_bytes := u64_sub (total_bytes l) r\<rparr>) < entry_count l"
    using alist_sum_update [OF t(1), of "\<lambda>t. length (entries t)" t'] t(2) ct
    by (cases "entries t") (simp_all add: entry_count_def)
  ultimately show ?thesis
    using log_counts_replace [OF assms(1) t(1), of t' r] evicted_replace [OF assms(1) t(1), of t'] ct
    by (auto simp: entries_ok_def trimmed_def)
next
  case None
  from assms(3) obtain t where t: "map_of (tasks l) keep = Some t" by blast
  have others: "bytes u = 0" if "map_of (tasks l) k = Some u" "k \<noteq> keep" for k u
    using oldest_task_None [OF None that] assms(1) that(1) by (auto simp: log_counts_def entries_ok_def)
  have "bytes t \<noteq> 0"
  proof
    assume "bytes t = 0"
    have "bytes v = 0" if "(k, v) \<in> set (tasks l)" for k v
    proof -
      from that assms(1) have "map_of (tasks l) k = Some v" by (simp add: log_counts_def map_of_is_SomeI)
      with \<open>bytes t = 0\<close> others t show ?thesis by (cases "k = keep") auto
    qed
    then have "alist_sum bytes (tasks l) = 0" by (auto simp: alist_sum_zero)
    with assms(1,2) show False by (simp add: log_counts_def)
  qed
  moreover have tb: "bytes t = entries_size (entries t)" "bytes t \<le> max_task_bytes l"
    using assms(1) t unfolding log_counts_def entries_ok_def by blast+
  ultimately have ne: "entries t \<noteq> []" by auto
  obtain r t' where c: "pop_oldest t = (r, t')" by fastforce
  note ct = pop_oldest_trimmed [OF tb(1) c]
  have len: "length (entries t') < length (entries t)"
    using c ne by (auto simp: pop_oldest_def split: list.splits)
  have "evict_one keep l = Some (l\<lparr>tasks := AList.update keep t' (tasks l), total_bytes := u64_sub (total_bytes l) r\<rparr>)"
    using None t c by (simp add: evict_one_def)
  moreover have "entry_count (l\<lparr>tasks := AList.update keep t' (tasks l), total_bytes := u64_sub (total_bytes l) r\<rparr>) < entry_count l"
    using alist_sum_update [OF t, of "\<lambda>t. length (entries t)" t'] len by (simp add: entry_count_def)
  moreover have "entries_ok (max_task_bytes l) t'"
    using ct tb by (auto simp: entries_ok_def trimmed_def)
  ultimately show ?thesis
    using log_counts_replace [OF assms(1) t, of t' r] evicted_replace [OF assms(1) t, of t'] ct by auto
qed

lemma evict_returns:
  assumes "log_counts l" "map_of (tasks l) keep \<noteq> None"
  shows "\<exists>l'. evict_to_total_bound keep l = Some l' \<and> log_ok l' \<and> evicted l l'"
  using assms
proof (induction "entry_count l" arbitrary: l rule: less_induct)
  case less
  show ?case
  proof (cases "total_bytes l > max_total_bytes l")
    case False
    with less.prems show ?thesis
      by (simp add: evict_to_total_bound.simps [of keep l] log_ok_def evicted_refl)
  next
    case True
    from evict_one_progress [OF less.prems(1) True less.prems(2)] obtain l1 where
      l1: "evict_one keep l = Some l1" "log_counts l1" "evicted l l1" "entry_count l1 < entry_count l"
      by blast
    have "rel_option trimmed (map_of (tasks l) keep) (map_of (tasks l1) keep)"
      using l1(3) by (simp add: evicted_def)
    with less.prems(2) have "map_of (tasks l1) keep \<noteq> None"
      by (cases "map_of (tasks l1) keep") auto
    from less.hyps [OF l1(4,2) this] l1(1,3) True show ?thesis
      by (auto simp: evict_to_total_bound.simps [of keep l] intro: evicted_trans)
  qed
qed

section \<open>Runs\<close>

text \<open>
  A run of the log, per Task since it was last forgotten every change that was published, oldest
  first, and the encoded size of all changes recorded.
\<close>

datatype 'p log_event = RecordEv string nat "'p task_changes" | ForgetEv string

record 'p log_run =
  change_log :: "'p task_change_log option"
  published :: "string \<Rightarrow> 'p log_entry list"
  volume :: nat

definition encoded_size :: "('p task_changes \<Rightarrow> nat option) \<Rightarrow> 'p task_changes \<Rightarrow> nat" where
  "encoded_size encoded_len c = (case encoded_len c of None \<Rightarrow> u64_max | Some n \<Rightarrow> n)"

definition log_step :: "('p task_changes \<Rightarrow> nat option) \<Rightarrow> 'p log_run \<Rightarrow> 'p log_event \<Rightarrow> 'p log_run" where
  "log_step encoded_len r ev =
     (case ev of
        RecordEv task_id rv c \<Rightarrow>
          r\<lparr>change_log := Option.bind (change_log r) (record_change encoded_len task_id rv c),
            published := (published r)(task_id :=
              (if removed c then [] else published r task_id @ [new_entry rv c (encoded_size encoded_len c)])),
            volume := volume r + (if removed c then 0 else encoded_size encoded_len c)\<rparr>
      | ForgetEv task_id \<Rightarrow>
          r\<lparr>change_log := map_option (forget task_id) (change_log r), published := (published r)(task_id := [])\<rparr>)"

definition log_run_of ::
  "('p task_changes \<Rightarrow> nat option) \<Rightarrow> nat \<Rightarrow> nat \<Rightarrow> 'p log_event list \<Rightarrow> 'p log_run" where
  "log_run_of encoded_len max_task max_total evs =
     foldl (log_step encoded_len)
       \<lparr>change_log = Some (with_bounds max_task max_total), published = (\<lambda>_. []), volume = 0\<rparr> evs"

fun high_water :: "'p log_entry list \<Rightarrow> nat" where
  "high_water [] = 0"
| "high_water (e # es) = max (revision e) (high_water es)"

lemma high_water_snoc [simp]: "high_water (es @ [e]) = max (high_water es) (revision e)"
  by (induction es) auto

text \<open>The revisions of a Task's published changes increase and fit in a \<open>u64\<close>.\<close>

definition increasing :: "'p log_entry list \<Rightarrow> bool" where
  "increasing pub \<longleftrightarrow>
     sorted_wrt (\<lambda>a b. revision a < revision b) pub \<and> list_all (\<lambda>e. revision e < two64) pub"

definition consecutive :: "'p log_entry list \<Rightarrow> bool" where
  "consecutive es \<longleftrightarrow> successively (\<lambda>a b. revision b = Suc (revision a)) es"

lemma increasing_snoc: "increasing (pub @ [e]) \<longleftrightarrow>
    increasing pub \<and> list_all (\<lambda>x. revision x < revision e) pub \<and> revision e < two64"
  by (auto simp: increasing_def sorted_wrt_append list_all_iff)

lemma high_water_last: "increasing pub \<Longrightarrow> pub \<noteq> [] \<Longrightarrow> high_water pub = revision (last pub)"
proof (induction pub rule: rev_induct)
  case (snoc e pub)
  then show ?case
    by (cases "pub = []") (auto simp: increasing_snoc list_all_iff max_def intro: less_imp_le)
qed simp

lemma consecutive_drop: "consecutive es \<Longrightarrow> consecutive (drop k es)"
  unfolding consecutive_def by (metis append_take_drop_id successively_append_iff)

lemma consecutive_snoc:
  "consecutive (es @ [e]) \<longleftrightarrow> consecutive es \<and> (es = [] \<or> revision e = Suc (revision (last es)))"
  by (auto simp: consecutive_def successively_append_iff)

text \<open>A Task's entries are the latest published changes, and its mark is the highest revision.\<close>

fun published_ok :: "'p task_entries option \<Rightarrow> 'p log_entry list \<Rightarrow> bool" where
  "published_ok None pub \<longleftrightarrow> pub = []"
| "published_ok (Some t) pub \<longleftrightarrow>
     pub \<noteq> [] \<and> (\<exists>k. entries t = drop k pub) \<and> last_published t = high_water pub
     \<and> (increasing pub \<longrightarrow> consecutive (entries t))"

text \<open>The entries reach back as far as the changes are consecutive and fit into the Task's bound.\<close>

fun kept_run :: "nat \<Rightarrow> 'p task_entries option \<Rightarrow> 'p log_entry list \<Rightarrow> bool" where
  "kept_run max_bytes None pub \<longleftrightarrow> True"
| "kept_run max_bytes (Some t) pub \<longleftrightarrow>
     (increasing pub \<longrightarrow> (\<forall>j. consecutive (drop j pub) \<and> entries_size (drop j pub) \<le> max_bytes
        \<longrightarrow> length (drop j pub) \<le> length (entries t)))"

lemma published_ok_trimmed: "published_ok a pub \<Longrightarrow> rel_option trimmed a b \<Longrightarrow> published_ok b pub"
  by (cases a; cases b) (auto simp: trimmed_def, metis consecutive_drop drop_drop)

text \<open>When the revisions increase, a change is put behind the entries only if it follows the last one.\<close>

lemma run_before_consecutive:
  assumes "published_ok (Some t) pub" "increasing (pub @ [e])"
  shows "consecutive (run_before e t @ [e])"
proof -
  have inc: "increasing pub" "list_all (\<lambda>x. revision x < revision e) pub" "revision e < two64"
    using assms(2) by (simp_all add: increasing_snoc)
  with assms(1) obtain k where t: "pub \<noteq> []" "entries t = drop k pub" "last_published t = revision (last pub)"
    "consecutive (entries t)"
    by (auto simp: high_water_last)
  have "revision e = Suc (revision (last (entries t)))"
    if "revision e = u64_add (last_published t) 1" "entries t \<noteq> []"
  proof -
    have "last (entries t) = last pub" using that(2) t(2) by (auto simp: last_drop)
    moreover have "revision (last pub) < revision e" using inc(2) t(1) by (simp add: list_all_iff)
    then have "revision e = Suc (revision (last pub))"
      using that(1) inc(3) t(3) by (auto simp: u64_add_def mod_if split: if_splits)
    ultimately show ?thesis by simp
  qed
  with t(4) show ?thesis by (auto simp: run_before_def consecutive_snoc consecutive_def [of "[]"])
qed

lemma published_ok_recorded:
  assumes "published_ok a pub" "recorded_entries max_bytes e (case a of None \<Rightarrow> default_entries | Some t \<Rightarrow> t) t'"
  shows "published_ok (Some t') (pub @ [e])"
proof (cases a)
  case None
  with assms obtain k where "entries t' = drop k [e]" "pub = []" "last_published t' = revision e"
    by (auto simp: recorded_entries_def default_entries_def run_before_def)
  then show ?thesis by (cases k) (auto simp: consecutive_def intro: exI [of _ 0] exI [of _ 1])
next
  case (Some t)
  with assms(2) have rec: "recorded_entries max_bytes e t t'" by simp
  from assms Some obtain j where j: "entries t = drop j pub" by auto
  from recorded_suffix [OF rec] obtain k where k: "entries t' = drop k (entries t @ [e])" .
  have "\<exists>i. drop k (drop j pub @ [e]) = drop i (pub @ [e])"
  proof (cases "j \<le> length pub")
    case True
    then have "drop j pub @ [e] = drop j (pub @ [e])" by simp
    then show ?thesis by (metis drop_drop)
  next
    case False
    then show ?thesis using drop_snoc_suffix(1) [of k e pub] by simp
  qed
  then have "\<exists>i. entries t' = drop i (pub @ [e])" unfolding k j .
  moreover have "consecutive (entries t')" if "increasing (pub @ [e])"
    using run_before_consecutive [OF assms(1) [unfolded Some] that] rec consecutive_drop
    by (auto simp: recorded_entries_def simp del: drop_append)
  moreover have "last_published t' = high_water (pub @ [e])"
    using assms(1) Some rec by (simp add: recorded_entries_def)
  ultimately show ?thesis by simp
qed

lemma kept_run_recorded:
  assumes "published_ok a pub" "kept_run max_bytes a pub"
    and "recorded_entries max_bytes e (case a of None \<Rightarrow> default_entries | Some t \<Rightarrow> t) t'"
  shows "kept_run max_bytes (Some t') (pub @ [e])"
proof -
  define t where "t = (case a of None \<Rightarrow> default_entries | Some t \<Rightarrow> t)"
  have fit: "longest_fit max_bytes (run_before e t @ [e]) (entries t')"
    using assms(3) by (simp add: recorded_entries_def t_def)
  have "length (drop j (pub @ [e])) \<le> length (entries t')"
    if inc: "increasing (pub @ [e])" and run: "consecutive (drop j (pub @ [e]))"
      and small: "entries_size (drop j (pub @ [e])) \<le> max_bytes" for j
  proof (cases "j < length pub")
    case False
    then have "drop j (pub @ [e]) = drop (j - length pub + length (run_before e t)) (run_before e t @ [e])" by simp
    with small longest_fitD [OF fit] show ?thesis by metis
  next
    case True
    then have ends: "drop j (pub @ [e]) = drop j pub @ [e]" "drop j pub \<noteq> []" by simp_all
    with assms(1) obtain k where a: "a = Some t" "entries t = drop k pub" "last_published t = high_water pub"
      by (cases a) (auto simp: t_def)
    have inc': "increasing pub" "revision e < two64" using inc by (simp_all add: increasing_snoc)
    have "revision e = Suc (revision (last pub))" "consecutive (drop j pub)"
      using run ends True by (simp_all add: consecutive_snoc)
    moreover have "high_water pub = revision (last pub)" using inc' True by (intro high_water_last) auto
    ultimately have "run_before e t = entries t" "consecutive (drop j pub)"
      using a(3) inc'(2) by (simp_all add: run_before_def u64_simps)
    moreover from this have "length (drop j pub) \<le> length (entries t)"
      using assms(2) a(1) inc' small ends(1) by simp
    then have "k \<le> j" using a(2) True by simp
    then have "drop j pub = drop (j - k) (entries t)" by (simp add: a(2))
    ultimately have "drop j (pub @ [e]) = drop (j - k) (run_before e t @ [e])"
      using ends by simp
    with small longest_fitD [OF fit] show ?thesis by metis
  qed
  then show ?thesis by simp
qed

text \<open>
  What the log holds of the published changes, when the changes recorded so far amount to \<open>vol\<close> bytes:
  as long as that is within the total bound, nothing was evicted for the sake of another Task.
\<close>

definition log_valid :: "'p task_change_log \<Rightarrow> (string \<Rightarrow> 'p log_entry list) \<Rightarrow> nat \<Rightarrow> bool" where
  "log_valid l pub vol \<longleftrightarrow>
     log_ok l \<and> 2 * max_task_bytes l + max_total_bytes l < two64 \<and> total_bytes l \<le> vol
   \<and> (\<forall>k. published_ok (map_of (tasks l) k) (pub k))
   \<and> (vol \<le> max_total_bytes l \<longrightarrow> (\<forall>k. kept_run (max_task_bytes l) (map_of (tasks l) k) (pub k)))"

definition log_inv :: "nat \<Rightarrow> nat \<Rightarrow> 'p log_run \<Rightarrow> bool" where
  "log_inv max_task max_total r \<longleftrightarrow>
     (\<exists>l. change_log r = Some l \<and> max_task_bytes l = max_task \<and> max_total_bytes l = max_total
        \<and> log_valid l (published r) (volume r))"

lemma forget_ok:
  assumes "log_ok l"
  shows "log_ok (forget k l)" "map_of (tasks (forget k l)) k' = (if k' = k then None else map_of (tasks l) k')"
    "max_task_bytes (forget k l) = max_task_bytes l" "max_total_bytes (forget k l) = max_total_bytes l"
    "total_bytes (forget k l) \<le> total_bytes l"
proof -
  have "log_ok (forget k l) \<and> total_bytes (forget k l) \<le> total_bytes l"
  proof (cases "map_of (tasks l) k")
    case None
    with assms show ?thesis by (simp add: forget_def)
  next
    case (Some t)
    from assms have kd: "keys_distinct (tasks l)" by (simp add: log_ok_def log_counts_def)
    have "bytes t \<le> total_bytes l"
      using assms alist_sum_ge [OF Some, of bytes] by (simp add: log_ok_def log_counts_def)
    with Some assms alist_sum_delete [OF kd Some, of bytes] show ?thesis
      by (auto simp: forget_def log_ok_def log_counts_def alist_simps u64_simps)
  qed
  then show "log_ok (forget k l)" "total_bytes (forget k l) \<le> total_bytes l" by simp_all
qed (simp_all add: forget_def alist_simps split: option.splits)

lemma forget_valid: "log_valid l pub vol \<Longrightarrow> log_valid (forget k l) (pub(k := [])) vol"
proof -
  assume v: "log_valid l pub vol"
  then have "log_ok l" by (simp add: log_valid_def)
  note f = forget_ok [OF this]
  from v f(5) [of k] show ?thesis by (auto simp: log_valid_def f(1-4))
qed

lemma evict_valid:
  assumes "log_counts l" "map_of (tasks l) keep \<noteq> None" "2 * max_task_bytes l + max_total_bytes l < two64"
    and "total_bytes l \<le> vol" "\<And>k. published_ok (map_of (tasks l) k) (pub k)"
    and "\<And>k. vol \<le> max_total_bytes l \<Longrightarrow> kept_run (max_task_bytes l) (map_of (tasks l) k) (pub k)"
  shows "\<exists>l'. evict_to_total_bound keep l = Some l' \<and> max_task_bytes l' = max_task_bytes l
      \<and> max_total_bytes l' = max_total_bytes l \<and> log_valid l' pub vol"
proof (cases "total_bytes l \<le> max_total_bytes l")
  case True
  then have "evict_to_total_bound keep l = Some l" by (simp add: evict_to_total_bound.simps [of keep l])
  with True assms show ?thesis by (simp add: log_valid_def log_ok_def)
next
  case False
  from evict_returns [OF assms(1,2)] obtain l' where
    l': "evict_to_total_bound keep l = Some l'" "log_ok l'" "evicted l l'"
    by blast
  have "published_ok (map_of (tasks l') k) (pub k)" for k
    using assms(5) l'(3) by (auto simp only: evicted_def intro: published_ok_trimmed)
  moreover have "max_total_bytes l < vol" using False assms(4) by simp
  moreover from this have "total_bytes l' \<le> vol" using l'(2,3) by (simp add: log_ok_def evicted_def)
  ultimately show ?thesis using l' assms(3) by (auto simp: log_valid_def evicted_def)
qed

lemma record_change_valid:
  assumes "log_valid l pub vol" "\<not> removed c"
  shows "\<exists>l'. record_change encoded_len task_id rv c l = Some l'
     \<and> max_task_bytes l' = max_task_bytes l \<and> max_total_bytes l' = max_total_bytes l
     \<and> log_valid l' (pub(task_id := pub task_id @ [new_entry rv c (encoded_size encoded_len c)]))
         (vol + encoded_size encoded_len c)"
proof -
  let ?t0 = "case map_of (tasks l) task_id of None \<Rightarrow> default_entries | Some t \<Rightarrow> t"
  let ?sz = "encoded_size encoded_len c"
  let ?e = "new_entry rv c ?sz"
  let ?pub = "pub(task_id := pub task_id @ [?e])"
  let ?seq = "u64_add (recorded l) 1"
  have ok: "log_ok l" "2 * max_task_bytes l + max_total_bytes l < two64" "total_bytes l \<le> vol"
    "\<And>k. published_ok (map_of (tasks l) k) (pub k)"
    "vol \<le> max_total_bytes l \<Longrightarrow> kept_run (max_task_bytes l) (map_of (tasks l) k) (pub k)" for k
    using assms(1) by (simp_all add: log_valid_def)
  have "entries_ok (max_task_bytes l) ?t0"
    using ok(1) by (cases "map_of (tasks l) task_id") (simp_all add: log_ok_def log_counts_def)
  then obtain added released t' where
    r: "record_entry (max_task_bytes l) ?seq rv c ?sz ?t0 = Some (added, released, t')"
      "recorded_entries (max_task_bytes l) ?e ?t0 t'" "released + bytes t' = bytes ?t0 + added"
      "added \<le> max_task_bytes l" "added \<le> ?sz"
    using record_entry_returns [of ?t0 "max_task_bytes l" ?seq rv c ?sz] ok(2)
    by (auto simp: entries_ok_def)
  have le: "bytes ?t0 \<le> total_bytes l"
    using ok(1) alist_sum_ge [of "tasks l" task_id _ bytes]
    by (auto simp: log_ok_def log_counts_def default_entries_def split: option.splits)
  define l1 where "l1 = l\<lparr>recorded := ?seq, tasks := AList.update task_id t' (tasks l),
      total_bytes := u64_sub (u64_add (total_bytes l) added) released\<rparr>"
  have "u64_add (total_bytes l) added = total_bytes l + added"
    using ok(1,2) r(4) by (simp add: log_ok_def u64_simps)
  then have total: "total_bytes l1 + released = total_bytes l + added"
    using r(3) le by (simp add: l1_def u64_simps)
  moreover have "alist_sum bytes (AList.update task_id t' (tasks l)) + bytes ?t0 = alist_sum bytes (tasks l) + bytes t'"
    by (cases "map_of (tasks l) task_id") (simp_all add: alist_sum_update_new alist_sum_update default_entries_def)
  ultimately have "total_bytes l1 = alist_sum bytes (tasks l1)"
    using ok(1) r(3) by (simp add: l1_def log_ok_def log_counts_def)
  moreover have "entries_ok (max_task_bytes l) t'"
    using r(2) by (simp add: recorded_entries_def entries_ok_def)
  ultimately have l1: "log_counts l1"
    using ok(1) by (auto simp: l1_def log_ok_def log_counts_def alist_simps)
  have pub1: "published_ok (map_of (tasks l1) k) (?pub k)" for k
    using ok(4) published_ok_recorded [OF ok(4) r(2)] by (auto simp: l1_def alist_simps)
  have run1: "kept_run (max_task_bytes l) (map_of (tasks l1) k) (?pub k)" if "vol \<le> max_total_bytes l" for k
    using ok(5) [OF that] kept_run_recorded [OF ok(4) ok(5) [OF that] r(2)] by (auto simp: l1_def alist_simps)
  have "\<exists>l'. evict_to_total_bound task_id l1 = Some l' \<and> max_task_bytes l' = max_task_bytes l
      \<and> max_total_bytes l' = max_total_bytes l \<and> log_valid l' ?pub (vol + ?sz)"
    using evict_valid [OF l1, of task_id "vol + ?sz" ?pub] pub1 run1 total ok(2,3) r(5)
    by (simp add: l1_def alist_simps)
  with r(1) assms(2) show ?thesis
    by (simp add: record_change_def Let_def encoded_size_def l1_def)
qed

lemma log_step_inv: "log_inv max_task max_total r \<Longrightarrow> log_inv max_task max_total (log_step encoded_len r ev)"
proof -
  assume "log_inv max_task max_total r"
  then obtain l where l: "change_log r = Some l" "max_task_bytes l = max_task" "max_total_bytes l = max_total"
      "log_valid l (published r) (volume r)"
    by (auto simp: log_inv_def)
  then have ok: "log_ok l" by (simp add: log_valid_def)
  show ?thesis
  proof (cases ev)
    case (ForgetEv k)
    with l forget_valid [OF l(4)] forget_ok(3,4) [OF ok] show ?thesis by (simp add: log_inv_def log_step_def)
  next
    case (RecordEv k rv c)
    show ?thesis
    proof (cases "removed c")
      case True
      with RecordEv l forget_valid [OF l(4)] forget_ok(3,4) [OF ok] show ?thesis
        by (simp add: log_inv_def log_step_def record_change_def)
    next
      case False
      from record_change_valid [OF l(4) False, of encoded_len k rv] obtain l' where
        "record_change encoded_len k rv c l = Some l'" "max_task_bytes l' = max_task" "max_total_bytes l' = max_total"
        "log_valid l' ((published r)(k := published r k @ [new_entry rv c (encoded_size encoded_len c)]))
           (volume r + encoded_size encoded_len c)"
        using l(2,3) by blast
      with RecordEv l(1) False show ?thesis
        by (simp add: log_inv_def log_step_def del: fun_upd_apply)
    qed
  qed
qed

interpretation log: invariant_machine "log_step encoded_len" "log_inv max_task max_total" for encoded_len max_task max_total
  by unfold_locales (rule log_step_inv)

lemma log_run_inv:
  "2 * max_task + max_total < two64 \<Longrightarrow> log_inv max_task max_total (log_run_of encoded_len max_task max_total evs)"
  unfolding log_run_of_def
  by (rule log.run_keeps)
     (simp add: log_inv_def log_valid_def log_ok_def log_counts_def with_bounds_def)

section \<open>Properties\<close>

text \<open>
  C28: The change log stays within its bounds. After any sequence of records and removals every
  call has returned, both eviction loops included; each Task's byte counter is the sum of its
  entries and at most the per-Task bound, and the total is the sum over the Tasks and at most the
  total bound, so that no counter has ever wrapped.
\<close>

theorem change_log_bounded:
  assumes "2 * max_task + max_total < two64"
  shows "\<exists>l. change_log (log_run_of encoded_len max_task max_total evs) = Some l
     \<and> total_bytes l = alist_sum bytes (tasks l) \<and> total_bytes l \<le> max_total_bytes l
     \<and> (\<forall>k. case map_of (tasks l) k of None \<Rightarrow> True
            | Some t \<Rightarrow> bytes t = entries_size (entries t) \<and> bytes t \<le> max_task_bytes l)"
proof -
  obtain l where "change_log (log_run_of encoded_len max_task max_total evs) = Some l" and l: "log_ok l"
    using log_run_inv [OF assms, of encoded_len evs] by (auto simp: log_inv_def log_valid_def)
  moreover have "case map_of (tasks l) k of None \<Rightarrow> True
      | Some t \<Rightarrow> bytes t = entries_size (entries t) \<and> bytes t \<le> max_task_bytes l" for k
  proof (cases "map_of (tasks l) k")
    case (Some t)
    with l have "entries_ok (max_task_bytes l) t" by (simp add: log_ok_def log_counts_def)
    with Some show ?thesis by (simp add: entries_ok_def)
  qed simp
  ultimately show ?thesis using l by (auto simp: log_ok_def log_counts_def)
qed

definition note_changes :: "string \<Rightarrow> string task_changes" where
  "note_changes m = \<lparr>members = m, removed = False\<rparr>"

definition note_len :: "string task_changes \<Rightarrow> nat option" where
  "note_len c = Some (length (members c))"

definition demo_log :: "string log_event list" where
  "demo_log = [RecordEv ''t'' 1 (note_changes ''aa''), RecordEv ''t'' 2 (note_changes ''bbb''),
     RecordEv ''t'' 3 (note_changes ''c''), RecordEv ''t'' 4 (note_changes ''dd'')]"

lemmas log_eval = log_run_of_def log_step_def with_bounds_def record_change_def record_entry_def
  default_entries_def note_changes_def note_len_def encoded_size_def demo_log_def Let_def u64_add_def
  u64_sub_def trim_task.simps pop_oldest_def clear_entries_def evict_to_total_bound.simps evict_one_def
  oldest_task_def forget_def new_entry_def

theorem change_log_bounded_witness:
  "2 * 6 + 20 < two64 \<and> (\<exists>l. change_log (log_run_of note_len 6 20 demo_log) = Some l
     \<and> total_bytes l = alist_sum bytes (tasks l) \<and> total_bytes l \<le> max_total_bytes l
     \<and> (\<forall>k. case map_of (tasks l) k of None \<Rightarrow> True
            | Some t \<Rightarrow> bytes t = entries_size (entries t) \<and> bytes t \<le> max_task_bytes l))"
proof -
  have h: "2 * 6 + 20 < two64" by simp
  from h change_log_bounded [OF h, of note_len demo_log] show ?thesis by blast
qed

lemma high_water_less: "e \<in> set es \<Longrightarrow> revision e \<le> high_water es"
  by (induction es) auto

lemma high_water_in: "es \<noteq> [] \<Longrightarrow> \<exists>e \<in> set es. revision e = high_water es"
proof (induction es)
  case (Cons e es)
  then show ?case by (cases es) (auto simp: max_def)
qed simp

text \<open>Dropping entries that the filter rejects does not change what it keeps.\<close>

lemma filter_drop_sorted:
  assumes "sorted_wrt (\<lambda>a b. revision a < revision b) pub" "drop k pub = first # rest" "revision first \<le> Suc known"
  shows "filter (\<lambda>e. known < revision e) (drop k pub) = filter (\<lambda>e. known < revision e) pub"
proof -
  have "sorted_wrt (\<lambda>a b. revision a < revision b) (take k pub @ first # rest)"
    using assms(1,2) by (metis append_take_drop_id)
  then have "revision e < revision first" if "e \<in> set (take k pub)" for e
    using that by (auto simp: sorted_wrt_append)
  with assms(3) have "filter (\<lambda>e. known < revision e) (take k pub) = []"
    by (force simp: filter_empty_conv)
  then show ?thesis
    by (metis append_self_conv2 append_take_drop_id filter_append)
qed

definition missed_after :: "nat \<Rightarrow> 'p log_entry list \<Rightarrow> 'p log_entry list" where
  "missed_after known pub = filter (\<lambda>e. known < revision e) pub"

text \<open>The changes lead from the known revision to the last one without a gap.\<close>

definition catches_up :: "nat \<Rightarrow> 'p log_entry list \<Rightarrow> bool" where
  "catches_up known es \<longleftrightarrow> map revision es = [Suc known..<Suc known + length es]"

lemma consecutive_revisions:
  "consecutive (e # es) \<Longrightarrow> map revision (e # es) = [revision e..<revision e + Suc (length es)]"
proof (induction es arbitrary: e)
  case (Cons f es)
  then have "revision f = Suc (revision e)" "consecutive (f # es)" by (simp_all add: consecutive_def)
  with Cons.IH [of f] show ?case by (simp add: upt_conv_Cons del: upt_Suc)
qed simp

lemma catches_up_Cons: "catches_up known (e # es) \<longleftrightarrow> revision e = Suc known \<and> catches_up (Suc known) es"
  by (simp add: catches_up_def upt_conv_Cons del: upt_Suc)

lemma catches_up_consecutive: "catches_up known es \<Longrightarrow> consecutive es"
proof (induction es arbitrary: known)
  case (Cons e es)
  then have "consecutive es" by (auto simp: catches_up_Cons)
  with Cons.prems show ?case by (cases es) (auto simp: catches_up_Cons consecutive_def)
qed (simp add: consecutive_def)

lemma filter_upt: "a \<le> Suc k \<Longrightarrow> filter (\<lambda>r. k < r) [a..<b] = [Suc k..<b]"
  by (induction b) (auto simp: not_less)

lemma missed_catches_up:
  assumes "consecutive (first # rest)" "revision first \<le> Suc known"
  shows "catches_up known (missed_after known (first # rest))"
proof -
  let ?es = "first # rest"
  have "map revision (missed_after known ?es) = filter (\<lambda>r. known < r) (map revision ?es)"
    unfolding missed_after_def filter_map by (simp only: comp_def)
  also have "\<dots> = [Suc known..<revision first + Suc (length rest)]"
    unfolding consecutive_revisions [OF assms(1)] using assms(2) by (rule filter_upt)
  finally have eq: "map revision (missed_after known ?es) = [Suc known..<revision first + Suc (length rest)]" .
  then have "length (missed_after known ?es) = revision first + Suc (length rest) - Suc known"
    by (metis length_map length_upt)
  with eq show ?thesis
    unfolding catches_up_def by (cases "Suc known \<le> revision first + Suc (length rest)") (auto simp del: upt_Suc)
qed

text \<open>What was published after a revision is an end of what was published.\<close>

lemma missed_suffix:
  assumes "increasing pub"
  obtains j where "missed_after known pub = drop j pub"
proof -
  have "\<exists>j. filter (\<lambda>e. known < revision e) pub = drop j pub"
    if "sorted_wrt (\<lambda>a b. revision a < revision b) pub" for pub :: "'a log_entry list"
    using that
  proof (induction pub)
    case (Cons e es)
    show ?case
    proof (cases "known < revision e")
      case True
      with Cons.prems have "\<forall>x \<in> set (e # es). known < revision x" by auto
      then show ?thesis by (metis drop0 filter_True)
    next
      case False
      with Cons show ?thesis by (metis drop_Suc_Cons filter.simps(2) sorted_wrt.simps(2))
    qed
  qed simp
  with assms that show thesis unfolding increasing_def missed_after_def by blast
qed

text \<open>
  What the log must answer: a replay is exactly what was published after the known revision and has
  no gap; nothing is known only of a Task of which nothing was published; and a missed change is given up
  only when there is a gap, when the missed changes exceed the bound of one Task, or when everything
  recorded exceeds the total bound.
\<close>

definition replay_possible :: "nat \<Rightarrow> nat \<Rightarrow> nat \<Rightarrow> nat \<Rightarrow> 'p log_entry list \<Rightarrow> bool" where
  "replay_possible max_task max_total vol known pub \<longleftrightarrow>
     missed_after known pub = []
     \<or> catches_up known (missed_after known pub) \<and> entries_size (missed_after known pub) \<le> max_task \<and> vol \<le> max_total"

lemma kept_run_reaches:
  assumes "published_ok (Some t) pub" "kept_run max_bytes (Some t) pub" "increasing pub"
    and "catches_up known (missed_after known pub)" "entries_size (missed_after known pub) \<le> max_bytes"
    and "missed_after known pub \<noteq> []"
  shows "entries t \<noteq> [] \<and> revision (hd (entries t)) \<le> Suc known"
proof -
  obtain j where j: "missed_after known pub = drop j pub" using missed_suffix [OF assms(3)] .
  from assms(1) obtain k where k: "entries t = drop k pub" by auto
  have "length (drop j pub) \<le> length (entries t)"
    using assms(2-5) catches_up_consecutive unfolding j by auto
  moreover have ne: "j < length pub" using assms(6) j by simp
  ultimately have kj: "k \<le> j" "k < length pub" using k by auto
  have sorted: "sorted_wrt (\<lambda>a b. revision a < revision b) pub" using assms(3) by (simp add: increasing_def)
  have "revision (pub ! j) = Suc known"
    using assms(4) ne unfolding j by (simp add: Cons_nth_drop_Suc [symmetric] catches_up_Cons)
  moreover have "revision (pub ! k) \<le> revision (pub ! j)"
    using sorted_wrt_nth_less [OF sorted, of k j] kj ne by (cases "k = j") auto
  ultimately show ?thesis using k kj by (simp add: hd_drop_conv_nth)
qed

lemma changes_since_published:
  assumes "log_valid l pub vol" "increasing (pub task_id)"
  shows "case changes_since task_id known l of
      Changes cs n \<Rightarrow> pub task_id \<noteq> [] \<and> cs = map to_revision_changes (missed_after known (pub task_id))
        \<and> n = entries_size (missed_after known (pub task_id)) \<and> catches_up known (missed_after known (pub task_id))
    | Unknown \<Rightarrow> pub task_id = []
    | Evicted \<Rightarrow> \<not> replay_possible (max_task_bytes l) (max_total_bytes l) vol known (pub task_id)"
proof (cases "map_of (tasks l) task_id")
  case None
  with assms have "pub task_id = []" by (metis log_valid_def published_ok.simps(1))
  with None show ?thesis by (simp add: changes_since_def)
next
  case (Some t)
  define p where "p = pub task_id"
  have ok: "published_ok (Some t) p" "vol \<le> max_total_bytes l \<Longrightarrow> kept_run (max_task_bytes l) (Some t) p"
    using assms(1) Some unfolding log_valid_def p_def by (metis, metis)
  have inc: "increasing p" using assms(2) by (simp add: p_def)
  with ok(1) obtain k where t: "entries t = drop k p" "last_published t = high_water p" "p \<noteq> []" "consecutive (entries t)"
    by auto
  show ?thesis
  proof (cases "known \<ge> last_published t")
    case True
    with t have "missed_after known p = []"
      by (force simp: missed_after_def filter_empty_conv dest: high_water_less)
    with True Some t(3) show ?thesis by (simp add: changes_since_def catches_up_def p_def)
  next
    case False
    obtain e where e: "e \<in> set p" "revision e = high_water p" using high_water_in [OF t(3)] by blast
    then have wrap: "u64_add known 1 = Suc known"
      using False t(2) inc by (auto simp: increasing_def list_all_iff u64_simps)
    have ev: "missed_after known p \<noteq> []"
      using e False t(2) by (auto simp: missed_after_def filter_empty_conv intro!: bexI [of _ e])
    have lost: "\<not> replay_possible (max_task_bytes l) (max_total_bytes l) vol known p"
      if "entries t = [] \<or> Suc known < revision (hd (entries t))"
      using that ev kept_run_reaches [OF ok(1) ok(2) inc, of known] by (auto simp: replay_possible_def)
    show ?thesis
    proof (cases "entries t")
      case Nil
      with False Some lost show ?thesis by (simp add: changes_since_def p_def)
    next
      case (Cons first rest)
      have since: "changes_since task_id known l =
          (if revision first \<le> Suc known then
             Changes (map to_revision_changes (missed_after known (entries t))) (entries_size (missed_after known (entries t)))
           else Evicted)"
        using False Some wrap Cons by (simp add: changes_since_def Let_def entries_size_def missed_after_def)
      show ?thesis
      proof (cases "revision first \<le> Suc known")
        case True
        have "missed_after known (entries t) = missed_after known p"
          unfolding missed_after_def t(1)
          using filter_drop_sorted [OF _ _ True, of p k rest] inc t(1) Cons unfolding increasing_def by metis
        moreover have "catches_up known (missed_after known (entries t))"
          using missed_catches_up [OF _ True] t(4) Cons by simp
        ultimately show ?thesis using since True t(3) by (simp add: p_def)
      next
        case False
        with since lost Cons show ?thesis by (simp add: p_def)
      qed
    qed
  qed
qed



text \<open>
  Without increasing revisions the answer can miss a published change: here revision 10 is published
  (too large to retain), then revision 5, and a client at revision 5 is told that it misses nothing.
\<close>

lemma regressed_revision_hides_changes:
  "\<exists>l. change_log (log_run_of note_len 3 20
         [RecordEv ''t'' 10 (note_changes ''large''), RecordEv ''t'' 5 (note_changes ''s'')]) = Some l
     \<and> changes_since ''t'' 5 l = Changes [] 0
     \<and> map revision (published (log_run_of note_len 3 20
         [RecordEv ''t'' 10 (note_changes ''large''), RecordEv ''t'' 5 (note_changes ''s'')]) ''t'') = [10, 5]"
  by (simp add: log_eval changes_since_def)

end
