(* ===== verification/State_Sync_Facts.thy ===== *)
theory State_Sync_Facts
  imports State_Sync Task_Change_Log_Facts
begin

text \<open>
  What the state stream promises its subscribers: a published event reaches each matching
  subscription once, the cursors of a subscription link up without a gap, Task presence is exactly
  the Task subscriptions, and a resumed Task carries every change the client misses.
\<close>

section \<open>Groups\<close>

text \<open>Groups of subscriptions: one per scope, each holding each of its clients once.\<close>

fun members_of :: "(subscription_scope \<times> string list) list \<Rightarrow> (subscription_scope \<times> string) set" where
  "members_of [] = {}"
| "members_of ((sc, cs) # rest) = {sc} \<times> set cs \<union> members_of rest"

definition groups_ok :: "subscription_record list \<Rightarrow> (subscription_scope \<times> string list) list \<Rightarrow> bool" where
  "groups_ok subs groups \<longleftrightarrow> distinct (map fst groups)
     \<and> list_all (\<lambda>(_, cs). distinct cs \<and> cs \<noteq> []) groups
     \<and> members_of groups = (\<lambda>sub. (subscribed sub, subscriber sub)) ` set subs"

lemma add_to_group_keys:
  "set (map fst (add_to_group sub groups)) = insert (subscribed sub) (set (map fst groups))"
  by (induction sub groups rule: add_to_group.induct) auto

lemma add_to_group_distinct: "distinct (map fst groups) \<Longrightarrow> distinct (map fst (add_to_group sub groups))"
proof (induction sub groups rule: add_to_group.induct)
  case (2 sub sc cs rest)
  then show ?case using add_to_group_keys [of sub rest] by auto
qed simp

lemma add_to_group_members:
  "members_of (add_to_group sub groups) = insert (subscribed sub, subscriber sub) (members_of groups)"
  by (induction sub groups rule: add_to_group.induct) auto

lemma add_to_group_lists:
  "list_all (\<lambda>(_, cs). distinct cs \<and> cs \<noteq> []) groups \<Longrightarrow>
   list_all (\<lambda>(_, cs). distinct cs \<and> cs \<noteq> []) (add_to_group sub groups)"
  by (induction sub groups rule: add_to_group.induct) auto

lemma group_by_scope_ok: "groups_ok subs (group_by_scope subs)"
proof (induction subs rule: rev_induct)
  case Nil
  then show ?case by (simp add: groups_ok_def group_by_scope_def)
next
  case (snoc sub subs)
  have "group_by_scope (subs @ [sub]) = add_to_group sub (group_by_scope subs)"
    by (simp add: group_by_scope_def)
  with snoc show ?case
    by (simp add: groups_ok_def add_to_group_distinct add_to_group_members add_to_group_lists)
qed

lemma members_of_scope: "list_all (\<lambda>(_, cs). distinct cs \<and> cs \<noteq> []) groups \<Longrightarrow> fst ` members_of groups = fst ` set groups"
  by (induction groups rule: members_of.induct) (auto simp: image_Un)

section \<open>Publishing\<close>

text \<open>The link each scope's events carry.\<close>

definition next_link :: "subscription_scope \<Rightarrow> 'p state_stream \<Rightarrow> string \<times> string" where
  "next_link sc s = fst (advance (scope_cursor sc s))"

lemma publish_groups_out:
  assumes "distinct (map fst groups)"
  shows "publish_groups es pl deliveries groups s =
     (concat (map (\<lambda>(sc, cs). deliver_group es pl deliveries (next_link sc s) sc cs) groups),
      s\<lparr>scope_cursors := (\<lambda>sc. if sc \<in> set (map fst groups) then Some (u64_add (scope_cursor sc s) 1)
                                else scope_cursors s sc)\<rparr>)"
  using assms
proof (induction groups arbitrary: s)
  case Nil
  then show ?case by simp
next
  case (Cons group rest)
  obtain sc cs where group: "group = (sc, cs)" by fastforce
  define s1 where "s1 = s\<lparr>scope_cursors := (scope_cursors s)(sc := Some (u64_add (scope_cursor sc s) 1))\<rparr>"
  have same: "scope_cursor sc' s1 = scope_cursor sc' s \<and> next_link sc' s1 = next_link sc' s" if "sc' \<noteq> sc" for sc'
    using that by (simp add: s1_def scope_cursor_def next_link_def)
  have fresh: "sc \<notin> fst ` set rest" using Cons.prems by (simp add: group)
  have out: "concat (map (\<lambda>(sc, cs). deliver_group es pl deliveries (next_link sc s1) sc cs) rest)
      = concat (map (\<lambda>(sc, cs). deliver_group es pl deliveries (next_link sc s) sc cs) rest)"
    by (rule arg_cong [where f = concat], rule map_cong) (use same fresh in force)+
  have cursors: "(\<lambda>sc'. if sc' \<in> set (map fst rest) then Some (u64_add (scope_cursor sc' s1) 1) else scope_cursors s1 sc')
      = (\<lambda>sc'. if sc' \<in> set (map fst (group # rest)) then Some (u64_add (scope_cursor sc' s) 1) else scope_cursors s sc')"
    using same fresh by (force simp: s1_def group)
  have "publish_groups es pl deliveries (group # rest) s =
      (case publish_groups es pl deliveries rest s1 of (out, s') \<Rightarrow>
         (deliver_group es pl deliveries (next_link sc s) sc cs @ out, s'))"
    by (simp add: group advance_def Let_def next_link_def s1_def)
  also have "\<dots> = (deliver_group es pl deliveries (next_link sc s) sc cs
        @ concat (map (\<lambda>(sc, cs). deliver_group es pl deliveries (next_link sc s) sc cs) rest),
      s1\<lparr>scope_cursors := (\<lambda>sc'. if sc' \<in> set (map fst (group # rest)) then Some (u64_add (scope_cursor sc' s) 1)
          else scope_cursors s sc')\<rparr>)"
    using Cons.IH [of s1] Cons.prems unfolding out cursors by simp
  finally show ?case by (simp add: group s1_def)
qed

lemma publish_committed_Some:
  assumes "publish_committed encoded_len es pl deliveries s = Some (out, s')"
  defines "matching \<equiv> filter (event_matches_subscription es pl (state_root_id s)) (subscriptions s)"
  defines "groups \<equiv> group_by_scope matching"
  shows "out = concat (map (\<lambda>(sc, cs). deliver_group es pl deliveries (next_link sc s) sc cs) groups)"
    and "\<exists>l. record_published encoded_len es pl (task_changes s) = Some l \<and>
      s' = s\<lparr>cursors := u64_add (cursors s) 1, task_changes := l,
             scope_cursors := (\<lambda>sc. if sc \<in> set (map fst groups) then Some (u64_add (scope_cursor sc s) 1)
                                else scope_cursors s sc)\<rparr>"
proof -
  have distinct: "distinct (map fst groups)"
    using group_by_scope_ok [of matching] by (simp add: groups_ok_def groups_def)
  from assms(1) obtain l where l: "record_published encoded_len es pl (task_changes s) = Some l"
    by (auto simp: publish_committed_def Let_def split: option.splits)
  let ?s2 = "s\<lparr>cursors := u64_add (cursors s) 1, task_changes := l\<rparr>"
  have same: "next_link sc ?s2 = next_link sc s" "scope_cursor sc ?s2 = scope_cursor sc s"
      "scope_cursors ?s2 = scope_cursors s" for sc
    by (simp_all add: next_link_def scope_cursor_def)
  have "publish_groups es pl deliveries groups ?s2 = (out, s')"
    using assms(1) l by (simp add: publish_committed_def Let_def groups_def matching_def advance_def)
  note both = this publish_groups_out [OF distinct, of es pl deliveries ?s2, unfolded same]
  show "out = concat (map (\<lambda>(sc, cs). deliver_group es pl deliveries (next_link sc s) sc cs) groups)"
    "\<exists>l. record_published encoded_len es pl (task_changes s) = Some l \<and>
      s' = s\<lparr>cursors := u64_add (cursors s) 1, task_changes := l,
             scope_cursors := (\<lambda>sc. if sc \<in> set (map fst groups) then Some (u64_add (scope_cursor sc s) 1)
                                else scope_cursors s sc)\<rparr>"
    using l both by simp_all
qed

lemma subscription_mem:
  "sub \<in> set subs \<Longrightarrow> subscriber sub = c \<Longrightarrow> subscribed sub = sc \<Longrightarrow> \<lparr>subscriber = c, subscribed = sc\<rparr> \<in> set subs"
  by (cases sub) simp

lemma mem_subscriptions:
  "(sc, c) \<in> (\<lambda>sub. (subscribed sub, subscriber sub)) ` set subs \<longleftrightarrow> \<lparr>subscriber = c, subscribed = sc\<rparr> \<in> set subs"
proof
  assume "(sc, c) \<in> (\<lambda>sub. (subscribed sub, subscriber sub)) ` set subs"
  then obtain sub where "sub \<in> set subs" "subscribed sub = sc" "subscriber sub = c" by auto
  moreover from this have "sub = \<lparr>subscriber = c, subscribed = sc\<rparr>"
    by (intro subscription_record.equality) simp_all
  ultimately show "\<lparr>subscriber = c, subscribed = sc\<rparr> \<in> set subs" by simp
qed (force simp: image_iff)

text \<open>The events a client receives on one of its subscriptions.\<close>

definition received :: "string \<Rightarrow> subscription_scope \<Rightarrow> ('p, 'x) state_event_delivery list \<Rightarrow> ('p, 'x) app_server_event list" where
  "received client sc out =
     map event (filter (\<lambda>d. delivery_client (event_delivery d) = client \<and> subscription (event d) = sc) out)"

lemma received_append [simp]: "received c sc (xs @ ys) = received c sc xs @ received c sc ys"
  by (simp add: received_def)

definition linked_event ::
  "event_scope \<Rightarrow> ('p, 'x) event_payload \<Rightarrow> subscription_scope \<Rightarrow> 'p state_stream \<Rightarrow> ('p, 'x) app_server_event" where
  "linked_event es pl sc s =
     \<lparr>subscription = sc, previous_cursor = read_token (scope_cursor sc s),
      cursor = read_token (u64_add (scope_cursor sc s) 1), scope = es, payload = pl\<rparr>"

lemma next_link_eq: "next_link sc s = (read_token (scope_cursor sc s), read_token (u64_add (scope_cursor sc s) 1))"
  by (simp add: next_link_def advance_def Let_def read_token_def)

lemma received_deliver_group:
  assumes "\<And>c d. deliveries c = Some d \<Longrightarrow> delivery_client d = c" "distinct cs"
  shows "received c sc (deliver_group es pl deliveries (next_link sc' s) sc' cs) =
     (if sc' = sc \<and> c \<in> set cs \<and> deliveries c \<noteq> None then [linked_event es pl sc s] else [])"
  using assms(2)
proof (induction cs)
  case Nil
  then show ?case by (simp add: received_def deliver_group_def)
next
  case (Cons k cs)
  then show ?case
    using assms(1) [of k]
    by (cases "deliveries k")
       (auto simp: received_def deliver_group_def linked_event_def next_link_eq map_filter_simps)
qed

lemma received_groups:
  assumes "\<And>c d. deliveries c = Some d \<Longrightarrow> delivery_client d = c"
    and "distinct (map fst groups)" "list_all (\<lambda>(_, cs). distinct cs \<and> cs \<noteq> []) groups"
  shows "received c sc (concat (map (\<lambda>(sc', cs). deliver_group es pl deliveries (next_link sc' s) sc' cs) groups)) =
     (if (sc, c) \<in> members_of groups \<and> deliveries c \<noteq> None then [linked_event es pl sc s] else [])"
  using assms(2,3)
proof (induction groups rule: members_of.induct)
  case 1
  then show ?case by (simp add: received_def)
next
  case (2 sc' cs rest)
  have "sc' \<notin> fst ` members_of rest"
    using 2(2,3) members_of_scope [of rest] by simp
  then have "(sc', c) \<notin> members_of rest" by force
  with 2 show ?case
    by (auto simp: received_deliver_group [OF assms(1)])
qed

lemma publish_received:
  assumes "\<And>c d. deliveries c = Some d \<Longrightarrow> delivery_client d = c"
    and "publish_committed encoded_len es pl deliveries s = Some (out, s')"
  shows "received c sc out =
     (if \<lparr>subscriber = c, subscribed = sc\<rparr> \<in> set (subscriptions s)
         \<and> event_matches_subscription es pl (state_root_id s) \<lparr>subscriber = c, subscribed = sc\<rparr>
         \<and> deliveries c \<noteq> None
      then [linked_event es pl sc s] else [])"
proof -
  let ?matching = "filter (event_matches_subscription es pl (state_root_id s)) (subscriptions s)"
  have ok: "groups_ok ?matching (group_by_scope ?matching)" by (rule group_by_scope_ok)
  then have g: "distinct (map fst (group_by_scope ?matching))"
      "list_all (\<lambda>(_, cs). distinct cs \<and> cs \<noteq> []) (group_by_scope ?matching)"
    by (simp_all add: groups_ok_def)
  have iff: "(sc, c) \<in> members_of (group_by_scope ?matching)
      \<longleftrightarrow> \<lparr>subscriber = c, subscribed = sc\<rparr> \<in> set ?matching"
    using ok by (simp only: groups_ok_def mem_subscriptions)
  have "received c sc out = (if (sc, c) \<in> members_of (group_by_scope ?matching) \<and> deliveries c \<noteq> None
      then [linked_event es pl sc s] else [])"
    unfolding publish_committed_Some(1) [OF assms(2)]
    by (rule received_groups [OF _ g]) (rule assms(1))
  then show ?thesis unfolding iff by simp
qed

text \<open>
  C14: A published event reaches every matching subscription exactly once. When every delivery found
  for a client names that client, publishing an event delivers to a client on a scope either one
  event, when the client is subscribed to the scope, the event matches that subscription and the
  client has a delivery, or none otherwise; the event carries the published scope and payload and
  links the scope's cursor to its successor.
\<close>

theorem publish_reaches_subscribers_once:
  assumes "\<And>c d. deliveries c = Some d \<Longrightarrow> delivery_client d = c"
    and "publish_committed encoded_len es pl deliveries s = Some (out, s')"
  shows "received c sc out =
     (if \<lparr>subscriber = c, subscribed = sc\<rparr> \<in> set (subscriptions s)
         \<and> event_matches_subscription es pl (state_root_id s) \<lparr>subscriber = c, subscribed = sc\<rparr>
         \<and> deliveries c \<noteq> None
      then [linked_event es pl sc s] else [])"
  by (rule publish_received [OF assms])

section \<open>What the stream needs of a change log\<close>

text \<open>
  The stream relies on its change log through this contract alone: recording always returns, what
  the log offers after a revision is everything published after it, without a gap, and it offers nothing
  only when its bounds or a gap forbid it.
\<close>

locale replay_source =
  fixes valid :: "'l \<Rightarrow> (string \<Rightarrow> 'p log_entry list) \<Rightarrow> nat \<Rightarrow> bool"
    and record_op :: "string \<Rightarrow> nat \<Rightarrow> 'p task_changes \<Rightarrow> 'l \<Rightarrow> 'l option"
    and since :: "string \<Rightarrow> nat \<Rightarrow> 'l \<Rightarrow> 'p changes_since"
    and size_of :: "'p task_changes \<Rightarrow> nat"
    and task_bound :: nat and total_bound :: nat
  assumes record_valid: "valid l pub vol \<Longrightarrow>
      \<exists>l'. record_op t rv c l = Some l'
        \<and> valid l' (pub(t := (if removed c then [] else pub t @ [new_entry rv c (size_of c)])))
            (vol + (if removed c then 0 else size_of c))"
    and since_complete: "valid l pub vol \<Longrightarrow> increasing (pub t) \<Longrightarrow>
      (case since t known l of
         Changes cs n \<Rightarrow> cs = map to_revision_changes (missed_after known (pub t)) \<and> catches_up known (missed_after known (pub t))
       | Unknown \<Rightarrow> pub t = []
       | Evicted \<Rightarrow> \<not> replay_possible task_bound total_bound vol known (pub t))"
begin

text \<open>When a resume is due, the missed changes are found; what is found is what was missed.\<close>

lemma resolved_complete:
  assumes "valid l pub vol" "increasing (pub t)"
  shows "case resolve_missed since t known current l of
      Inr (cs, n) \<Rightarrow> known \<le> current \<and> (known = current \<longrightarrow> cs = [])
        \<and> (known < current \<longrightarrow> cs = map to_revision_changes (missed_after known (pub t)) \<and> catches_up known (missed_after known (pub t)))
    | Inl _ \<Rightarrow> current < known \<or> known < current \<and> (pub t = [] \<or> \<not> replay_possible task_bound total_bound vol known (pub t))"
  using since_complete [OF assms, of known]
  by (auto simp: resolve_missed_def split: changes_since.splits)

end

definition stream_log_valid :: "'p task_change_log \<Rightarrow> (string \<Rightarrow> 'p log_entry list) \<Rightarrow> nat \<Rightarrow> bool" where
  "stream_log_valid l pub vol \<longleftrightarrow>
     log_valid l pub vol \<and> max_task_bytes l = MAX_TASK_BYTES \<and> max_total_bytes l = MAX_TOTAL_BYTES"

interpretation replay: replay_source stream_log_valid "record_change encoded_len" changes_since "encoded_size encoded_len"
    MAX_TASK_BYTES MAX_TOTAL_BYTES
  for encoded_len
proof unfold_locales
  show "\<exists>l'. record_change encoded_len t rv c l = Some l'
      \<and> stream_log_valid l' (pub(t := (if removed c then [] else pub t @ [new_entry rv c (encoded_size encoded_len c)])))
          (vol + (if removed c then 0 else encoded_size encoded_len c))"
    if v: "stream_log_valid l pub vol" for l pub vol t rv c
  proof -
    have "log_inv MAX_TASK_BYTES MAX_TOTAL_BYTES \<lparr>change_log = Some l, published = pub, volume = vol\<rparr>"
      using v by (simp add: log_inv_def stream_log_valid_def)
    from log_step_inv [OF this, of encoded_len "RecordEv t rv c"] show ?thesis
      by (auto simp: log_inv_def log_step_def stream_log_valid_def simp del: fun_upd_apply)
  qed
  show "case changes_since t known l of
         Changes cs n \<Rightarrow> cs = map to_revision_changes (missed_after known (pub t)) \<and> catches_up known (missed_after known (pub t))
       | Unknown \<Rightarrow> pub t = []
       | Evicted \<Rightarrow> \<not> replay_possible MAX_TASK_BYTES MAX_TOTAL_BYTES vol known (pub t)"
    if "stream_log_valid l pub vol" "increasing (pub t)" for l pub vol t known
    using changes_since_published [of l pub vol t known] that
    by (auto simp: stream_log_valid_def split: changes_since.splits)
qed

section \<open>Runs of the stream\<close>

datatype ('p, 'x, 'b, 'snap, 'e) stream_event =
    SubscribeEv client_context subscription_scope "nat option" "('b, 'snap, 'e) snapshot_provider"
  | UnsubscribeEv client_context subscription_scope
  | PublishEv event_scope "('p, 'x) event_payload" "string \<Rightarrow> delivery option"
  | DropClientEv string

fun stream_step ::
  "('p task_changes \<Rightarrow> nat option) \<Rightarrow> 'p state_stream \<Rightarrow> ('p, 'x, 'b, 'snap, 'e) stream_event
     \<Rightarrow> (('p, 'x) state_event_delivery list \<times> 'p state_stream) option" where
  "stream_step enc s (SubscribeEv ctx sc known provider) = Some ([], snd (subscribe_with_membership ctx sc known provider s))"
| "stream_step enc s (UnsubscribeEv ctx sc) = Some ([], unsubscribe ctx sc s)"
| "stream_step enc s (PublishEv es pl deliveries) = publish_committed enc es pl deliveries s"
| "stream_step enc s (DropClientEv client) = Some ([], drop_client_subscriptions client s)"

fun stream_run ::
  "('p task_changes \<Rightarrow> nat option) \<Rightarrow> 'p state_stream \<Rightarrow> ('p, 'x, 'b, 'snap, 'e) stream_event list
     \<Rightarrow> (('p, 'x) state_event_delivery list \<times> 'p state_stream) option" where
  "stream_run enc s [] = Some ([], s)"
| "stream_run enc s (ev # evs) =
     (case stream_step enc s ev of
        None \<Rightarrow> None
      | Some (out, s1) \<Rightarrow> map_option (\<lambda>(out', s2). (out @ out', s2)) (stream_run enc s1 evs))"

text \<open>The Task changes the run has published, per Task, as the change log sees them.\<close>

fun note_published ::
  "('p task_changes \<Rightarrow> nat option) \<Rightarrow> ('p, 'x, 'b, 'snap, 'e) stream_event \<Rightarrow> (string \<Rightarrow> 'p log_entry list)
     \<Rightarrow> string \<Rightarrow> 'p log_entry list" where
  "note_published enc (PublishEv (TaskScope r t) (TaskChanged t' rv c) deliveries) pub =
     pub(t := (if removed c then [] else pub t @ [new_entry rv c (encoded_size enc c)]))"
| "note_published enc _ pub = pub"

definition published_by ::
  "('p task_changes \<Rightarrow> nat option) \<Rightarrow> ('p, 'x, 'b, 'snap, 'e) stream_event list \<Rightarrow> string \<Rightarrow> 'p log_entry list" where
  "published_by enc evs = foldl (\<lambda>pub ev. note_published enc ev pub) (\<lambda>_. []) evs"

text \<open>The encoded size of all Task changes the run has published.\<close>

fun published_bytes :: "('p task_changes \<Rightarrow> nat option) \<Rightarrow> ('p, 'x, 'b, 'snap, 'e) stream_event \<Rightarrow> nat" where
  "published_bytes enc (PublishEv (TaskScope r t) (TaskChanged t' rv c) deliveries) =
     (if removed c then 0 else encoded_size enc c)"
| "published_bytes enc _ = 0"

definition published_volume ::
  "('p task_changes \<Rightarrow> nat option) \<Rightarrow> ('p, 'x, 'b, 'snap, 'e) stream_event list \<Rightarrow> nat" where
  "published_volume enc evs = sum_list (map (published_bytes enc) evs)"

lemma subscribe_frame:
  "task_changes (snd (subscribe_with_membership ctx sc known provider s)) = task_changes s"
  "state_root_id (snd (subscribe_with_membership ctx sc known provider s)) = state_root_id s"
  "scope_cursor sc' (snd (subscribe_with_membership ctx sc known provider s)) = scope_cursor sc' s"
  by (auto simp: subscribe_with_membership_def read_token_for_scope_def upsert_subscription_def scope_cursor_def
      split: sum.splits subscription_scope.splits option.splits)

lemma unsubscribe_frame:
  "task_changes (unsubscribe ctx sc s) = task_changes s"
  "scope_cursor sc' (unsubscribe ctx sc s) = scope_cursor sc' s"
  by (auto simp: unsubscribe_def Let_def scope_cursor_def split: subscription_scope.splits)

lemma record_published_valid:
  assumes "stream_log_valid l pub vol"
  shows "\<exists>l'. record_published enc es pl l = Some l'
     \<and> stream_log_valid l' (note_published enc (PublishEv es pl deliveries) pub) (vol + published_bytes enc (PublishEv es pl deliveries))"
proof (cases es)
  case (TaskScope r t)
  show ?thesis
  proof (cases pl)
    case (TaskChanged t' rv c)
    with replay.record_valid [OF assms, where encoded_len = enc] TaskScope show ?thesis
      by (simp add: record_published_def)
  qed (use assms TaskScope in \<open>simp_all add: record_published_def\<close>)
qed (use assms in \<open>simp_all add: record_published_def\<close>)

lemma stream_step_valid:
  assumes "stream_log_valid (task_changes s) pub vol"
  shows "\<exists>out s'. stream_step enc s ev = Some (out, s')
     \<and> stream_log_valid (task_changes s') (note_published enc ev pub) (vol + published_bytes enc ev)"
proof (cases ev)
  case (PublishEv es pl deliveries)
  from record_published_valid [OF assms] obtain l' where
    l': "record_published enc es pl (task_changes s) = Some l'"
      "stream_log_valid l' (note_published enc ev pub) (vol + published_bytes enc ev)"
    using PublishEv by blast
  then obtain out s' where p: "publish_committed enc es pl deliveries s = Some (out, s')"
    by (auto simp: publish_committed_def Let_def split: option.splits) (metis surj_pair)
  from publish_committed_Some(2) [OF p] l' show ?thesis by (auto simp: PublishEv p)
qed (use assms in \<open>simp_all add: subscribe_frame unsubscribe_frame drop_client_subscriptions_def\<close>)

lemma stream_run_valid:
  assumes "stream_log_valid (task_changes s) pub vol"
  shows "\<exists>out s'. stream_run enc s evs = Some (out, s')
     \<and> stream_log_valid (task_changes s') (foldl (\<lambda>pub ev. note_published enc ev pub) pub evs)
         (vol + published_volume enc evs)"
  using assms
proof (induction evs arbitrary: s pub vol)
  case (Cons ev evs)
  from stream_step_valid [OF Cons.prems, of enc ev] obtain out s1 where
    "stream_step enc s ev = Some (out, s1)"
    "stream_log_valid (task_changes s1) (note_published enc ev pub) (vol + published_bytes enc ev)"
    by blast
  with Cons.IH [of s1 "note_published enc ev pub" "vol + published_bytes enc ev"] show ?case
    by (auto simp: published_volume_def add.assoc)
qed (simp add: published_volume_def)

lemma log_valid_new: "stream_log_valid (task_changes (new_stream root)) (\<lambda>_. []) 0"
  by (simp add: new_stream_def stream_log_valid_def log_valid_def default_log_def with_bounds_def log_ok_def
      log_counts_def MAX_TASK_BYTES_def MAX_TOTAL_BYTES_def)

section \<open>Resuming\<close>

text \<open>
  A resume is due to a client at the current revision, and to one behind it when changes of the Task were
  published and those it misses have no gap, fit into the bound of one Task, and nothing had to be given up
  for the total bound.
\<close>

definition resume_due ::
  "('p task_changes \<Rightarrow> nat option) \<Rightarrow> ('p, 'x, 'b, 'snap, 'e) stream_event list \<Rightarrow> string \<Rightarrow> nat \<Rightarrow> nat \<Rightarrow> bool" where
  "resume_due enc evs task_id known current \<longleftrightarrow>
     known = current
     \<or> known < current \<and> published_by enc evs task_id \<noteq> []
       \<and> replay_possible MAX_TASK_BYTES MAX_TOTAL_BYTES (published_volume enc evs) known (published_by enc evs task_id)"

lemma task_snapshot_resume:
  assumes "stream_log_valid (task_changes s) (published_by enc evs) (published_volume enc evs)"
    and "increasing (published_by enc evs task_id)"
    and "task_resume_basis provider ctx task_id = Inr (Some basis)"
  shows "case task_snapshot ctx task_id (Some known) provider token s of
      Inr (TaskResume r) \<Rightarrow> resume_task_id r = task_id \<and> resume_known_revision r = known \<and> known \<le> basis_revision basis
        \<and> resume_changes r = (if known = basis_revision basis then []
             else map to_revision_changes (missed_after known (published_by enc evs task_id)))
        \<and> (known = basis_revision basis \<or> catches_up known (missed_after known (published_by enc evs task_id)))
    | _ \<Rightarrow> \<not> resume_due enc evs task_id known (basis_revision basis)"
proof -
  have resolved: "case resolve_missed changes_since task_id known (basis_revision basis) (task_changes s) of
      Inr (cs, n) \<Rightarrow> known \<le> basis_revision basis \<and> (known = basis_revision basis \<longrightarrow> cs = [])
        \<and> (known < basis_revision basis \<longrightarrow> cs = map to_revision_changes (missed_after known (published_by enc evs task_id))
             \<and> catches_up known (missed_after known (published_by enc evs task_id)))
    | Inl _ \<Rightarrow> \<not> resume_due enc evs task_id known (basis_revision basis)"
    using replay.resolved_complete [OF assms(1,2), where known = known and current = "basis_revision basis"]
    by (auto simp: resume_due_def split: sum.splits)
  show ?thesis
  proof (cases "resolve_missed changes_since task_id known (basis_revision basis) (task_changes s)")
    case (Inl e)
    with resolved assms(3) show ?thesis
      by (cases "snapshot provider ctx (Task task_id) token") (simp_all add: task_snapshot_def Let_def)
  next
    case (Inr cn)
    with resolved assms(3) show ?thesis by (cases cn) (auto simp: task_snapshot_def Let_def)
  qed
qed


definition demo_context :: "string \<Rightarrow> client_context" where
  "demo_context c = \<lparr>client_instance_id = c, connection_id = c @ ''-link'',
     shell = \<lparr>shell_kind = Web, shell_name = None, shell_version = None\<rparr>, surface = HomeSurface,
     capabilities = \<lparr>protocol_caps = [], shell_caps = []\<rparr>, role = Interactive\<rparr>"

definition demo_provider :: "nat \<Rightarrow> (unit, string, string) snapshot_provider" where
  "demo_provider rv = \<lparr>snapshot = (\<lambda>_ _ token. Inr token),
     task_resume_basis = (\<lambda>_ _. Inr (Some \<lparr>basis_revision = rv, basis_rest = ()\<rparr>))\<rparr>"

definition demo_deliveries :: "string \<Rightarrow> delivery option" where
  "demo_deliveries c = Some \<lparr>delivery_client = c, delivery_connection = c @ ''-link'', delivery_capabilities = []\<rparr>"

definition demo_publications :: "(string, string, unit, string, string) stream_event list" where
  "demo_publications =
     map (\<lambda>rv. PublishEv (TaskScope ''root'' ''t'') (TaskChanged ''t'' rv (note_changes ''x'')) demo_deliveries) [1, 2, 3]"


theorem publish_reaches_subscribers_once_witness:
  "\<exists>out s'. publish_committed note_len (StateRootScope ''root'') (ProjectCollectionUpdated ''x'') demo_deliveries
       ((new_stream ''root'')\<lparr>subscriptions := [\<lparr>subscriber = ''A'', subscribed = Projects\<rparr>,
          \<lparr>subscriber = ''B'', subscribed = Agents\<rparr>]\<rparr>) = Some (out, s')
     \<and> length (received ''A'' Projects out) = 1 \<and> received ''B'' Agents out = []"
proof -
  let ?s = "(new_stream ''root'')\<lparr>subscriptions := [\<lparr>subscriber = ''A'', subscribed = Projects\<rparr>,
          \<lparr>subscriber = ''B'', subscribed = Agents\<rparr>]\<rparr>"
  have d: "\<And>c d. demo_deliveries c = Some d \<Longrightarrow> delivery_client d = c" by (auto simp: demo_deliveries_def)
  obtain out s' where p: "publish_committed note_len (StateRootScope ''root'') (ProjectCollectionUpdated ''x'') demo_deliveries ?s
      = Some (out, s')"
    by (simp add: publish_committed_def Let_def record_published_def) (metis surj_pair)
  have "received ''A'' Projects out = [linked_event (StateRootScope ''root'') (ProjectCollectionUpdated ''x'') Projects ?s]"
    using publish_reaches_subscribers_once [of demo_deliveries, OF d p, of "''A''" Projects]
    by (simp add: event_matches_subscription_def new_stream_def demo_deliveries_def)
  moreover have "received ''B'' Agents out = []"
    using publish_reaches_subscribers_once [of demo_deliveries, OF d p, of "''B''" Agents]
    by (simp add: event_matches_subscription_def)
  ultimately show ?thesis using p by auto
qed

section \<open>Cursor chains\<close>

lemma presence_only:
  "subscriptions (case sc of Task t \<Rightarrow> if added then s\<lparr>task_presence := g t\<rparr> else s | _ \<Rightarrow> s) = subscriptions s"
  by (simp split: subscription_scope.split)

lemma subscribe_subscriptions:
  "subscriptions (snd (subscribe_with_membership ctx sc known provider s)) =
     (case fst (subscribe_with_membership ctx sc known provider s) of
        Inl _ \<Rightarrow> subscriptions s
      | Inr _ \<Rightarrow> subscriptions (snd (upsert_subscription (client_instance_id ctx) sc s)))"
  unfolding subscribe_with_membership_def read_token_for_scope_def upsert_subscription_def
  by (simp add: presence_only split: sum.split)

lemma upsert_mem:
  "\<lparr>subscriber = c, subscribed = sc\<rparr> \<in> set (subscriptions (snd (upsert_subscription c sc s)))"
  "sub \<in> set (subscriptions s) \<Longrightarrow> sub \<in> set (subscriptions (snd (upsert_subscription c sc s)))"
  by (auto simp: upsert_subscription_def list_ex_iff intro: subscription_mem)

text \<open>Events that link one cursor to another without a gap.\<close>

fun chained :: "string \<Rightarrow> ('p, 'x) app_server_event list \<Rightarrow> string \<Rightarrow> bool" where
  "chained a [] b \<longleftrightarrow> a = b"
| "chained a (e # es) b \<longleftrightarrow> previous_cursor e = a \<and> chained (cursor e) es b"

lemma chained_append: "chained a xs b \<Longrightarrow> chained b ys c \<Longrightarrow> chained a (xs @ ys) c"
  by (induction a xs b rule: chained.induct) auto

text \<open>
  Events that keep a client subscribed to a scope: nobody ends that subscription, and publications
  deliver to the clients they name.
\<close>

fun keeps_subscribed :: "string \<Rightarrow> subscription_scope \<Rightarrow> ('p, 'x, 'b, 'snap, 'e) stream_event \<Rightarrow> bool" where
  "keeps_subscribed c sc (SubscribeEv ctx sc' known provider) \<longleftrightarrow> True"
| "keeps_subscribed c sc (UnsubscribeEv ctx sc') \<longleftrightarrow> client_instance_id ctx \<noteq> c \<or> sc' \<noteq> sc"
| "keeps_subscribed c sc (PublishEv es pl deliveries) \<longleftrightarrow>
     (\<forall>k d. deliveries k = Some d \<longrightarrow> delivery_client d = k)"
| "keeps_subscribed c sc (DropClientEv k) \<longleftrightarrow> k \<noteq> c"

text \<open>Only a publication for another client alone or without a delivery can withhold its event from a client.\<close>

fun may_withhold :: "string \<Rightarrow> ('p, 'x, 'b, 'snap, 'e) stream_event \<Rightarrow> bool" where
  "may_withhold c (PublishEv es pl deliveries) \<longleftrightarrow>
     (case es of ClientScope _ k \<Rightarrow> k \<noteq> c | _ \<Rightarrow> False) \<or> deliveries c = None"
| "may_withhold c _ \<longleftrightarrow> False"

text \<open>
  Every event published on a scope during a run, in order, with whether it was withheld from the client
  because it does not match the client's subscription or finds no delivery: an event is published on a
  scope when it matches one of the subscriptions to it.
\<close>

fun events_on ::
  "string \<Rightarrow> subscription_scope \<Rightarrow> 'p state_stream \<Rightarrow> ('p, 'x, 'b, 'snap, 'e) stream_event
     \<Rightarrow> (bool \<times> ('p, 'x) app_server_event) list" where
  "events_on c sc s (PublishEv es pl deliveries) =
     (if list_ex (\<lambda>sub. subscribed sub = sc \<and> event_matches_subscription es pl (state_root_id s) sub) (subscriptions s)
      then [(\<not> event_matches_subscription es pl (state_root_id s) \<lparr>subscriber = c, subscribed = sc\<rparr> \<or> deliveries c = None,
             linked_event es pl sc s)]
      else [])"
| "events_on c sc s _ = []"

fun scope_history ::
  "('p task_changes \<Rightarrow> nat option) \<Rightarrow> string \<Rightarrow> subscription_scope \<Rightarrow> 'p state_stream
     \<Rightarrow> ('p, 'x, 'b, 'snap, 'e) stream_event list \<Rightarrow> (bool \<times> ('p, 'x) app_server_event) list" where
  "scope_history enc c sc s [] = []"
| "scope_history enc c sc s (ev # evs) =
     events_on c sc s ev @ (case stream_step enc s ev of None \<Rightarrow> [] | Some (_, s1) \<Rightarrow> scope_history enc c sc s1 evs)"

lemma matches_for_client:
  assumes "event_matches_subscription es pl root \<lparr>subscriber = k, subscribed = sc\<rparr>"
    and "case es of ClientScope _ k' \<Rightarrow> k' = c | _ \<Rightarrow> True"
  shows "event_matches_subscription es pl root \<lparr>subscriber = c, subscribed = sc\<rparr>"
proof -
  have "scope_matches es root k sc \<Longrightarrow> scope_matches es root c sc"
    using assms(2) by (cases es) auto
  with assms(1) show ?thesis by (auto simp: event_matches_subscription_def split: event_payload.split_asm)
qed

lemma mem_fst_image: "x \<in> fst ` A \<longleftrightarrow> (\<exists>y. (x, y) \<in> A)"
  by force

lemma publish_advances:
  assumes "publish_committed enc es pl deliveries s = Some (out, s')"
  shows "scope_cursor sc s' =
     (if \<exists>k. \<lparr>subscriber = k, subscribed = sc\<rparr> \<in> set (subscriptions s)
          \<and> event_matches_subscription es pl (state_root_id s) \<lparr>subscriber = k, subscribed = sc\<rparr>
      then u64_add (scope_cursor sc s) 1 else scope_cursor sc s)"
proof -
  let ?matching = "filter (event_matches_subscription es pl (state_root_id s)) (subscriptions s)"
  have ok: "groups_ok ?matching (group_by_scope ?matching)" by (rule group_by_scope_ok)
  then have lists: "list_all (\<lambda>(_, cs). distinct cs \<and> cs \<noteq> []) (group_by_scope ?matching)"
    and members: "members_of (group_by_scope ?matching) = (\<lambda>sub. (subscribed sub, subscriber sub)) ` set ?matching"
    by (simp_all only: groups_ok_def)
  have "sc \<in> set (map fst (group_by_scope ?matching)) \<longleftrightarrow> sc \<in> fst ` members_of (group_by_scope ?matching)"
    by (simp only: members_of_scope [OF lists] set_map)
  also have "\<dots> \<longleftrightarrow> (\<exists>k. (sc, k) \<in> members_of (group_by_scope ?matching))"
    by (rule mem_fst_image)
  also have "\<dots> \<longleftrightarrow> (\<exists>k. \<lparr>subscriber = k, subscribed = sc\<rparr> \<in> set ?matching)"
    by (simp only: members mem_subscriptions)
  also have "\<dots> \<longleftrightarrow> (\<exists>k. \<lparr>subscriber = k, subscribed = sc\<rparr> \<in> set (subscriptions s)
      \<and> event_matches_subscription es pl (state_root_id s) \<lparr>subscriber = k, subscribed = sc\<rparr>)"
    by simp
  finally have keys: "sc \<in> set (map fst (group_by_scope ?matching)) \<longleftrightarrow> (\<exists>k. \<lparr>subscriber = k, subscribed = sc\<rparr> \<in> set (subscriptions s)
      \<and> event_matches_subscription es pl (state_root_id s) \<lparr>subscriber = k, subscribed = sc\<rparr>)" .
  have "scope_cursors s' sc = (if sc \<in> set (map fst (group_by_scope ?matching)) then Some (u64_add (scope_cursor sc s) 1)
      else scope_cursors s sc)"
    using publish_committed_Some(2) [OF assms] by (elim exE conjE) simp
  then have "scope_cursor sc s' = (if sc \<in> set (map fst (group_by_scope ?matching))
      then u64_add (scope_cursor sc s) 1 else scope_cursor sc s)"
    by (simp add: scope_cursor_def)
  then show ?thesis unfolding keys .
qed

lemma some_subscription:
  "list_ex (\<lambda>sub. subscribed sub = sc \<and> P sub) subs \<longleftrightarrow>
     (\<exists>k. \<lparr>subscriber = k, subscribed = sc\<rparr> \<in> set subs \<and> P \<lparr>subscriber = k, subscribed = sc\<rparr>)"
proof
  assume "list_ex (\<lambda>sub. subscribed sub = sc \<and> P sub) subs"
  then obtain sub where "sub \<in> set subs" "subscribed sub = sc" "P sub" by (auto simp: list_ex_iff)
  moreover from this have "sub = \<lparr>subscriber = subscriber sub, subscribed = sc\<rparr>" by simp
  ultimately show "\<exists>k. \<lparr>subscriber = k, subscribed = sc\<rparr> \<in> set subs \<and> P \<lparr>subscriber = k, subscribed = sc\<rparr>"
    by metis
next
  assume "\<exists>k. \<lparr>subscriber = k, subscribed = sc\<rparr> \<in> set subs \<and> P \<lparr>subscriber = k, subscribed = sc\<rparr>"
  then obtain k where "\<lparr>subscriber = k, subscribed = sc\<rparr> \<in> set subs" "P \<lparr>subscriber = k, subscribed = sc\<rparr>" by blast
  then show "list_ex (\<lambda>sub. subscribed sub = sc \<and> P sub) subs"
    unfolding list_ex_iff by (intro bexI [of _ "\<lparr>subscriber = k, subscribed = sc\<rparr>"]) simp_all
qed

lemma publish_history:
  assumes "\<lparr>subscriber = c, subscribed = sc\<rparr> \<in> set (subscriptions s)"
    and "\<forall>k d. deliveries k = Some d \<longrightarrow> delivery_client d = k"
    and "publish_committed enc es pl deliveries s = Some (out, s')"
  defines "ev \<equiv> PublishEv es pl deliveries :: ('p, 'x, 'b, 'snap, 'e) stream_event"
  shows "received c sc out = map snd (filter (\<lambda>(held, _). \<not> held) (events_on c sc s ev))
     \<and> chained (read_token (scope_cursor sc s)) (map snd (events_on c sc s ev)) (read_token (scope_cursor sc s'))"
proof -
  define hit where "hit k \<longleftrightarrow> \<lparr>subscriber = k, subscribed = sc\<rparr> \<in> set (subscriptions s)
      \<and> event_matches_subscription es pl (state_root_id s) \<lparr>subscriber = k, subscribed = sc\<rparr>" for k
  define on where "on \<longleftrightarrow> list_ex (\<lambda>sub. subscribed sub = sc \<and> event_matches_subscription es pl (state_root_id s) sub) (subscriptions s)"
  have "on \<longleftrightarrow> (\<exists>k. hit k)"
    unfolding on_def hit_def by (rule some_subscription)
  moreover have "received c sc out = (if hit c \<and> deliveries c \<noteq> None then [linked_event es pl sc s] else [])"
    using publish_received [OF _ assms(3), of c sc] assms(2) by (auto simp: hit_def)
  moreover have "scope_cursor sc s' = (if \<exists>k. hit k then u64_add (scope_cursor sc s) 1 else scope_cursor sc s)"
    using publish_advances [OF assms(3), of sc] by (simp add: hit_def)
  moreover have "events_on c sc s ev = (if on then [(\<not> hit c \<or> deliveries c = None, linked_event es pl sc s)] else [])"
    using assms(1) by (simp add: ev_def on_def hit_def)
  ultimately show ?thesis by (auto simp: linked_event_def)
qed

lemma step_chained:
  assumes "\<lparr>subscriber = c, subscribed = sc\<rparr> \<in> set (subscriptions s)" "keeps_subscribed c sc ev"
    and "stream_step enc s ev = Some (out, s')"
  shows "received c sc out = map snd (filter (\<lambda>(held, _). \<not> held) (events_on c sc s ev))
     \<and> chained (read_token (scope_cursor sc s)) (map snd (events_on c sc s ev)) (read_token (scope_cursor sc s'))
     \<and> \<lparr>subscriber = c, subscribed = sc\<rparr> \<in> set (subscriptions s')"
proof (cases ev)
  case (PublishEv es pl deliveries)
  with assms(3) have p: "publish_committed enc es pl deliveries s = Some (out, s')" by simp
  then have "subscriptions s' = subscriptions s"
    using publish_committed_Some(2) [OF p] by auto
  then have kept: "\<lparr>subscriber = c, subscribed = sc\<rparr> \<in> set (subscriptions s')" using assms(1) by simp
  have "\<forall>k d. deliveries k = Some d \<longrightarrow> delivery_client d = k" using assms(2) PublishEv by simp
  from publish_history [OF assms(1) this p] kept show ?thesis
    unfolding PublishEv by (intro conjI) (elim conjE, assumption)+
next
  case (SubscribeEv ctx sc' known provider)
  have "\<lparr>subscriber = c, subscribed = sc\<rparr> \<in> set (subscriptions (snd (subscribe_with_membership ctx sc' known provider s)))"
    using assms(1) by (simp add: subscribe_subscriptions upsert_mem split: sum.split)
  with SubscribeEv assms(3) show ?thesis by (auto simp: subscribe_frame received_def)
next
  case (UnsubscribeEv ctx sc')
  with assms show ?thesis
    by (auto simp: unsubscribe_frame received_def)
       (auto simp: unsubscribe_def Let_def split: subscription_scope.splits)
next
  case (DropClientEv k)
  with assms show ?thesis by (auto simp: drop_client_subscriptions_def received_def scope_cursor_def)
qed

lemma run_chained:
  assumes "\<lparr>subscriber = c, subscribed = sc\<rparr> \<in> set (subscriptions s)" "list_all (keeps_subscribed c sc) evs"
    and "stream_run enc s evs = Some (out, s')"
  shows "received c sc out = map snd (filter (\<lambda>(held, _). \<not> held) (scope_history enc c sc s evs))
     \<and> chained (read_token (scope_cursor sc s)) (map snd (scope_history enc c sc s evs)) (read_token (scope_cursor sc s'))"
  using assms
proof (induction evs arbitrary: s out)
  case Nil
  then show ?case by (simp add: received_def)
next
  case (Cons ev evs)
  then obtain out1 s1 out2 where o: "stream_step enc s ev = Some (out1, s1)"
      "stream_run enc s1 evs = Some (out2, s')" "out = out1 @ out2"
    by (auto split: option.splits)
  have step: "received c sc out1 = map snd (filter (\<lambda>(held, _). \<not> held) (events_on c sc s ev))"
      "chained (read_token (scope_cursor sc s)) (map snd (events_on c sc s ev)) (read_token (scope_cursor sc s1))"
      "\<lparr>subscriber = c, subscribed = sc\<rparr> \<in> set (subscriptions s1)"
    using step_chained [OF Cons.prems(1) _ o(1)] Cons.prems(2) by simp_all
  with Cons.IH [OF step(3) _ o(2)] Cons.prems(2) show ?case
    by (simp add: o(1,3) received_append chained_append)
qed

lemma event_not_withheld:
  assumes "\<not> may_withhold c ev"
  shows "list_all (\<lambda>(held, _). \<not> held) (events_on c sc s ev)"
proof (cases ev)
  case (PublishEv es pl deliveries)
  have "event_matches_subscription es pl (state_root_id s) \<lparr>subscriber = c, subscribed = sc\<rparr>"
    if "event_matches_subscription es pl (state_root_id s) \<lparr>subscriber = k, subscribed = sc\<rparr>" for k
    using matches_for_client [OF that, of c] assms by (auto simp: PublishEv split: event_scope.splits)
  with assms show ?thesis by (auto simp: PublishEv some_subscription)
qed simp_all

lemma history_withheld:
  assumes "list_all (\<lambda>ev. \<not> may_withhold c ev) evs"
  shows "list_all (\<lambda>(held, _). \<not> held) (scope_history enc c sc s evs)"
  using assms
proof (induction evs arbitrary: s)
  case (Cons ev evs)
  then show ?case using event_not_withheld [of c ev sc s] by (auto split: option.split)
qed simp

text \<open>
  C15: What a subscriber sees of the cursors of its scope. From the moment a subscription is answered and as
  long as it is not ended, whatever is subscribed, unsubscribed, removed and published meanwhile, the events
  published on the scope link up: the first one's previous cursor is the cursor of the answer, each further
  one's is the cursor before it, and the last cursor is the one a new subscription would be answered
  with. The subscriber receives exactly these events, in order, except those withheld from it because they
  do not match its own subscription or find no delivery for it. When no event is published for another
  client alone or without a delivery for the subscriber, none is withheld, and the events it receives link
  up by themselves.
\<close>

theorem subscription_cursors_link_up:
  assumes "subscribe_with_membership ctx sc known provider s = (Inr (result, added), s1)"
    and "list_all (keeps_subscribed (client_instance_id ctx) sc) evs"
    and "stream_run enc s1 evs = Some (out, s2)"
  defines "history \<equiv> scope_history enc (client_instance_id ctx) sc s1 evs"
  shows "chained (result_cursor result) (map snd history) (fst (read_token_for_scope sc s2))
     \<and> received (client_instance_id ctx) sc out = map snd (filter (\<lambda>(held, _). \<not> held) history)
     \<and> (list_all (\<lambda>ev. \<not> may_withhold (client_instance_id ctx) ev) evs \<longrightarrow>
          chained (result_cursor result) (received (client_instance_id ctx) sc out) (fst (read_token_for_scope sc s2)))"
proof -
  have "result_cursor result = read_token (scope_cursor sc s)"
    using assms(1)
    by (auto simp: subscribe_with_membership_def read_token_for_scope_def split: sum.splits prod.splits)
  moreover have "scope_cursor sc s1 = scope_cursor sc s"
    using subscribe_frame(3) [of sc ctx sc known provider s] assms(1) by simp
  moreover have "\<lparr>subscriber = client_instance_id ctx, subscribed = sc\<rparr> \<in> set (subscriptions s1)"
    using subscribe_subscriptions [of ctx sc known provider s] assms(1) by (simp add: upsert_mem)
  ultimately have run: "chained (result_cursor result) (map snd history) (fst (read_token_for_scope sc s2))"
    "received (client_instance_id ctx) sc out = map snd (filter (\<lambda>(held, _). \<not> held) history)"
    using run_chained [OF _ assms(2,3)] by (simp_all add: read_token_for_scope_def history_def)
  moreover have "filter (\<lambda>(held, _). \<not> held) history = history"
    if "list_all (\<lambda>ev. \<not> may_withhold (client_instance_id ctx) ev) evs"
    using history_withheld [OF that, of enc sc s1] by (simp add: history_def filter_id_conv list_all_iff)
  ultimately show ?thesis by auto
qed

lemma dec_string_one_digit: "dec_string 0 = ''0''" "dec_string 1 = ''1''" "dec_string (Suc 0) = ''1''"
  by code_simp+

definition demo_chain :: "(string, string, unit, string, string) stream_event list" where
  "demo_chain =
     [PublishEv (StateRootScope ''root'') (ProjectCollectionUpdated ''x'') demo_deliveries,
      SubscribeEv (demo_context ''B'') Projects None (demo_provider 0),
      PublishEv (StateRootScope ''root'') (AgentCollectionUpdated ''y'') demo_deliveries,
      UnsubscribeEv (demo_context ''B'') Projects,
      PublishEv (StateRootScope ''root'') (SnapshotReplaced ''z'') demo_deliveries]"

theorem subscription_cursors_link_up_witness:
  "\<exists>result s1 out s2.
     subscribe_with_membership (demo_context ''A'') Projects None (demo_provider 0) (new_stream ''root'') = (Inr (result, True), s1)
     \<and> stream_run note_len s1 demo_chain = Some (out, s2)
     \<and> chained ''cursor-0'' (received ''A'' Projects out) (fst (read_token_for_scope Projects s2))"
proof -
  define r where "r = subscribe_with_membership (demo_context ''A'') Projects None (demo_provider 0)
    (new_stream ''root'' :: string state_stream)"
  have "\<exists>result s1. r = (Inr (result, True), s1) \<and> result_cursor result = ''cursor-0'' \<and> task_changes s1 = default_log"
    by (simp add: r_def subscribe_with_membership_def read_token_for_scope_def upsert_subscription_def demo_provider_def
        new_stream_def scope_cursor_def read_token_def cursor_text_def dec_string_one_digit)
  then obtain result s1 where r: "r = (Inr (result, True), s1)" and c: "result_cursor result = ''cursor-0''"
    and log: "task_changes s1 = default_log" by blast
  have "stream_log_valid (task_changes s1) (\<lambda>_. []) 0"
    using log_valid_new [of "''root''"] log by (simp add: new_stream_def)
  from stream_run_valid [OF this, of note_len demo_chain] obtain out s2 where
    run: "stream_run note_len s1 demo_chain = Some (out, s2)" by blast
  have kept: "list_all (keeps_subscribed (client_instance_id (demo_context ''A'')) Projects) demo_chain"
    and given: "list_all (\<lambda>ev. \<not> may_withhold (client_instance_id (demo_context ''A'')) ev) demo_chain"
    by (simp_all add: demo_chain_def demo_context_def demo_deliveries_def)
  from subscription_cursors_link_up [OF r [unfolded r_def] kept run] given c r run show ?thesis
    by (auto simp: r_def demo_context_def)
qed

text \<open>
  A withheld event leaves a gap: the cursor of a scope is shared by all its
  subscribers, so an event published for client A alone advances it, and the next event links client
  B to a cursor B has never seen.
\<close>

definition shared_scope :: "string state_stream" where
  "shared_scope = (new_stream ''root'')\<lparr>subscriptions := [\<lparr>subscriber = ''A'', subscribed = Projects\<rparr>,
     \<lparr>subscriber = ''B'', subscribed = Projects\<rparr>]\<rparr>"

lemma client_event_breaks_other_chain:
  "\<exists>out1 s1 out2 s2.
     publish_committed note_len (ClientScope ''root'' ''A'') (SnapshotReplaced ''x'') demo_deliveries shared_scope = Some (out1, s1)
     \<and> publish_committed note_len (StateRootScope ''root'') (SnapshotReplaced ''y'') demo_deliveries s1 = Some (out2, s2)
     \<and> fst (read_token_for_scope Projects shared_scope) = ''cursor-0''
     \<and> received ''B'' Projects out1 = []
     \<and> map previous_cursor (received ''B'' Projects out2) = [''cursor-1'']"
  by (simp add: publish_committed_def Let_def record_published_def shared_scope_def new_stream_def
      event_matches_subscription_def group_by_scope_def advance_def scope_cursor_def deliver_group_def
      demo_deliveries_def received_def read_token_for_scope_def read_token_def cursor_text_def u64_add_def
      List.map_filter_def dec_string_one_digit)

section \<open>Presence\<close>

definition presence_ok :: "'p state_stream \<Rightarrow> bool" where
  "presence_ok s \<longleftrightarrow> (\<forall>t. task_presence s t =
     (if subscribers_for_scope (Task t) s = [] then None else Some (set (subscribers_for_scope (Task t) s))))"

lemma subscribers_simps:
  "set (subscribers_for_scope sc s) = {c. \<lparr>subscriber = c, subscribed = sc\<rparr> \<in> set (subscriptions s)}"
  "subscribers_for_scope sc s = [] \<longleftrightarrow> {c. \<lparr>subscriber = c, subscribed = sc\<rparr> \<in> set (subscriptions s)} = {}"
proof -
  show one: "set (subscribers_for_scope sc s) = {c. \<lparr>subscriber = c, subscribed = sc\<rparr> \<in> set (subscriptions s)}"
    by (force simp: subscribers_for_scope_def intro: subscription_mem)
  show "subscribers_for_scope sc s = [] \<longleftrightarrow> {c. \<lparr>subscriber = c, subscribed = sc\<rparr> \<in> set (subscriptions s)} = {}"
    unfolding one [symmetric] by simp
qed

definition viewers :: "string \<Rightarrow> 'p state_stream \<Rightarrow> string set" where
  "viewers t s = {c. \<lparr>subscriber = c, subscribed = Task t\<rparr> \<in> set (subscriptions s)}"

lemma presence_ok_viewers:
  "presence_ok s \<longleftrightarrow> (\<forall>t. task_presence s t = (if viewers t s = {} then None else Some (viewers t s)))"
  unfolding presence_ok_def subscribers_simps viewers_def ..

lemma presence_ok_cong:
  "presence_ok s \<Longrightarrow> subscriptions s' = subscriptions s \<Longrightarrow> task_presence s' = task_presence s \<Longrightarrow> presence_ok s'"
  by (simp add: presence_ok_viewers viewers_def)

lemma presence_subscribed:
  assumes "presence_ok s"
  shows "presence_ok (s\<lparr>subscriptions := subscriptions s @ [\<lparr>subscriber = c, subscribed = Task t\<rparr>],
     task_presence := observe_subscribed c t (task_presence s)\<rparr>)"
  unfolding presence_ok_viewers
proof
  fix t'
  let ?s = "s\<lparr>subscriptions := subscriptions s @ [\<lparr>subscriber = c, subscribed = Task t\<rparr>],
     task_presence := observe_subscribed c t (task_presence s)\<rparr>"
  have "viewers t' ?s = (if t' = t then insert c (viewers t s) else viewers t' s)"
    by (auto simp: viewers_def)
  then show "task_presence ?s t' = (if viewers t' ?s = {} then None else Some (viewers t' ?s))"
    using assms by (simp add: presence_ok_viewers observe_subscribed_def)
qed

lemma presence_other_scope:
  assumes "presence_ok s" "\<And>t. sc \<noteq> Task t"
  shows "presence_ok (s\<lparr>subscriptions := subscriptions s @ [\<lparr>subscriber = c, subscribed = sc\<rparr>]\<rparr>)"
proof -
  have "viewers t (s\<lparr>subscriptions := subscriptions s @ [\<lparr>subscriber = c, subscribed = sc\<rparr>]\<rparr>) = viewers t s" for t
    using assms(2) [of t] by (auto simp: viewers_def)
  with assms(1) show ?thesis by (simp add: presence_ok_viewers)
qed

lemma presence_upsert:
  assumes "presence_ok s" "upsert_subscription c sc s = (added, s2)"
  shows "presence_ok (case sc of
      Task t \<Rightarrow> if added then s2\<lparr>task_presence := observe_subscribed c t (task_presence s2)\<rparr> else s2
    | _ \<Rightarrow> s2)"
proof (cases added)
  case False
  with assms have "s2 = s" by (auto simp: upsert_subscription_def split: if_splits)
  with False assms(1) show ?thesis by (simp split: subscription_scope.split)
next
  case True
  with assms(2) have s2: "s2 = s\<lparr>subscriptions := subscriptions s @ [\<lparr>subscriber = c, subscribed = sc\<rparr>]\<rparr>"
    by (auto simp: upsert_subscription_def split: if_splits)
  show ?thesis
  proof (cases "\<exists>t. sc = Task t")
    case task: True
    then obtain t where "sc = Task t" by blast
    with True s2 presence_subscribed [OF assms(1), of c t] show ?thesis by simp
  next
    case False
    then have "presence_ok s2" using presence_other_scope [OF assms(1), of sc c] s2 by simp
    with False show ?thesis by (cases sc) simp_all
  qed
qed

lemma presence_subscribe:
  assumes "presence_ok s"
  shows "presence_ok (snd (subscribe_with_membership ctx sc known provider s))"
proof -
  obtain token s1 where t: "read_token_for_scope sc s = (token, s1)" by fastforce
  obtain added s2 where u: "upsert_subscription (client_instance_id ctx) sc s1 = (added, s2)" by fastforce
  have s1: "presence_ok s1"
    by (rule presence_ok_cong [OF assms]) (use t in \<open>auto simp: read_token_for_scope_def\<close>)
  note s2 = presence_upsert [OF s1 u]
  show ?thesis
    unfolding subscribe_with_membership_def t using s1 s2 by (simp only: prod.case u snd_conv split: sum.split) simp
qed

lemma filter_same_length: "length (filter p xs) = length xs \<Longrightarrow> filter p xs = xs"
  by (metis filter_True length_filter_less less_irrefl)

lemma viewers_filter: "viewers t (s\<lparr>subscriptions := filter p (subscriptions s)\<rparr>) = {c \<in> viewers t s. p \<lparr>subscriber = c, subscribed = Task t\<rparr>}"
  by (auto simp: viewers_def)

lemma presence_unsubscribe:
  assumes "presence_ok s"
  shows "presence_ok (unsubscribe ctx sc s)"
proof -
  let ?c = "client_instance_id ctx"
  let ?p = "\<lambda>sub. subscriber sub \<noteq> ?c \<or> subscribed sub \<noteq> sc"
  let ?s1 = "s\<lparr>subscriptions := filter ?p (subscriptions s)\<rparr>"
  have same: "?s1 = s" if "length (filter ?p (subscriptions s)) = length (subscriptions s)"
    using filter_same_length [OF that] by simp
  have v: "viewers t ?s1 = (if sc = Task t then viewers t s - {?c} else viewers t s)" for t
    by (auto simp: viewers_filter)
  have task: "presence_ok (?s1\<lparr>task_presence := observe_unsubscribed ?c t (task_presence s)\<rparr>)" if "sc = Task t" for t
    unfolding presence_ok_viewers
  proof
    fix t'
    let ?s2 = "?s1\<lparr>task_presence := observe_unsubscribed ?c t (task_presence s)\<rparr>"
    have "viewers t' ?s2 = viewers t' ?s1" by (simp add: viewers_def)
    then have v2: "viewers t' ?s2 = (if t = t' then viewers t' s - {?c} else viewers t' s)"
      unfolding v using that by simp
    have "task_presence ?s2 t' = observe_unsubscribed ?c t (task_presence s) t'" by simp
    then show "task_presence ?s2 t' = (if viewers t' ?s2 = {} then None else Some (viewers t' ?s2))"
      unfolding v2 using assms by (simp add: presence_ok_viewers observe_unsubscribed_def Let_def)
  qed
  have other: "presence_ok ?s1" if "\<And>t. sc \<noteq> Task t"
    using assms that v by (simp add: presence_ok_viewers)
  have "unsubscribe ctx sc s = s \<or> (\<exists>t. sc = Task t \<and> unsubscribe ctx sc s = ?s1\<lparr>task_presence := observe_unsubscribed ?c t (task_presence s)\<rparr>)
    \<or> (\<forall>t. sc \<noteq> Task t) \<and> unsubscribe ctx sc s = ?s1"
    using same unfolding unsubscribe_def Let_def by (cases sc) simp_all
  then consider "unsubscribe ctx sc s = s"
    | t where "sc = Task t" "unsubscribe ctx sc s = ?s1\<lparr>task_presence := observe_unsubscribed ?c t (task_presence s)\<rparr>"
    | "\<And>t. sc \<noteq> Task t" "unsubscribe ctx sc s = ?s1"
    by blast
  then show ?thesis
  proof cases
    case 1
    with assms show ?thesis by simp
  next
    case (2 t)
    show ?thesis unfolding 2(2) by (rule task [OF 2(1)])
  next
    case 3
    show ?thesis unfolding 3(2) by (rule other [OF 3(1)])
  qed
qed

lemma presence_drop:
  assumes "presence_ok s"
  shows "presence_ok (drop_client_subscriptions c s)"
  unfolding presence_ok_viewers
proof
  fix t
  have "viewers t (drop_client_subscriptions c s) = viewers t s - {c}"
    by (auto simp: viewers_def drop_client_subscriptions_def)
  then show "task_presence (drop_client_subscriptions c s) t =
      (if viewers t (drop_client_subscriptions c s) = {} then None else Some (viewers t (drop_client_subscriptions c s)))"
    using assms by (simp add: presence_ok_viewers drop_client_subscriptions_def observe_client_expired_def Let_def)
qed

lemma presence_step:
  assumes "presence_ok s" "stream_step enc s ev = Some (out, s')"
  shows "presence_ok s'"
proof (cases ev)
  case (PublishEv es pl deliveries)
  with assms(2) have "publish_committed enc es pl deliveries s = Some (out, s')" by simp
  from publish_committed_Some(2) [OF this] show ?thesis
    by (auto intro: presence_ok_cong [OF assms(1)])
qed (use assms in \<open>auto simp: presence_subscribe presence_unsubscribe presence_drop\<close>)

lemma presence_run: "presence_ok s \<Longrightarrow> stream_run enc s evs = Some (out, s') \<Longrightarrow> presence_ok s'"
proof (induction evs arbitrary: s out)
  case (Cons ev evs)
  then obtain out1 s1 out2 where "stream_step enc s ev = Some (out1, s1)" "stream_run enc s1 evs = Some (out2, s')"
    by (auto split: option.splits)
  with Cons show ?case by (blast intro: presence_step)
qed simp

lemma presence_new: "presence_ok (new_stream root)"
  by (simp add: presence_ok_viewers viewers_def new_stream_def)

text \<open>
  C30: Presence is exact. After any sequence of subscriptions (answered or failed), unsubscriptions,
  publications and removals of clients on a new stream, which all return, the presence kept for a
  Task is the set of the clients subscribed to it, and no entry is kept for a Task without one.
\<close>

theorem presence_is_exact:
  fixes evs :: "('p, 'x, 'b, 'snap, 'e) stream_event list"
  shows "\<exists>out s. stream_run enc (new_stream root) evs = Some (out, s) \<and>
     task_presence s t = (if subscribers_for_scope (Task t) s = [] then None
        else Some (set (subscribers_for_scope (Task t) s)))"
proof -
  from stream_run_valid [OF log_valid_new [of root], of enc evs] obtain out s where
    run: "stream_run enc (new_stream root) evs = Some (out, s)" by blast
  with presence_run [OF presence_new run] show ?thesis by (auto simp: presence_ok_def)
qed

end
