(* ===== verification/Client_Lifecycle_Facts.thy ===== *)
theory Client_Lifecycle_Facts
  imports Client_Lifecycle
begin

text \<open>
  What the client hub and the server lifecycle promise: a connection routes to exactly one client
  and back, a client is removed only after the grace period that follows its last sign of life,
  and a server that is stopping stays stopping and plans its shutdown once.
\<close>

section \<open>Connections and clients\<close>

definition hub_ok :: "client_hub \<Rightarrow> bool" where
  "hub_ok h \<longleftrightarrow> keys_distinct (clients h)
   \<and> (\<forall>k r. map_of (clients h) k = Some r \<longrightarrow> client_instance_id (context_of r) = k)
   \<and> (\<forall>c k. connections h c = Some k \<longrightarrow>
        (\<exists>r. map_of (clients h) k = Some r \<and> connection_id (context_of r) = c \<and> reconnect_expires_at r = None))"

lemma without_client_eq: "without_client k m c = Some v \<longleftrightarrow> m c = Some v \<and> v \<noteq> k"
  by (auto simp: without_client_def split: option.splits)

lemma hub_okI:
  assumes "keys_distinct (clients h)"
    and "\<And>k r. map_of (clients h) k = Some r \<Longrightarrow> client_instance_id (context_of r) = k"
    and "\<And>c k. connections h c = Some k \<Longrightarrow>
        \<exists>r. map_of (clients h) k = Some r \<and> connection_id (context_of r) = c \<and> reconnect_expires_at r = None"
  shows "hub_ok h"
  unfolding hub_ok_def using assms by blast

lemma hub_ok_distinct: "hub_ok h \<Longrightarrow> keys_distinct (clients h)"
  by (simp add: hub_ok_def)

lemma hub_ok_id: "hub_ok h \<Longrightarrow> map_of (clients h) k = Some r \<Longrightarrow> client_instance_id (context_of r) = k"
  unfolding hub_ok_def by blast

lemma hub_ok_connected:
  assumes "hub_ok h" "connections h c = Some k"
  obtains r where "map_of (clients h) k = Some r" "connection_id (context_of r) = c" "reconnect_expires_at r = None"
    "client_instance_id (context_of r) = k"
  using assms unfolding hub_ok_def by blast

text \<open>Replacing the record of a client that keeps its identity, its connection and its state.\<close>

lemma hub_ok_update:
  assumes "hub_ok h" "map_of (clients h) k = Some r" "client_instance_id (context_of r') = k"
    and "connection_id (context_of r') = connection_id (context_of r)"
    and "reconnect_expires_at r' = reconnect_expires_at r"
  shows "hub_ok (h\<lparr>clients := AList.update k r' (clients h)\<rparr>)"
proof (rule hub_okI)
  show "\<exists>r. map_of (clients (h\<lparr>clients := AList.update k r' (clients h)\<rparr>)) j = Some r
      \<and> connection_id (context_of r) = c \<and> reconnect_expires_at r = None"
    if "connections (h\<lparr>clients := AList.update k r' (clients h)\<rparr>) c = Some j" for c j
  proof -
    from that have "connections h c = Some j" by simp
    with assms(1) obtain r0 where "map_of (clients h) j = Some r0" "connection_id (context_of r0) = c"
        "reconnect_expires_at r0 = None"
      by (rule hub_ok_connected)
    with assms(2,4,5) show ?thesis by (cases "j = k") (simp_all add: alist_simps)
  qed
qed (use assms hub_ok_id [OF assms(1)] hub_ok_distinct [OF assms(1)] in \<open>auto simp: alist_simps split: if_splits\<close>)

text \<open>Dropping connections of a client and changing its reconnect time.\<close>

lemma hub_ok_disconnect:
  assumes "hub_ok h" "\<And>c j. m c = Some j \<Longrightarrow> connections h c = Some j \<and> j \<noteq> k"
  shows "hub_ok (h\<lparr>connections := m,
     clients := (case map_of (clients h) k of None \<Rightarrow> clients h
        | Some r \<Rightarrow> AList.update k (r\<lparr>reconnect_expires_at := e\<rparr>) (clients h))\<rparr>)" (is "hub_ok ?h")
proof (rule hub_okI)
  have lookup: "map_of (clients ?h) j = (if j = k then map_option (\<lambda>r. r\<lparr>reconnect_expires_at := e\<rparr>) (map_of (clients h) k)
      else map_of (clients h) j)" for j
    by (auto simp: alist_simps split: option.splits)
  show "\<exists>r. map_of (clients ?h) j = Some r \<and> connection_id (context_of r) = c \<and> reconnect_expires_at r = None"
    if "connections ?h c = Some j" for c j
  proof -
    from that have "connections h c = Some j" "j \<noteq> k" using assms(2) by auto
    from assms(1) this(1) obtain r where "map_of (clients h) j = Some r" "connection_id (context_of r) = c"
        "reconnect_expires_at r = None"
      by (rule hub_ok_connected)
    with \<open>j \<noteq> k\<close> show ?thesis unfolding lookup by simp
  qed
  show "client_instance_id (context_of r) = j" if "map_of (clients ?h) j = Some r" for j r
    using that hub_ok_id [OF assms(1)] unfolding lookup by (auto split: if_splits)
  show "keys_distinct (clients ?h)"
    using hub_ok_distinct [OF assms(1)] by (simp split: option.split)
qed

lemma hub_ok_initialize:
  assumes "hub_ok h"
  shows "hub_ok (snd (initialize conn params now h))" (is "hub_ok ?h")
proof (rule hub_okI)
  show "\<exists>r. map_of (clients ?h) j = Some r \<and> connection_id (context_of r) = c \<and> reconnect_expires_at r = None"
    if c: "connections ?h c = Some j" for c j
  proof (cases "c = conn")
    case True
    with c show ?thesis by (auto simp: initialize_def Let_def alist_simps)
  next
    case False
    with c have "connections h c = Some j" and j: "j \<noteq> init_client_instance_id params"
      by (auto simp: initialize_def Let_def without_client_eq)
    from assms this(1) obtain r where "map_of (clients h) j = Some r" "connection_id (context_of r) = c"
        "reconnect_expires_at r = None"
      by (rule hub_ok_connected)
    with j show ?thesis by (simp add: initialize_def Let_def alist_simps)
  qed
qed (use hub_ok_id [OF assms] hub_ok_distinct [OF assms] in
      \<open>auto simp: initialize_def Let_def alist_simps split: if_splits\<close>)

lemma hub_ok_remove_client:
  assumes "hub_ok h"
  shows "hub_ok (remove_client k h)"
proof (rule hub_okI)
  show "\<exists>r. map_of (clients (remove_client k h)) j = Some r \<and> connection_id (context_of r) = c \<and> reconnect_expires_at r = None"
    if "connections (remove_client k h) c = Some j" for c j
  proof -
    from that have "connections h c = Some j" "j \<noteq> k" by (auto simp: remove_client_def without_client_eq)
    from assms this(1) obtain r where "map_of (clients h) j = Some r" "connection_id (context_of r) = c"
        "reconnect_expires_at r = None"
      by (rule hub_ok_connected)
    with \<open>j \<noteq> k\<close> show ?thesis by (simp add: remove_client_def alist_simps)
  qed
qed (use hub_ok_id [OF assms] hub_ok_distinct [OF assms] in
      \<open>auto simp: remove_client_def alist_simps split: if_splits\<close>)

lemma enter_grace_alt:
  "enter_grace e h k = h\<lparr>connections := without_client k (connections h),
      clients := (case map_of (clients h) k of None \<Rightarrow> clients h
        | Some r \<Rightarrow> AList.update k (r\<lparr>reconnect_expires_at := Some e\<rparr>) (clients h))\<rparr>"
  by (simp add: enter_grace_def Let_def split: option.split)

lemma hub_ok_enter_grace: "hub_ok h \<Longrightarrow> hub_ok (enter_grace e h k)"
  unfolding enter_grace_alt by (rule hub_ok_disconnect) (simp_all add: without_client_eq)

section \<open>The two loops of the expiry sweep\<close>

lemma enter_grace_lookup:
  "map_of (clients (enter_grace e h j)) k =
     (if k = j then map_option (\<lambda>r. r\<lparr>reconnect_expires_at := Some e\<rparr>) (map_of (clients h) k) else map_of (clients h) k)"
  by (auto simp: enter_grace_alt alist_simps split: option.splits)

lemma foldl_enter_grace:
  "map_of (clients (foldl (enter_grace e) h ks)) k =
     (if k \<in> set ks then map_option (\<lambda>r. r\<lparr>reconnect_expires_at := Some e\<rparr>) (map_of (clients h) k)
      else map_of (clients h) k)"
  "connections (foldl (enter_grace e) h ks) c =
     (case connections h c of None \<Rightarrow> None | Some k \<Rightarrow> if k \<in> set ks then None else Some k)"
  "liveness_policy (foldl (enter_grace e) h ks) = liveness_policy h"
proof (induction ks arbitrary: h)
  case Nil
  {
    case 1 show ?case by simp
  next
    case 2 show ?case by (simp split: option.split)
  next
    case 3 show ?case by simp
  }
next
  case (Cons j ks)
  {
    case 1 show ?case
      unfolding foldl.simps Cons.IH(1) enter_grace_lookup by (cases "map_of (clients h) k") auto
  next
    case 2 show ?case
      unfolding foldl.simps Cons.IH(2) by (simp add: enter_grace_alt without_client_def split: option.split)
  next
    case 3 show ?case
      unfolding foldl.simps Cons.IH(3) by (simp add: enter_grace_alt)
  }
qed

lemma foldl_remove_client:
  "map_of (clients (foldl (\<lambda>hub k. remove_client k hub) h ks)) k =
     (if k \<in> set ks then None else map_of (clients h) k)"
  by (induction ks arbitrary: h) (auto simp: remove_client_def alist_simps)

lemma foldl_keeps: "hub_ok h \<Longrightarrow> (\<And>h k. hub_ok h \<Longrightarrow> hub_ok (f h k)) \<Longrightarrow> hub_ok (foldl f h ks)"
  by (induction ks arbitrary: h) simp_all

lemma hub_ok_expire_inactive: "hub_ok h \<Longrightarrow> hub_ok (snd (expire_inactive_clients now h))"
  by (simp add: expire_inactive_clients_def Let_def foldl_keeps hub_ok_enter_grace hub_ok_remove_client)

lemma fst_filter_lookup:
  assumes "keys_distinct m"
  shows "k \<in> set (map fst (filter (\<lambda>(_, v). P v) m)) \<longleftrightarrow> (\<exists>v. map_of m k = Some v \<and> P v)"
  using map_of_eq_Some_iff [OF assms] by force

section \<open>Runs of the hub\<close>

datatype hub_event =
    InitializeEv string initialize_params nat
  | CapabilitiesEv string client_capabilities
  | ClosedEv string nat
  | ActivityEv string nat
  | ExpireOneEv string nat
  | ExpireAllEv nat
  | DetachEv string

fun hub_step :: "client_hub \<Rightarrow> hub_event \<Rightarrow> client_hub" where
  "hub_step h (InitializeEv conn params now) = snd (initialize conn params now h)"
| "hub_step h (CapabilitiesEv k caps) = snd (update_capabilities k caps h)"
| "hub_step h (ClosedEv conn now) = snd (observe_transport_closed conn now h)"
| "hub_step h (ActivityEv conn now) = snd (observe_connection_activity conn now h)"
| "hub_step h (ExpireOneEv k now) = snd (expire_after_grace k now h)"
| "hub_step h (ExpireAllEv now) = snd (expire_inactive_clients now h)"
| "hub_step h (DetachEv k) = snd (detach k h)"

lemma hub_ok_transport_closed:
  assumes "hub_ok h"
  shows "hub_ok (snd (observe_transport_closed conn now h))"
proof (cases "connections h conn")
  case None
  with assms show ?thesis by (simp add: observe_transport_closed_def)
next
  case (Some k)
  from assms Some obtain r0 where r0: "map_of (clients h) k = Some r0" "connection_id (context_of r0) = conn"
    by (rule hub_ok_connected)
  have "connections h c = Some j \<and> j \<noteq> k" if "((connections h)(conn := None)) c = Some j" for c j
  proof -
    from that have c: "connections h c = Some j" "c \<noteq> conn" by (auto split: if_splits)
    from assms c(1) obtain r where "map_of (clients h) j = Some r" "connection_id (context_of r) = c"
      by (rule hub_ok_connected)
    with c r0 show ?thesis by auto
  qed
  then have "hub_ok (h\<lparr>connections := (connections h)(conn := None),
     clients := (case map_of (clients h) k of None \<Rightarrow> clients h
        | Some r \<Rightarrow> AList.update k (r\<lparr>reconnect_expires_at := Some (u64_add now (reconnect_grace_ms (liveness_policy h)))\<rparr>)
            (clients h))\<rparr>)"
    by (rule hub_ok_disconnect [OF assms])
  with Some show ?thesis
    by (simp add: observe_transport_closed_def Let_def r0)
qed

lemma hub_step_ok: "hub_ok h \<Longrightarrow> hub_ok (hub_step h ev)"
proof (cases ev)
  case (CapabilitiesEv k caps)
  assume "hub_ok h"
  with CapabilitiesEv show ?thesis
    by (auto simp: update_capabilities_def Let_def split: option.splits intro!: hub_ok_update dest: hub_ok_id)
next
  case (ActivityEv conn now)
  assume "hub_ok h"
  with ActivityEv show ?thesis
    by (auto simp: observe_connection_activity_def split: option.splits intro!: hub_ok_update dest: hub_ok_id)
qed (auto simp: expire_after_grace_def detach_def Let_def hub_ok_initialize hub_ok_transport_closed
      hub_ok_remove_client hub_ok_expire_inactive split: option.splits)

interpretation hub: invariant_machine hub_step hub_ok
  by unfold_locales (rule hub_step_ok)

lemma hub_ok_new: "hub_ok (new_hub policy)"
  by (simp add: hub_ok_def new_hub_def)

section \<open>Properties of the hub\<close>

text \<open>
  C23: A connection routes to exactly one client and back. After any sequence of calls, the client a
  connection is bound to exists, is not waiting to reconnect, is the client whose context the
  connection yields, is delivered to over that same connection, and has no other connection.
\<close>

theorem connection_routes_both_ways:
  assumes "connections (foldl hub_step (new_hub policy) evs) conn = Some k"
  defines "h \<equiv> foldl hub_step (new_hub policy) evs"
  shows "\<exists>ctx d. context_for_connection conn h = Some ctx \<and> client_by_instance k h = Some ctx
     \<and> client_instance_id ctx = k \<and> connection_id ctx = conn
     \<and> delivery_for h k = Some d \<and> delivery_connection d = conn
     \<and> map_option reconnect_expires_at (map_of (clients h) k) = Some None
     \<and> {c. connections h c = Some k} = {conn}"
proof -
  have ok: "hub_ok h" unfolding h_def by (rule hub.run_keeps [OF hub_ok_new])
  have conn: "connections h conn = Some k" using assms(1) by (simp add: h_def)
  from ok conn obtain r where r: "map_of (clients h) k = Some r" "connection_id (context_of r) = conn"
      "client_instance_id (context_of r) = k" "reconnect_expires_at r = None"
    by (rule hub_ok_connected)
  have "c = conn" if "connections h c = Some k" for c
  proof -
    from ok that obtain r' where "map_of (clients h) k = Some r'" "connection_id (context_of r') = c"
      by (rule hub_ok_connected)
    with r show ?thesis by simp
  qed
  with conn have "{c. connections h c = Some k} = {conn}" by blast
  with conn r show ?thesis
    by (simp add: context_for_connection_def client_by_instance_def delivery_for_def)
qed

definition demo_params :: "string \<Rightarrow> initialize_params" where
  "demo_params k = \<lparr>init_client_instance_id = k,
     init_shell = \<lparr>shell_kind = Web, shell_name = None, shell_version = None\<rparr>,
     init_requested_surface = HomeSurface,
     init_capabilities = \<lparr>protocol_caps = [PermissionResponses], shell_caps = [OpenExternal]\<rparr>,
     init_protocol_version = None, init_role = Interactive\<rparr>"

definition demo_policy :: client_liveness_policy where
  "demo_policy = \<lparr>reconnect_grace_ms = 100, heartbeat_timeout_ms = 50\<rparr>"

theorem connection_routes_both_ways_witness:
  "\<exists>ctx. context_for_connection ''c2'' (foldl hub_step (new_hub demo_policy)
       [InitializeEv ''c1'' (demo_params ''A'') 0, InitializeEv ''c2'' (demo_params ''A'') 5]) = Some ctx
     \<and> client_instance_id ctx = ''A'' \<and> connection_id ctx = ''c2''"
proof -
  have "connections (foldl hub_step (new_hub demo_policy)
       [InitializeEv ''c1'' (demo_params ''A'') 0, InitializeEv ''c2'' (demo_params ''A'') 5]) ''c2'' = Some ''A''"
    by (simp add: initialize_def Let_def demo_params_def)
  from connection_routes_both_ways [OF this] show ?thesis by blast
qed

section \<open>Signs of life\<close>

text \<open>
  A run with the time of each client's last sign of life: its initialization, activity on its
  connection, or the observed closing of its connection. Events carry their own times.
\<close>

fun event_time :: "hub_event \<Rightarrow> nat option" where
  "event_time (InitializeEv _ _ now) = Some now"
| "event_time (CapabilitiesEv _ _) = None"
| "event_time (ClosedEv _ now) = Some now"
| "event_time (ActivityEv _ now) = Some now"
| "event_time (ExpireOneEv _ now) = Some now"
| "event_time (ExpireAllEv now) = Some now"
| "event_time (DetachEv _) = None"

fun seen_client :: "client_hub \<Rightarrow> hub_event \<Rightarrow> string option" where
  "seen_client h (InitializeEv _ params _) = Some (init_client_instance_id params)"
| "seen_client h (ClosedEv conn _) = connections h conn"
| "seen_client h (ActivityEv conn _) = connections h conn"
| "seen_client h _ = None"

definition note_seen :: "client_hub \<Rightarrow> hub_event \<Rightarrow> (string \<Rightarrow> nat) \<Rightarrow> string \<Rightarrow> nat" where
  "note_seen h ev seen =
     (case (seen_client h ev, event_time ev) of
        (Some k, Some now) \<Rightarrow> seen(k := now)
      | _ \<Rightarrow> seen)"

text \<open>The hub, the last signs of life and the time reached.\<close>

fun timed_run :: "client_hub \<Rightarrow> (string \<Rightarrow> nat) \<Rightarrow> nat \<Rightarrow> hub_event list \<Rightarrow> client_hub \<times> (string \<Rightarrow> nat) \<times> nat" where
  "timed_run h seen clock [] = (h, seen, clock)"
| "timed_run h seen clock (ev # evs) =
     timed_run (hub_step h ev) (note_seen h ev seen)
       (case event_time ev of None \<Rightarrow> clock | Some now \<Rightarrow> now) evs"

text \<open>The clock never runs backwards and no deadline passes the width of a \<open>u64\<close>.\<close>

fun clock_ok :: "client_liveness_policy \<Rightarrow> nat \<Rightarrow> hub_event list \<Rightarrow> bool" where
  "clock_ok policy clock [] = True"
| "clock_ok policy clock (ev # evs) =
     (case event_time ev of
        None \<Rightarrow> clock_ok policy clock evs
      | Some now \<Rightarrow> clock \<le> now \<and> now + heartbeat_timeout_ms policy + reconnect_grace_ms policy < two64
          \<and> clock_ok policy now evs)"

definition life_ok :: "client_hub \<Rightarrow> (string \<Rightarrow> nat) \<Rightarrow> nat \<Rightarrow> bool" where
  "life_ok h seen clock \<longleftrightarrow>
     (\<forall>k r. map_of (clients h) k = Some r \<longrightarrow>
        seen k \<le> clock
        \<and> (reconnect_expires_at r = None \<longrightarrow> seen k + heartbeat_timeout_ms (liveness_policy h) \<le> liveness_expires_at r)
        \<and> (\<forall>e. reconnect_expires_at r = Some e \<longrightarrow> seen k + reconnect_grace_ms (liveness_policy h) \<le> e))"

definition alive_ok :: "client_liveness_policy \<Rightarrow> nat \<Rightarrow> nat \<Rightarrow> client_record \<Rightarrow> bool" where
  "alive_ok policy seen clock r \<longleftrightarrow>
     seen \<le> clock
     \<and> (reconnect_expires_at r = None \<longrightarrow> seen + heartbeat_timeout_ms policy \<le> liveness_expires_at r)
     \<and> (\<forall>e. reconnect_expires_at r = Some e \<longrightarrow> seen + reconnect_grace_ms policy \<le> e)"

lemma life_ok_alt:
  "life_ok h seen clock \<longleftrightarrow>
     (\<forall>k r. map_of (clients h) k = Some r \<longrightarrow> alive_ok (liveness_policy h) (seen k) clock r)"
  by (simp add: life_ok_def alive_ok_def)

lemma alive_ok_later: "alive_ok policy seen clock r \<Longrightarrow> clock \<le> now \<Longrightarrow> alive_ok policy seen now r"
  by (auto simp: alive_ok_def)

text \<open>A step whose records are old records, or fresh ones that satisfy the invariant.\<close>

lemma life_ok_step:
  assumes "life_ok h seen clock" "clock \<le> now" "liveness_policy h' = liveness_policy h"
    and "\<And>k r. map_of (clients h') k = Some r \<Longrightarrow>
        (map_of (clients h) k = Some r \<and> seen' k = seen k) \<or> alive_ok (liveness_policy h) (seen' k) now r"
  shows "life_ok h' seen' now"
  unfolding life_ok_alt assms(3)
proof (intro allI impI)
  fix k r assume "map_of (clients h') k = Some r"
  from assms(4) [OF this] assms(1) show "alive_ok (liveness_policy h) (seen' k) now r"
    by (auto simp: life_ok_alt intro: alive_ok_later [OF _ assms(2)])
qed

lemma expire_inactive_lookup:
  assumes "keys_distinct (clients h)" "map_of (clients (snd (expire_inactive_clients now h))) k = Some r"
  shows "map_of (clients h) k = Some r \<or>
     (\<exists>r0. map_of (clients h) k = Some r0 \<and> r = r0\<lparr>reconnect_expires_at := Some (u64_add now (reconnect_grace_ms (liveness_policy h)))\<rparr>)"
  using assms(2)
  by (auto simp: expire_inactive_clients_def Let_def foldl_remove_client foldl_enter_grace split: if_splits)

lemma policy_kept: "liveness_policy (hub_step h ev) = liveness_policy h"
proof -
  have "liveness_policy (foldl (\<lambda>hub k. remove_client k hub) h0 ks) = liveness_policy h0" for h0 ks
    by (induction ks arbitrary: h0) (simp_all add: remove_client_def)
  then show ?thesis
    by (cases ev)
       (simp_all add: initialize_def update_capabilities_def observe_transport_closed_def
          observe_connection_activity_def expire_after_grace_def expire_inactive_clients_def detach_def
          remove_client_def foldl_enter_grace Let_def split: option.split)
qed

lemma life_ok_hub_step:
  assumes "life_ok h seen clock" "hub_ok h"
    and "case event_time ev of None \<Rightarrow> now = clock
         | Some t \<Rightarrow> now = t \<and> clock \<le> t
             \<and> t + heartbeat_timeout_ms (liveness_policy h) + reconnect_grace_ms (liveness_policy h) < two64"
  shows "life_ok (hub_step h ev) (note_seen h ev seen) now"
proof (rule life_ok_step [OF assms(1)])
  show "clock \<le> now" using assms(3) by (auto split: option.splits)
  show "liveness_policy (hub_step h ev) = liveness_policy h" by (rule policy_kept)
  have old: "alive_ok (liveness_policy h) (seen k) clock r" if "map_of (clients h) k = Some r" for k r
    using assms(1) that by (simp add: life_ok_alt)
  show "(map_of (clients h) k = Some r \<and> note_seen h ev seen k = seen k)
      \<or> alive_ok (liveness_policy h) (note_seen h ev seen k) now r"
    if r: "map_of (clients (hub_step h ev)) k = Some r" for k r
  proof (cases ev)
    case (InitializeEv conn params t)
    with r assms(3) show ?thesis
      by (auto simp: initialize_def Let_def alist_simps note_seen_def alive_ok_def u64_simps split: if_splits)
  next
    case (CapabilitiesEv j caps)
    with r old assms(3) show ?thesis
      by (fastforce simp: update_capabilities_def Let_def alist_simps note_seen_def alive_ok_def
          split: option.splits if_splits)
  next
    case (ClosedEv conn t)
    with r assms(3) show ?thesis
      by (auto simp: observe_transport_closed_def Let_def alist_simps note_seen_def alive_ok_def u64_simps
          split: option.splits if_splits)
  next
    case (ActivityEv conn t)
    show ?thesis
    proof (cases "connections h conn")
      case None
      with ActivityEv r show ?thesis by (simp add: observe_connection_activity_def note_seen_def)
    next
      case (Some j)
      with assms(2) obtain r0 where "map_of (clients h) j = Some r0" "reconnect_expires_at r0 = None"
        by (auto elim: hub_ok_connected)
      with Some ActivityEv r assms(3) show ?thesis
        by (auto simp: observe_connection_activity_def alist_simps note_seen_def alive_ok_def u64_simps split: if_splits)
    qed
  next
    case (ExpireOneEv j t)
    with r show ?thesis
      by (auto simp: expire_after_grace_def Let_def remove_client_def alist_simps note_seen_def
          split: option.splits if_splits)
  next
    case (ExpireAllEv t)
    with r expire_inactive_lookup [OF hub_ok_distinct [OF assms(2)], of t k r] old [of k] assms(3) show ?thesis
      by (fastforce simp: note_seen_def alive_ok_def u64_simps)
  next
    case (DetachEv j)
    with r show ?thesis
      by (auto simp: detach_def Let_def remove_client_def alist_simps note_seen_def split: option.splits if_splits)
  qed
qed

lemma timed_run_life:
  assumes "life_ok h seen clock" "hub_ok h" "clock_ok (liveness_policy h) clock evs"
    and "timed_run h seen clock evs = (h', seen', clock')"
  shows "life_ok h' seen' clock' \<and> hub_ok h' \<and> liveness_policy h' = liveness_policy h"
  using assms
proof (induction evs arbitrary: h seen clock)
  case Nil
  then show ?case by simp
next
  case (Cons ev evs)
  let ?now = "case event_time ev of None \<Rightarrow> clock | Some now \<Rightarrow> now"
  have "life_ok (hub_step h ev) (note_seen h ev seen) ?now"
    using Cons.prems by (intro life_ok_hub_step [of h seen clock]) (auto split: option.splits)
  moreover have "clock_ok (liveness_policy (hub_step h ev)) ?now evs"
    using Cons.prems(3) by (simp add: policy_kept split: option.splits)
  ultimately show ?case
    using Cons.IH [of "hub_step h ev" "note_seen h ev seen" ?now] Cons.prems(2,4) hub_step_ok
    by (simp add: policy_kept)
qed

text \<open>Which clients a sweep moves into the grace period and which it removes.\<close>

definition grace_end :: "nat \<Rightarrow> client_hub \<Rightarrow> nat" where
  "grace_end now h = u64_add now (reconnect_grace_ms (liveness_policy h))"

definition silent :: "nat \<Rightarrow> client_record \<Rightarrow> bool" where
  "silent now r \<longleftrightarrow> reconnect_expires_at r = None \<and> liveness_expires_at r \<le> now"

definition overdue :: "nat \<Rightarrow> client_record \<Rightarrow> bool" where
  "overdue now r = (case reconnect_expires_at r of None \<Rightarrow> False | Some e \<Rightarrow> e \<le> now)"

definition swept :: "nat \<Rightarrow> client_hub \<Rightarrow> client_hub" where
  "swept now h = foldl (enter_grace (grace_end now h)) h (map fst (filter (\<lambda>(_, r). silent now r) (clients h)))"

lemma expire_inactive_unfold:
  "expire_inactive_clients now h =
     (let entered = map fst (filter (\<lambda>(_, r). silent now r) (clients h));
          gone = map fst (filter (\<lambda>(_, r). overdue now r) (clients (swept now h)));
          h2 = foldl (\<lambda>hub k. remove_client k hub) (swept now h) gone
      in (\<lparr>entered_reconnect_grace = map (\<lambda>k. (k, grace_end now h)) entered, expired = gone,
           last_client_expired = (gone \<noteq> [] \<and> clients h2 = [])\<rparr>, h2))"
  by (simp add: expire_inactive_clients_def Let_def swept_def silent_def overdue_def grace_end_def)

lemma entered_iff:
  assumes "hub_ok h"
  shows "(k, e) \<in> set (entered_reconnect_grace (fst (expire_inactive_clients now h)))
    \<longleftrightarrow> e = grace_end now h \<and> (\<exists>r. map_of (clients h) k = Some r \<and> silent now r)"
proof -
  have "(k, e) \<in> set (entered_reconnect_grace (fst (expire_inactive_clients now h)))
      \<longleftrightarrow> e = grace_end now h \<and> k \<in> set (map fst (filter (\<lambda>(_, r). silent now r) (clients h)))"
    by (auto simp: expire_inactive_unfold Let_def)
  then show ?thesis by (simp only: fst_filter_lookup [OF hub_ok_distinct [OF assms]])
qed

lemma swept_lookup:
  assumes "hub_ok h"
  shows "map_of (clients (swept now h)) k =
     map_option (\<lambda>r. if silent now r then r\<lparr>reconnect_expires_at := Some (grace_end now h)\<rparr> else r) (map_of (clients h) k)"
proof (cases "map_of (clients h) k")
  case (Some r)
  have "k \<in> set (map fst (filter (\<lambda>(_, r). silent now r) (clients h))) \<longleftrightarrow> silent now r"
    using Some by (simp only: fst_filter_lookup [OF hub_ok_distinct [OF assms]]) simp
  with Some show ?thesis by (simp only: swept_def foldl_enter_grace) simp
qed (simp add: swept_def foldl_enter_grace)

lemma expired_iff:
  assumes "hub_ok h"
  shows "k \<in> set (expired (fst (expire_inactive_clients now h))) \<longleftrightarrow>
    (\<exists>r. map_of (clients h) k = Some r \<and> (if silent now r then grace_end now h \<le> now else overdue now r))"
proof -
  have ok: "hub_ok (swept now h)"
    unfolding swept_def by (rule foldl_keeps [OF assms hub_ok_enter_grace])
  have "k \<in> set (expired (fst (expire_inactive_clients now h)))
      \<longleftrightarrow> k \<in> set (map fst (filter (\<lambda>(_, r). overdue now r) (clients (swept now h))))"
    by (simp add: expire_inactive_unfold Let_def)
  also have "\<dots> \<longleftrightarrow> (\<exists>r. map_of (clients (swept now h)) k = Some r \<and> overdue now r)"
    by (simp only: fst_filter_lookup [OF hub_ok_distinct [OF ok]])
  also have "\<dots> \<longleftrightarrow> (\<exists>r. map_of (clients h) k = Some r \<and> (if silent now r then grace_end now h \<le> now else overdue now r))"
    by (cases "map_of (clients h) k") (simp_all add: swept_lookup [OF assms] overdue_def)
  finally show ?thesis .
qed

lemma expire_inactive_keeps:
  assumes "hub_ok h"
  shows "map_of (clients (snd (expire_inactive_clients now h))) k = None
    \<longleftrightarrow> map_of (clients h) k = None \<or> k \<in> set (expired (fst (expire_inactive_clients now h)))"
  by (simp add: expire_inactive_unfold Let_def foldl_remove_client swept_lookup [OF assms])

text \<open>
  C18: Clients are not dropped early. In any run whose clock does not run backwards, a sweep of
  inactive clients at a later time removes only clients whose last sign of life is at least the
  reconnect grace ago, starts the grace only for clients silent for at least the heartbeat timeout,
  gives each of those a grace that ends one grace period later, and keeps every other client; and
  the expiry of a single client removes it only after its grace as well.
\<close>

theorem expiry_respects_grace:
  assumes "clock_ok policy 0 evs" "timed_run (new_hub policy) (\<lambda>_. 0) 0 evs = (h, seen, clock)"
    and "clock \<le> now" "now + heartbeat_timeout_ms policy + reconnect_grace_ms policy < two64"
  shows "(case expire_inactive_clients now h of (batch, h') \<Rightarrow>
       list_all (\<lambda>k. seen k + reconnect_grace_ms policy \<le> now) (expired batch)
     \<and> list_all (\<lambda>(k, e). seen k + heartbeat_timeout_ms policy \<le> now \<and> e = now + reconnect_grace_ms policy)
         (entered_reconnect_grace batch)
     \<and> (\<forall>k. map_of (clients h') k = None \<longleftrightarrow> map_of (clients h) k = None \<or> k \<in> set (expired batch)))
     \<and> (\<forall>k. case fst (expire_after_grace k now h) of
           Expired _ _ \<Rightarrow> seen k + reconnect_grace_ms policy \<le> now
         | _ \<Rightarrow> True)"
proof -
  have "life_ok (new_hub policy) (\<lambda>_. 0) 0" by (simp add: life_ok_def new_hub_def)
  moreover have "clock_ok (liveness_policy (new_hub policy)) 0 evs" using assms(1) by (simp add: new_hub_def)
  ultimately have run: "life_ok h seen clock" "hub_ok h" "liveness_policy h = policy"
    using timed_run_life [OF _ hub_ok_new _ assms(2)] by (simp_all add: new_hub_def)
  have alive: "alive_ok policy (seen k) clock r" if "map_of (clients h) k = Some r" for k r
    using run that by (simp add: life_ok_alt)
  have grace: "grace_end now h = now + reconnect_grace_ms policy"
    using assms(4) run(3) by (simp add: grace_end_def u64_simps)
  obtain batch h' where b: "expire_inactive_clients now h = (batch, h')" by fastforce
  have "seen k + reconnect_grace_ms policy \<le> now" if "k \<in> set (expired batch)" for k
    using that expired_iff [OF run(2), of k now] alive assms(3)
    by (fastforce simp: b grace alive_ok_def overdue_def split: if_splits option.splits)
  moreover have "seen k + heartbeat_timeout_ms policy \<le> now \<and> e = now + reconnect_grace_ms policy"
    if "(k, e) \<in> set (entered_reconnect_grace batch)" for k e
    using that entered_iff [OF run(2), of k e now] alive by (fastforce simp: b grace alive_ok_def silent_def)
  moreover have "case fst (expire_after_grace k now h) of
      Expired _ _ \<Rightarrow> seen k + reconnect_grace_ms policy \<le> now | _ \<Rightarrow> True" for k
    using alive [of k] by (auto simp: expire_after_grace_def alive_ok_def Let_def split: option.splits)
  ultimately show ?thesis
    using expire_inactive_keeps [OF run(2), of now] by (auto simp: b list_all_iff)
qed

theorem expiry_respects_grace_witness:
  "case timed_run (new_hub demo_policy) (\<lambda>_. 0) 0
      [InitializeEv ''c1'' (demo_params ''A'') 0, InitializeEv ''c2'' (demo_params ''B'') 10, ExpireAllEv 55,
       ActivityEv ''c2'' 56] of (h, seen, clock) \<Rightarrow>
     (case expire_inactive_clients 160 h of (batch, h') \<Rightarrow>
        expired batch = [''A''] \<and> list_all (\<lambda>k. seen k + 100 \<le> 160) (expired batch))"
proof -
  let ?evs = "[InitializeEv ''c1'' (demo_params ''A'') 0, InitializeEv ''c2'' (demo_params ''B'') 10, ExpireAllEv 55,
       ActivityEv ''c2'' 56]"
  obtain h seen clock where run: "timed_run (new_hub demo_policy) (\<lambda>_. 0) 0 ?evs = (h, seen, clock)"
    using prod_cases3 by blast
  have "clock_ok demo_policy 0 ?evs" by (simp add: demo_policy_def)
  moreover have "clock \<le> 160" "expired (fst (expire_inactive_clients 160 h)) = [''A'']"
    using run
    by (auto simp: initialize_def expire_inactive_clients_def observe_connection_activity_def Let_def
        demo_params_def demo_policy_def new_hub_def u64_add_def enter_grace_def without_client_def)
  moreover have "160 + heartbeat_timeout_ms demo_policy + reconnect_grace_ms demo_policy < two64"
    by (simp add: demo_policy_def)
  ultimately show ?thesis
    using expiry_respects_grace [OF _ run, of 160] run by (auto simp: demo_policy_def split: prod.splits)
qed

section \<open>The lifecycle of the server\<close>

datatype lifecycle_event = AdmitEv | DrainEv | StopEv | ShutdownEv

datatype lifecycle_answer = Admission initialize_admission | NoAnswer | Shutdown shutdown_request_outcome

fun lifecycle_step :: "lifecycle_state \<Rightarrow> lifecycle_event \<Rightarrow> lifecycle_answer \<times> lifecycle_state" where
  "lifecycle_step s AdmitEv = (case admit_initialize s of (a, s') \<Rightarrow> (Admission a, s'))"
| "lifecycle_step s DrainEv = (NoAnswer, begin_draining s)"
| "lifecycle_step s StopEv = (NoAnswer, begin_stopping s)"
| "lifecycle_step s ShutdownEv = (case request_shutdown s of (a, s') \<Rightarrow> (Shutdown a, s'))"

fun lifecycle_run :: "lifecycle_state \<Rightarrow> lifecycle_event list \<Rightarrow> lifecycle_answer list \<times> lifecycle_state" where
  "lifecycle_run s [] = ([], s)"
| "lifecycle_run s (ev # evs) =
     (case lifecycle_step s ev of (a, s') \<Rightarrow> (case lifecycle_run s' evs of (as, s'') \<Rightarrow> (a # as, s'')))"

fun planned :: "lifecycle_answer \<Rightarrow> bool" where
  "planned (Shutdown (ShutdownPlanned _)) = True"
| "planned _ = False"

fun admitted :: "lifecycle_answer \<Rightarrow> bool" where
  "admitted (Admission AdmissionRejected) = False"
| "admitted (Admission _) = True"
| "admitted _ = False"

lemma stopping_is_final:
  "snd (lifecycle_run Stopping evs) = Stopping \<and> \<not> list_ex planned (fst (lifecycle_run Stopping evs))
     \<and> \<not> list_ex admitted (fst (lifecycle_run Stopping evs))"
proof (induction evs)
  case (Cons ev evs)
  then show ?case
    by (cases ev) (auto simp: begin_draining_def begin_stopping_def request_shutdown_def split: prod.splits)
qed simp

lemma planned_stops: "planned a \<Longrightarrow> lifecycle_step s ev = (a, s') \<Longrightarrow> s' = Stopping"
  by (cases ev; cases s) (auto simp: request_shutdown_def)

text \<open>
  C37: The server plans its shutdown at most once, and from then on admits no client: in every run
  of the lifecycle at most one shutdown request is answered with a plan, no client initialization
  after it is accepted, and the server ends in the stopping state whenever a stop or a shutdown was
  requested.
\<close>

theorem shutdown_planned_once:
  "length (filter planned (fst (lifecycle_run s evs))) \<le> 1
   \<and> (\<forall>before after a. fst (lifecycle_run s evs) = before @ a # after \<and> planned a \<longrightarrow> \<not> list_ex admitted after)
   \<and> (StopEv \<in> set evs \<or> ShutdownEv \<in> set evs \<longrightarrow> snd (lifecycle_run s evs) = Stopping)"
proof (induction evs arbitrary: s)
  case Nil
  then show ?case by simp
next
  case (Cons ev evs)
  obtain a s' where step: "lifecycle_step s ev = (a, s')" by fastforce
  obtain as s'' where rest: "lifecycle_run s' evs = (as, s'')" by fastforce
  have run: "lifecycle_run s (ev # evs) = (a # as, s'')" by (simp add: step rest)
  have IH: "length (filter planned as) \<le> 1"
      "\<And>before after a. as = before @ a # after \<Longrightarrow> planned a \<Longrightarrow> \<not> list_ex admitted after"
      "StopEv \<in> set evs \<or> ShutdownEv \<in> set evs \<Longrightarrow> s'' = Stopping"
    using Cons.IH [of s'] by (auto simp: rest)
  have stop: "s'' = Stopping \<and> \<not> list_ex planned as \<and> \<not> list_ex admitted as" if "s' = Stopping"
    using stopping_is_final [of evs] that rest by simp
  have "s' = Stopping" if "ev = StopEv \<or> ev = ShutdownEv"
    using that step by (auto simp: begin_stopping_def request_shutdown_def split: if_splits)
  moreover have "length (filter planned (a # as)) \<le> 1"
    using IH(1) stop planned_stops [OF _ step] by (auto simp: list_ex_iff filter_empty_conv)
  moreover have "\<not> list_ex admitted after" if "a # as = before @ b # after" "planned b" for before after b
    using that IH(2) stop planned_stops [OF _ step] by (cases before) auto
  ultimately show ?case
    unfolding run using IH(3) stop by auto
qed

theorem shutdown_planned_once_witness:
  "filter planned (fst (lifecycle_run Running [DrainEv, AdmitEv, ShutdownEv, AdmitEv, ShutdownEv])) \<noteq> []
   \<and> length (filter planned (fst (lifecycle_run Running [DrainEv, AdmitEv, ShutdownEv, AdmitEv, ShutdownEv]))) \<le> 1
   \<and> snd (lifecycle_run Running [DrainEv, AdmitEv, ShutdownEv, AdmitEv, ShutdownEv]) = Stopping"
  using shutdown_planned_once [of Running "[DrainEv, AdmitEv, ShutdownEv, AdmitEv, ShutdownEv]"]
  by (simp add: begin_draining_def request_shutdown_def)

end
