(* ===== verification/Json_Value.thy ===== *)
theory Json_Value
  imports Prelude
begin

text \<open>
  JSON values as the server passes them around (\<open>serde_json::Value\<close>): a number is kept as its
  text, an object as its members in order, read with the first member of a key. Optional members
  that a serializer leaves out (\<open>skip_serializing_if = "Option::is_none"\<close>) are \<open>opt_member\<close>; the
  \<open>json!\<close> macro writes them as null, which is \<open>nullable\<close>.
\<close>

datatype json =
    JNull
  | JBool bool
  | JNumber string
  | JString string
  | JArray "json list"
  | JObject "(string \<times> json) list"

fun json_get :: "string \<Rightarrow> json \<Rightarrow> json option" where
  "json_get key (JObject members) = map_of members key"
| "json_get key _ = None"

fun json_as_str :: "json \<Rightarrow> string option" where
  "json_as_str (JString s) = Some s"
| "json_as_str _ = None"

definition opt_member :: "string \<Rightarrow> string option \<Rightarrow> (string \<times> json) list" where
  "opt_member key v = (case v of None \<Rightarrow> [] | Some s \<Rightarrow> [(key, JString s)])"

definition nullable :: "string option \<Rightarrow> json" where
  "nullable v = (case v of None \<Rightarrow> JNull | Some s \<Rightarrow> JString s)"

end
