(* ===== verification/Request_Broker.thy ===== *)
theory Request_Broker
  imports Client_Lifecycle Json_Value
begin

text \<open>
  The broker of requests the server sends to its clients
  (\<open>src/openaide-rs/app-server/src/server_requests\<close>: \<open>types.rs\<close>, \<open>records.rs\<close>, \<open>broker.rs\<close>,
  \<open>lifecycle.rs\<close>). The tables of requests and of available responders are iterated by the source
  and are association lists; the responders of one request are a map. The decoding of parameters
  (\<open>serde_json::from_value\<close> at a protocol type) and the wall clock are arguments; times, which the
  broker ignores, are left out.
\<close>

section \<open>Types\<close>

datatype pending_request_scope = ClientRequest string | TaskRequest string

datatype pending_request_kind = PermissionKind | QuestionKind | SecretKind | ShellCapabilityKind

record ('perm, 'form) pending_request_snapshot =
  request_id :: string
  request_scope :: pending_request_scope
  kind :: pending_request_kind
  title :: string
  permission :: "'perm option"
  question :: "'form option"
  created_at :: "string option"

record server_request_draft =
  draft_scope :: pending_request_scope
  draft_method :: string
  draft_title :: string
  draft_params :: json

record server_request_envelope =
  envelope_request_id :: string
  envelope_scope :: pending_request_scope
  envelope_method :: string
  envelope_params :: json

record server_request_delivery =
  request_delivery :: delivery
  envelope :: server_request_envelope

datatype request_unavailable_reason = NoEligibleResponder | CapabilityUnavailable | UnsupportedMethod

datatype ('perm, 'form) open_request_outcome =
    Opened "('perm, 'form) pending_request_snapshot" "server_request_delivery list"
  | Unavailable request_unavailable_reason

datatype server_request_answer = AnswerResult json | AnswerInvalid string

datatype response_outcome =
    Accepted string pending_request_scope string json
  | InvalidResponse string string string
  | AlreadyResolved string
  | UnknownRequest string
  | UnauthorizedResponder string string
  | StaleRequest string string
  | InterruptedRequest string

datatype request_lifecycle_outcome = LifecycleInterrupted string pending_request_scope

datatype responder_scope = ClientResponder string | TaskResponder string

section \<open>Records\<close>

datatype responder_state = Eligible | Delivered | Stale

datatype request_status = Pending | Resolved | Interrupted

record ('perm, 'form) pending_record =
  snapshot_of :: "('perm, 'form) pending_request_snapshot"
  request_method :: string
  request_params :: json
  responders :: "string \<Rightarrow> responder_state option"
  status :: request_status

definition new_record ::
  "('perm, 'form) pending_request_snapshot \<Rightarrow> string \<Rightarrow> json \<Rightarrow> string list \<Rightarrow> ('perm, 'form) pending_record" where
  "new_record snap m ps cs =
     \<lparr>snapshot_of = snap, request_method = m, request_params = ps,
      responders = map_of (map (\<lambda>c. (c, Eligible)) cs), status = Pending\<rparr>"

definition mark_responder_eligible ::
  "string \<Rightarrow> ('perm, 'form) pending_record \<Rightarrow> ('perm, 'form) pending_record" where
  "mark_responder_eligible c r = r\<lparr>responders := (responders r)(c := Some Eligible)\<rparr>"

definition mark_responder_delivered ::
  "string \<Rightarrow> ('perm, 'form) pending_record \<Rightarrow> ('perm, 'form) pending_record" where
  "mark_responder_delivered c r = r\<lparr>responders := (responders r)(c := Some Delivered)\<rparr>"

definition mark_responder_stale ::
  "string \<Rightarrow> ('perm, 'form) pending_record \<Rightarrow> ('perm, 'form) pending_record" where
  "mark_responder_stale c r =
     (if responders r c \<noteq> None then r\<lparr>responders := (responders r)(c := Some Stale)\<rparr> else r)"

definition can_deliver_to :: "string \<Rightarrow> ('perm, 'form) pending_record \<Rightarrow> bool" where
  "can_deliver_to c r = (responders r c \<noteq> Some Delivered)"

definition record_matches_responder ::
  "string \<Rightarrow> responder_scope list \<Rightarrow> ('perm, 'form) pending_record \<Rightarrow> bool" where
  "record_matches_responder c scopes r =
     (case request_scope (snapshot_of r) of
        ClientRequest target \<Rightarrow> target = c \<and> ClientResponder target \<in> set scopes
      | TaskRequest task_id \<Rightarrow>
          if request_method r = PERMISSION_REQUEST \<or> request_method r = QUESTION_REQUEST
          then ClientResponder c \<in> set scopes
          else TaskResponder task_id \<in> set scopes)"

section \<open>The broker\<close>

record available_responder =
  responder_delivery :: delivery
  responder_scopes :: "responder_scope list"

record ('perm, 'form) server_request_broker =
  next_request_id :: nat
  records :: "(string \<times> ('perm, 'form) pending_record) list"
  available_responders :: "(string \<times> available_responder) list"

definition new_broker :: "('perm, 'form) server_request_broker" where
  "new_broker = \<lparr>next_request_id = 1, records = [], available_responders = []\<rparr>"

definition SHELL_AUTH_TERMINAL :: string where
  "SHELL_AUTH_TERMINAL = ''shell/authTerminal''"

definition is_auth_terminal_exchange :: "string \<Rightarrow> ('perm, 'form) server_request_broker \<Rightarrow> bool" where
  "is_auth_terminal_exchange rid b =
     (case map_of (records b) rid of None \<Rightarrow> False | Some r \<Rightarrow> request_method r = SHELL_AUTH_TERMINAL)"

definition forget_auth_terminal_exchange ::
  "string \<Rightarrow> ('perm, 'form) server_request_broker \<Rightarrow> ('perm, 'form) server_request_broker" where
  "forget_auth_terminal_exchange rid b =
     (if is_auth_terminal_exchange rid b then b\<lparr>records := AList.delete rid (records b)\<rparr> else b)"

text \<open>\<open>method.starts_with(prefix)\<close>.\<close>

definition starts_with :: "string \<Rightarrow> string \<Rightarrow> bool" where
  "starts_with p s = (take (length p) s = p)"

definition classify_request_method :: "string \<Rightarrow> pending_request_kind option" where
  "classify_request_method m =
     (if starts_with ''permission/'' m then Some PermissionKind
      else if starts_with ''question/'' m then Some QuestionKind
      else if starts_with ''secret/'' m then Some SecretKind
      else if starts_with ''shell/'' m then Some ShellCapabilityKind
      else None)"

definition filter_eligible_deliveries :: "pending_request_scope \<Rightarrow> string \<Rightarrow> delivery list \<Rightarrow> delivery list" where
  "filter_eligible_deliveries sc m ds =
     filter (supports_method m)
       (case sc of
          ClientRequest c \<Rightarrow> filter (\<lambda>d. delivery_client d = c) ds
        | TaskRequest _ \<Rightarrow> ds)"

definition scope_matches_responder ::
  "pending_request_scope \<Rightarrow> string \<Rightarrow> string \<Rightarrow> responder_scope list \<Rightarrow> bool" where
  "scope_matches_responder sc m c scopes =
     record_matches_responder c scopes
       (new_record \<lparr>request_id = ''capability-check'', request_scope = sc, kind = PermissionKind, title = '''',
                    permission = None :: unit option, question = None :: unit option, created_at = None\<rparr>
          m JNull [])"

text \<open>The two snapshots of decoded parameters; \<open>decode\<close> is \<open>from_value(params).ok()\<close>.\<close>

definition question_snapshot :: "(json \<Rightarrow> 'form option) \<Rightarrow> string \<Rightarrow> json \<Rightarrow> 'form option" where
  "question_snapshot decode m ps = (if m \<noteq> QUESTION_REQUEST then None else decode ps)"

definition permission_snapshot :: "(json \<Rightarrow> 'perm option) \<Rightarrow> string \<Rightarrow> json \<Rightarrow> 'perm option" where
  "permission_snapshot decode m ps = (if m \<noteq> PERMISSION_REQUEST then None else decode ps)"

definition allocate_request_id ::
  "('perm, 'form) server_request_broker \<Rightarrow> string \<times> ('perm, 'form) server_request_broker" where
  "allocate_request_id b =
     (''server-request-'' @ dec_string (next_request_id b), b\<lparr>next_request_id := u64_add (next_request_id b) 1\<rparr>)"

text \<open>The loop of \<open>open\<close> that registers each eligible delivery as a responder.\<close>

definition register_delivery ::
  "pending_request_scope \<Rightarrow> delivery \<Rightarrow> (string \<times> available_responder) list \<Rightarrow> (string \<times> available_responder) list" where
  "register_delivery sc d rs =
     (let entry = (case map_of rs (delivery_client d) of
            None \<Rightarrow> \<lparr>responder_delivery = d, responder_scopes = [ClientResponder (delivery_client d)]\<rparr>
          | Some r \<Rightarrow> r);
          renewed = entry\<lparr>responder_delivery := d\<rparr>;
          scoped = (case sc of
              TaskRequest t \<Rightarrow>
                if TaskResponder t \<in> set (responder_scopes renewed) then renewed
                else renewed\<lparr>responder_scopes := responder_scopes renewed @ [TaskResponder t]\<rparr>
            | ClientRequest _ \<Rightarrow> renewed)
      in AList.update (delivery_client d) scoped rs)"

text \<open>\<open>Iterator::scan\<close> with the set of clients seen: iteration ends at the first repeated client.\<close>

fun scan_unseen :: "string set \<Rightarrow> delivery list \<Rightarrow> delivery list" where
  "scan_unseen seen [] = []"
| "scan_unseen seen (d # ds) =
     (if delivery_client d \<in> seen then [] else d # scan_unseen (insert (delivery_client d) seen) ds)"

definition build_delivery :: "string \<Rightarrow> ('perm, 'form) pending_record \<Rightarrow> delivery \<Rightarrow> server_request_delivery" where
  "build_delivery rid r d =
     \<lparr>request_delivery = d,
      envelope = \<lparr>envelope_request_id = rid, envelope_scope = request_scope (snapshot_of r),
                  envelope_method = request_method r, envelope_params = request_params r\<rparr>\<rparr>"

definition mark_and_build_deliveries ::
  "string \<Rightarrow> delivery list \<Rightarrow> ('perm, 'form) server_request_broker
     \<Rightarrow> server_request_delivery list \<times> ('perm, 'form) server_request_broker" where
  "mark_and_build_deliveries rid ds b =
     (case map_of (records b) rid of
        None \<Rightarrow> ([], b)
      | Some r \<Rightarrow>
          let chosen = filter (\<lambda>d. can_deliver_to (delivery_client d) r) (scan_unseen {} ds);
              r' = foldl (\<lambda>r d. mark_responder_delivered (delivery_client d) r) r chosen
          in (map (build_delivery rid r) chosen, b\<lparr>records := AList.update rid r' (records b)\<rparr>))"

definition open_eligible ::
  "server_request_draft \<Rightarrow> delivery list \<Rightarrow> (string \<times> available_responder) list \<Rightarrow> delivery list" where
  "open_eligible draft eligible rs =
     eligible @ map responder_delivery
       (filter (\<lambda>r. supports_method (draft_method draft) (responder_delivery r)
            \<and> scope_matches_responder (draft_scope draft) (draft_method draft)
                (delivery_client (responder_delivery r)) (responder_scopes r)
            \<and> \<not> list_ex (\<lambda>d. delivery_client d = delivery_client (responder_delivery r)) eligible)
         (map snd rs))"

definition open_request ::
  "(json \<Rightarrow> 'perm option) \<Rightarrow> (json \<Rightarrow> 'form option) \<Rightarrow> string \<Rightarrow> server_request_draft \<Rightarrow> delivery list
     \<Rightarrow> ('perm, 'form) server_request_broker
     \<Rightarrow> ('perm, 'form) open_request_outcome \<times> ('perm, 'form) server_request_broker" where
  "open_request decode_permission decode_question now_string draft ds b =
     (case classify_request_method (draft_method draft) of
        None \<Rightarrow> (Unavailable UnsupportedMethod, b)
      | Some k \<Rightarrow>
          let eligible = filter_eligible_deliveries (draft_scope draft) (draft_method draft) ds;
              b1 = b\<lparr>available_responders :=
                       foldl (\<lambda>rs d. register_delivery (draft_scope draft) d rs) (available_responders b) eligible\<rparr>;
              all_eligible = open_eligible draft eligible (available_responders b1)
          in if all_eligible = [] \<and> (case draft_scope draft of ClientRequest _ \<Rightarrow> True | TaskRequest _ \<Rightarrow> False)
             then (Unavailable NoEligibleResponder, b1)
             else (case allocate_request_id b1 of (rid, b2) \<Rightarrow>
               let snap = \<lparr>request_id = rid, request_scope = draft_scope draft, kind = k, title = draft_title draft,
                           permission = permission_snapshot decode_permission (draft_method draft) (draft_params draft),
                           question = question_snapshot decode_question (draft_method draft) (draft_params draft),
                           created_at = Some now_string\<rparr>;
                   r = new_record snap (draft_method draft) (draft_params draft) (map delivery_client all_eligible);
                   b3 = b2\<lparr>records := AList.update rid r (records b2)\<rparr>
               in (case mark_and_build_deliveries rid all_eligible b3 of
                     (out, b4) \<Rightarrow> (Opened snap out, b4))))"

definition handle_response_from_scopes ::
  "string \<Rightarrow> string \<Rightarrow> server_request_answer \<Rightarrow> responder_scope list \<Rightarrow> ('perm, 'form) server_request_broker
     \<Rightarrow> response_outcome \<times> ('perm, 'form) server_request_broker" where
  "handle_response_from_scopes c rid answer scopes b =
     (case map_of (records b) rid of
        None \<Rightarrow> (UnknownRequest rid, b)
      | Some r0 \<Rightarrow>
          let r = (if responders r0 c = None \<and> record_matches_responder c scopes r0
                   then mark_responder_eligible c r0 else r0);
              b1 = b\<lparr>records := AList.update rid r (records b)\<rparr>
          in (case responders r c of
                Some Stale \<Rightarrow> (StaleRequest rid c, b1)
              | None \<Rightarrow> (UnauthorizedResponder rid c, b1)
              | _ \<Rightarrow>
                (case status r of
                   Resolved \<Rightarrow> (AlreadyResolved rid, b1)
                 | Interrupted \<Rightarrow> (InterruptedRequest rid, b1)
                 | Pending \<Rightarrow>
                   (case answer of
                      AnswerInvalid message \<Rightarrow> (InvalidResponse rid c message, b1)
                    | AnswerResult result \<Rightarrow>
                        (Accepted rid (request_scope (snapshot_of r)) c result,
                         b1\<lparr>records := AList.update rid (r\<lparr>status := Resolved\<rparr>) (records b1)\<rparr>)))))"

definition handle_response ::
  "string \<Rightarrow> string \<Rightarrow> server_request_answer \<Rightarrow> ('perm, 'form) server_request_broker
     \<Rightarrow> response_outcome \<times> ('perm, 'form) server_request_broker" where
  "handle_response c rid answer b = handle_response_from_scopes c rid answer [] b"

definition interrupt_request ::
  "string \<Rightarrow> ('perm, 'form) server_request_broker
     \<Rightarrow> pending_request_scope option \<times> ('perm, 'form) server_request_broker" where
  "interrupt_request rid b =
     (case map_of (records b) rid of
        None \<Rightarrow> (None, b)
      | Some r \<Rightarrow>
          if status r \<noteq> Pending then (None, b)
          else (Some (request_scope (snapshot_of r)),
                b\<lparr>records := AList.update rid (r\<lparr>status := Interrupted\<rparr>) (records b)\<rparr>))"

definition resolve_request_without_responder ::
  "string \<Rightarrow> ('perm, 'form) server_request_broker
     \<Rightarrow> pending_request_scope option \<times> ('perm, 'form) server_request_broker" where
  "resolve_request_without_responder rid b =
     (case map_of (records b) rid of
        None \<Rightarrow> (None, b)
      | Some r \<Rightarrow>
          if status r \<noteq> Pending then (None, b)
          else (Some (request_scope (snapshot_of r)),
                b\<lparr>records := AList.update rid (r\<lparr>status := Resolved\<rparr>) (records b)\<rparr>))"

definition defer_delivery ::
  "server_request_delivery \<Rightarrow> ('perm, 'form) server_request_broker \<Rightarrow> ('perm, 'form) server_request_broker" where
  "defer_delivery d b =
     (case map_of (records b) (envelope_request_id (envelope d)) of
        None \<Rightarrow> b
      | Some r \<Rightarrow>
          b\<lparr>records := AList.update (envelope_request_id (envelope d))
              (mark_responder_eligible (delivery_client (request_delivery d)) r) (records b)\<rparr>)"

definition defer_deliveries ::
  "server_request_delivery list \<Rightarrow> ('perm, 'form) server_request_broker \<Rightarrow> ('perm, 'form) server_request_broker" where
  "defer_deliveries ds b = foldl (\<lambda>b d. defer_delivery d b) b ds"

section \<open>Clients and Tasks that come and go\<close>

definition update_record ::
  "(('perm, 'form) pending_record \<Rightarrow> ('perm, 'form) pending_record) \<Rightarrow> string
     \<Rightarrow> ('perm, 'form) server_request_broker \<Rightarrow> ('perm, 'form) server_request_broker" where
  "update_record f rid b =
     (case map_of (records b) rid of
        None \<Rightarrow> b
      | Some r \<Rightarrow> b\<lparr>records := AList.update rid (f r) (records b)\<rparr>)"

text \<open>The loop over the requests a newly available client can answer.\<close>

fun offer_each ::
  "delivery \<Rightarrow> string list \<Rightarrow> ('perm, 'form) server_request_broker
     \<Rightarrow> server_request_delivery list \<times> ('perm, 'form) server_request_broker" where
  "offer_each d [] b = ([], b)"
| "offer_each d (rid # rids) b =
     (case mark_and_build_deliveries rid [d] (update_record (mark_responder_eligible (delivery_client d)) rid b) of
        (built, b1) \<Rightarrow> (case offer_each d rids b1 of (rest, b2) \<Rightarrow> (built @ rest, b2)))"

definition observe_responder_available ::
  "delivery \<Rightarrow> responder_scope list \<Rightarrow> ('perm, 'form) server_request_broker
     \<Rightarrow> server_request_delivery list \<times> ('perm, 'form) server_request_broker" where
  "observe_responder_available d scopes b =
     (let c = delivery_client d;
          b1 = b\<lparr>available_responders :=
                   AList.update c \<lparr>responder_delivery = d, responder_scopes = scopes\<rparr> (available_responders b)\<rparr>;
          rids = map fst (filter (\<lambda>(rid, r). status r = Pending \<and> can_deliver_to c r
                     \<and> supports_method (request_method r) d \<and> record_matches_responder c scopes r) (records b1))
      in offer_each d rids b1)"

definition observe_client_initialized_or_reattached ::
  "delivery \<Rightarrow> responder_scope list \<Rightarrow> ('perm, 'form) server_request_broker
     \<Rightarrow> server_request_delivery list \<times> ('perm, 'form) server_request_broker" where
  "observe_client_initialized_or_reattached d scopes b = observe_responder_available d scopes b"

definition observe_capability_available ::
  "delivery \<Rightarrow> responder_scope list \<Rightarrow> ('perm, 'form) server_request_broker
     \<Rightarrow> server_request_delivery list \<times> ('perm, 'form) server_request_broker" where
  "observe_capability_available d scopes b = observe_responder_available d scopes b"

text \<open>What losing a client does to one record, and the outcome it reports.\<close>

definition lose_responder :: "string \<Rightarrow> ('perm, 'form) pending_record \<Rightarrow> ('perm, 'form) pending_record" where
  "lose_responder c r =
     (if status r \<noteq> Pending then r
      else (case request_scope (snapshot_of r) of
          ClientRequest target \<Rightarrow> if target = c then r\<lparr>status := Interrupted\<rparr> else r
        | TaskRequest _ \<Rightarrow> mark_responder_stale c r))"

definition lifecycle_interrupted :: "('perm, 'form) pending_record \<Rightarrow> request_lifecycle_outcome" where
  "lifecycle_interrupted r = LifecycleInterrupted (request_id (snapshot_of r)) (request_scope (snapshot_of r))"

definition observe_responder_unavailable ::
  "string \<Rightarrow> ('perm, 'form) server_request_broker
     \<Rightarrow> request_lifecycle_outcome list \<times> ('perm, 'form) server_request_broker" where
  "observe_responder_unavailable c b =
     (map lifecycle_interrupted
        (filter (\<lambda>r. status r = Pending \<and> request_scope (snapshot_of r) = ClientRequest c) (map snd (records b))),
      b\<lparr>available_responders := AList.delete c (available_responders b),
        records := alist_map (\<lambda>_. lose_responder c) (records b)\<rparr>)"

definition observe_transport_unavailable ::
  "string \<Rightarrow> ('perm, 'form) server_request_broker
     \<Rightarrow> request_lifecycle_outcome list \<times> ('perm, 'form) server_request_broker" where
  "observe_transport_unavailable c b = observe_responder_unavailable c b"

definition observe_client_expired_requests ::
  "string \<Rightarrow> ('perm, 'form) server_request_broker
     \<Rightarrow> request_lifecycle_outcome list \<times> ('perm, 'form) server_request_broker" where
  "observe_client_expired_requests c b = observe_responder_unavailable c b"

definition observe_subscription_added ::
  "delivery \<Rightarrow> string \<Rightarrow> ('perm, 'form) server_request_broker
     \<Rightarrow> server_request_delivery list \<times> ('perm, 'form) server_request_broker" where
  "observe_subscription_added d task_id b =
     (let scopes = (case map_of (available_responders b) (delivery_client d) of
            Some r \<Rightarrow> responder_scopes r
          | None \<Rightarrow> [ClientResponder (delivery_client d)]);
          scopes' = (if TaskResponder task_id \<in> set scopes then scopes else scopes @ [TaskResponder task_id])
      in observe_responder_available d scopes' b)"

text \<open>The records \<open>pending_task_records_mut\<close> selects.\<close>

definition pending_for :: "string \<Rightarrow> ('perm, 'form) pending_record \<Rightarrow> bool" where
  "pending_for task_id r \<longleftrightarrow> status r = Pending \<and> request_scope (snapshot_of r) = TaskRequest task_id"

definition observe_subscription_removed ::
  "string \<Rightarrow> string \<Rightarrow> ('perm, 'form) server_request_broker
     \<Rightarrow> request_lifecycle_outcome list \<times> ('perm, 'form) server_request_broker" where
  "observe_subscription_removed c task_id b =
     (let kept = map_option (\<lambda>r. r\<lparr>responder_scopes := filter (\<lambda>s. s \<noteq> TaskResponder task_id) (responder_scopes r)\<rparr>)
            (map_of (available_responders b) c);
          scopes = (case kept of Some r \<Rightarrow> responder_scopes r | None \<Rightarrow> []);
          rs = (case kept of Some r \<Rightarrow> AList.update c r (available_responders b) | None \<Rightarrow> available_responders b)
      in ([], b\<lparr>available_responders := rs,
                records := alist_map (\<lambda>_ r.
                    if pending_for task_id r \<and> \<not> record_matches_responder c scopes r
                    then mark_responder_stale c r else r) (records b)\<rparr>))"

definition observe_capability_unavailable ::
  "string \<Rightarrow> responder_scope list \<Rightarrow> ('perm, 'form) server_request_broker
     \<Rightarrow> request_lifecycle_outcome list \<times> ('perm, 'form) server_request_broker" where
  "observe_capability_unavailable c scopes b =
     (let rs = (case map_of (available_responders b) c of
            None \<Rightarrow> available_responders b
          | Some r \<Rightarrow> AList.update c
              (r\<lparr>responder_delivery := (responder_delivery r)\<lparr>delivery_capabilities := []\<rparr>\<rparr>) (available_responders b))
      in ([], b\<lparr>available_responders := rs,
                records := alist_map (\<lambda>_ r.
                    if status r = Pending \<and> record_matches_responder c scopes r
                    then mark_responder_stale c r else r) (records b)\<rparr>))"

definition interrupt_scope ::
  "pending_request_scope \<Rightarrow> ('perm, 'form) server_request_broker
     \<Rightarrow> request_lifecycle_outcome list \<times> ('perm, 'form) server_request_broker" where
  "interrupt_scope sc b =
     (map lifecycle_interrupted
        (filter (\<lambda>r. status r = Pending \<and> request_scope (snapshot_of r) = sc) (map snd (records b))),
      b\<lparr>records := alist_map (\<lambda>_ r.
          if status r = Pending \<and> request_scope (snapshot_of r) = sc then r\<lparr>status := Interrupted\<rparr> else r)
        (records b)\<rparr>)"

definition fail_scope ::
  "pending_request_scope \<Rightarrow> ('perm, 'form) server_request_broker
     \<Rightarrow> request_lifecycle_outcome list \<times> ('perm, 'form) server_request_broker" where
  "fail_scope sc b = interrupt_scope sc b"

definition observe_task_completed ::
  "string \<Rightarrow> ('perm, 'form) server_request_broker
     \<Rightarrow> request_lifecycle_outcome list \<times> ('perm, 'form) server_request_broker" where
  "observe_task_completed task_id b = interrupt_scope (TaskRequest task_id) b"

definition pending_snapshots ::
  "(pending_request_scope \<Rightarrow> bool) \<Rightarrow> ('perm, 'form) server_request_broker
     \<Rightarrow> ('perm, 'form) pending_request_snapshot list" where
  "pending_snapshots matches b =
     sort_key request_id
       (map snapshot_of (filter (\<lambda>r. status r = Pending \<and> matches (request_scope (snapshot_of r))) (map snd (records b))))"

definition pending_for_client ::
  "string \<Rightarrow> ('perm, 'form) server_request_broker \<Rightarrow> ('perm, 'form) pending_request_snapshot list" where
  "pending_for_client c b = pending_snapshots (\<lambda>sc. sc = ClientRequest c) b"

definition pending_for_task ::
  "string \<Rightarrow> ('perm, 'form) server_request_broker \<Rightarrow> ('perm, 'form) pending_request_snapshot list" where
  "pending_for_task task_id b = pending_snapshots (\<lambda>sc. sc = TaskRequest task_id) b"

definition pending_count :: "('perm, 'form) server_request_broker \<Rightarrow> nat" where
  "pending_count b = length (filter (\<lambda>r. status r = Pending) (map snd (records b)))"

end
