(* ===== verification/Request_Runtime.thy ===== *)
theory Request_Runtime
  imports Request_Broker Runtime_Error
begin

text \<open>
  The runtime around the request broker
  (\<open>src/openaide-rs/app-server/src/server_requests/runtime.rs\<close> and \<open>runtime/\<close>): Agent threads open
  permission, question and shell requests and wait for their answers, clients answer them. Every
  method works under one lock, so it is one step on the state \<open>request_runtime\<close>; a waiting loop is
  one step per iteration (\<open>None\<close>: the condition variable is waited on and the lock released).
  Decoding and encoding at protocol types (serde) and the check of an answer against its form
  (\<open>validate_product_response\<close>, regular expressions and floating point) are the record
  \<open>request_codec\<close>; logging and notification, which wake waiters up, are left out.
\<close>

section \<open>Permission requests of an Agent\<close>

datatype permission_decision = Approved | Denied

datatype permission_option_kind = AllowOnce | AllowAlways | RejectOnce | RejectAlways

record agent_tool_call_ref =
  tool_call_id :: string
  tool_title :: string
  tool_kind :: "string option"

record agent_permission_option =
  option_id :: string
  option_name :: string
  option_kind :: permission_option_kind

record agent_permission_request =
  agent_request_id :: string
  permission_title :: string
  description :: "string option"
  permission_scope :: "string option"
  risk :: "string option"
  tool_call :: agent_tool_call_ref
  subagent_native_session_id :: "string option"
  options :: "agent_permission_option list"

datatype agent_permission_outcome = Selected string | Cancelled

record permission_response =
  outcome :: agent_permission_outcome
  decision :: "permission_decision option"

record permission_waiter =
  waiter_options :: "string \<Rightarrow> permission_decision option"
  waiter_outcome :: "permission_response option"

fun decision_for_kind :: "permission_option_kind \<Rightarrow> permission_decision" where
  "decision_for_kind AllowOnce = Approved"
| "decision_for_kind AllowAlways = Approved"
| "decision_for_kind RejectOnce = Denied"
| "decision_for_kind RejectAlways = Denied"

fun option_kind_text :: "permission_option_kind \<Rightarrow> string" where
  "option_kind_text AllowOnce = ''allowOnce''"
| "option_kind_text AllowAlways = ''allowAlways''"
| "option_kind_text RejectOnce = ''rejectOnce''"
| "option_kind_text RejectAlways = ''rejectAlways''"

text \<open>Collecting into a \<open>HashMap\<close>: the last option of an id wins.\<close>

definition new_permission_waiter :: "agent_permission_request \<Rightarrow> permission_waiter" where
  "new_permission_waiter request =
     \<lparr>waiter_options = map_of (rev (map (\<lambda>opt. (option_id opt, decision_for_kind (option_kind opt))) (options request))),
      waiter_outcome = None\<rparr>"

definition allows_option :: "string \<Rightarrow> permission_waiter \<Rightarrow> bool" where
  "allows_option opt w = (waiter_options w opt \<noteq> None)"

definition option_id_from_result :: "json \<Rightarrow> string option" where
  "option_id_from_result result =
     Option.bind (case json_get ''optionId'' result of
         Some v \<Rightarrow> Some v
       | None \<Rightarrow> json_get ''option_id'' result) json_as_str"

definition set_permission_outcome ::
  "string \<Rightarrow> string \<Rightarrow> (string \<Rightarrow> permission_waiter option) \<Rightarrow> bool \<times> (string \<Rightarrow> permission_waiter option)" where
  "set_permission_outcome rid opt waiters =
     (case waiters rid of
        None \<Rightarrow> (False, waiters)
      | Some w \<Rightarrow>
          if waiter_outcome w \<noteq> None then (False, waiters)
          else (case waiter_options w opt of
              None \<Rightarrow> (False, waiters)
            | Some dec \<Rightarrow>
                (True, waiters(rid \<mapsto> w\<lparr>waiter_outcome := Some \<lparr>outcome = Selected opt, decision = Some dec\<rparr>\<rparr>))))"

definition permission_params :: "agent_permission_request \<Rightarrow> json" where
  "permission_params request = JObject
     [(''requestId'', JString (agent_request_id request)),
      (''title'', JString (permission_title request)),
      (''description'', nullable (description request)),
      (''scope'', nullable (permission_scope request)),
      (''risk'', nullable (risk request)),
      (''toolCall'', JObject
         [(''id'', JString (tool_call_id (tool_call request))),
          (''title'', JString (tool_title (tool_call request))),
          (''kind'', nullable (tool_kind (tool_call request)))]),
      (''options'', JArray (map (\<lambda>opt. JObject
         [(''optionId'', JString (option_id opt)),
          (''name'', JString (option_name opt)),
          (''kind'', JString (option_kind_text (option_kind opt)))]) (options request)))]"

section \<open>State\<close>

datatype 'content question_response = Submit 'content | CancelQuestion

record ('perm, 'form, 'content) request_codec =
  decode_permission :: "json \<Rightarrow> 'perm option"
  decode_form :: "json \<Rightarrow> 'form option"
  encode_form :: "'form \<Rightarrow> string + json"
  decode_answer :: "json \<Rightarrow> 'content question_response option"
  answer_matches :: "'form \<Rightarrow> 'content question_response \<Rightarrow> bool"

record ('form, 'content) question_waiter =
  waiter_form :: 'form
  waiter_answer :: "'content question_response option"

record ('perm, 'form, 'content) request_runtime =
  broker :: "('perm, 'form) server_request_broker"
  permission_waiters :: "string \<Rightarrow> permission_waiter option"
  waitable_requests :: "string \<Rightarrow> json option option"
  question_waiters :: "string \<Rightarrow> ('form, 'content) question_waiter option"

definition new_runtime :: "('perm, 'form, 'content) request_runtime" where
  "new_runtime = \<lparr>broker = new_broker, permission_waiters = Map.empty, waitable_requests = Map.empty,
     question_waiters = Map.empty\<rparr>"

section \<open>Opening requests\<close>

definition runtime_open ::
  "('perm, 'form, 'content) request_codec \<Rightarrow> string \<Rightarrow> server_request_draft \<Rightarrow> delivery list
     \<Rightarrow> ('perm, 'form, 'content) request_runtime
     \<Rightarrow> ('perm, 'form) open_request_outcome \<times> ('perm, 'form, 'content) request_runtime" where
  "runtime_open codec now draft ds rt =
     (case open_request (decode_permission codec) (decode_form codec) now draft ds (broker rt) of
        (out, b) \<Rightarrow> (out, rt\<lparr>broker := b\<rparr>))"

definition open_permission_request ::
  "('perm, 'form, 'content) request_codec \<Rightarrow> string \<Rightarrow> string \<Rightarrow> agent_permission_request \<Rightarrow> delivery list
     \<Rightarrow> ('perm, 'form, 'content) request_runtime
     \<Rightarrow> (runtime_error + string option) \<times> ('perm, 'form, 'content) request_runtime" where
  "open_permission_request codec now task_id request ds rt =
     (case runtime_open codec now
         \<lparr>draft_scope = TaskRequest task_id, draft_method = ''permission/request'',
          draft_title = permission_title request, draft_params = permission_params request\<rparr> ds rt of
        (Unavailable _, rt1) \<Rightarrow> (Inr None, rt1)
      | (Opened snap out, rt1) \<Rightarrow>
          (Inr (Some (request_id snap)),
           rt1\<lparr>broker := defer_deliveries out (broker rt1),
               permission_waiters := (permission_waiters rt1)(request_id snap \<mapsto> new_permission_waiter request)\<rparr>))"

definition open_question_request ::
  "('perm, 'form, 'content) request_codec \<Rightarrow> string \<Rightarrow> string \<Rightarrow> 'form
     \<Rightarrow> ('perm, 'form, 'content) request_runtime
     \<Rightarrow> (runtime_error + string option) \<times> ('perm, 'form, 'content) request_runtime" where
  "open_question_request codec now task_id form rt =
     (case encode_form codec form of
        Inl e \<Rightarrow> (Inl (Internal e), rt)
      | Inr ps \<Rightarrow>
        (case runtime_open codec now
            \<lparr>draft_scope = TaskRequest task_id, draft_method = QUESTION_REQUEST,
             draft_title = ''Question'', draft_params = ps\<rparr> [] rt of
           (Unavailable _, rt1) \<Rightarrow> (Inr None, rt1)
         | (Opened snap out, rt1) \<Rightarrow>
             (Inr (Some (request_id snap)),
              rt1\<lparr>broker := defer_deliveries out (broker rt1),
                  question_waiters := (question_waiters rt1)(request_id snap \<mapsto>
                    \<lparr>waiter_form = form, waiter_answer = None\<rparr>)\<rparr>)))"

definition open_waitable_request ::
  "('perm, 'form, 'content) request_codec \<Rightarrow> string \<Rightarrow> pending_request_scope \<Rightarrow> delivery list \<Rightarrow> string \<Rightarrow> string \<Rightarrow> json
     \<Rightarrow> ('perm, 'form, 'content) request_runtime
     \<Rightarrow> (runtime_error + string \<times> server_request_delivery list) \<times> ('perm, 'form, 'content) request_runtime" where
  "open_waitable_request codec now sc ds m t ps rt =
     (case runtime_open codec now
         \<lparr>draft_scope = sc, draft_method = m, draft_title = t, draft_params = ps\<rparr> ds rt of
        (Unavailable _, rt1) \<Rightarrow> (Inl (NotReady ''server request is unavailable''), rt1)
      | (Opened snap out, rt1) \<Rightarrow>
          (Inr (request_id snap, out),
           rt1\<lparr>waitable_requests := (waitable_requests rt1)(request_id snap \<mapsto> None)\<rparr>))"

text \<open>
  The lock is released between opening and deferring, so the second half is also a step of its own.
\<close>

definition open_waitable_client_request ::
  "('perm, 'form, 'content) request_codec \<Rightarrow> string \<Rightarrow> string \<Rightarrow> delivery \<Rightarrow> string \<Rightarrow> string \<Rightarrow> json
     \<Rightarrow> ('perm, 'form, 'content) request_runtime
     \<Rightarrow> (runtime_error + string \<times> server_request_delivery list) \<times> ('perm, 'form, 'content) request_runtime" where
  "open_waitable_client_request codec now c d m t ps rt =
     (case open_waitable_request codec now (ClientRequest c) [d] m t ps rt of
        (Inl e, rt1) \<Rightarrow> (Inl e, rt1)
      | (Inr opened, rt1) \<Rightarrow> (Inr opened, rt1\<lparr>broker := defer_deliveries (snd opened) (broker rt1)\<rparr>))"

definition secret_read_params :: "string \<Rightarrow> string option \<Rightarrow> json" where
  "secret_read_params key label = JObject ((''key'', JString key) # opt_member ''label'' label)"

definition open_secret_read_request ::
  "('perm, 'form, 'content) request_codec \<Rightarrow> string \<Rightarrow> string \<Rightarrow> delivery \<Rightarrow> string \<Rightarrow> string option
     \<Rightarrow> ('perm, 'form, 'content) request_runtime
     \<Rightarrow> (runtime_error + string \<times> server_request_delivery list) \<times> ('perm, 'form, 'content) request_runtime" where
  "open_secret_read_request codec now c d key label rt =
     open_waitable_client_request codec now c d ''secret/read''
       (case label of Some l \<Rightarrow> l | None \<Rightarrow> ''Secret needed'') (secret_read_params key label) rt"

definition open_task_secret_read_request ::
  "('perm, 'form, 'content) request_codec \<Rightarrow> string \<Rightarrow> string \<Rightarrow> string \<Rightarrow> string option
     \<Rightarrow> ('perm, 'form, 'content) request_runtime
     \<Rightarrow> (runtime_error + string \<times> server_request_delivery list) \<times> ('perm, 'form, 'content) request_runtime" where
  "open_task_secret_read_request codec now task_id key label rt =
     open_waitable_request codec now (TaskRequest task_id) [] ''secret/read''
       (case label of Some l \<Rightarrow> l | None \<Rightarrow> ''Secret needed'') (secret_read_params key label) rt"

datatype notification_level = InfoLevel | WarningLevel | ErrorLevel

fun notification_level_text :: "notification_level \<Rightarrow> string" where
  "notification_level_text InfoLevel = ''info''"
| "notification_level_text WarningLevel = ''warning''"
| "notification_level_text ErrorLevel = ''error''"

record notification_action =
  action_id :: string
  action_label :: string

definition show_notification_params :: "notification_level \<Rightarrow> string \<Rightarrow> notification_action list \<Rightarrow> json" where
  "show_notification_params level message actions = JObject
     ([(''level'', JString (notification_level_text level)), (''message'', JString message)]
      @ (if actions = [] then [] else
         [(''actions'', JArray (map (\<lambda>a. JObject
            [(''actionId'', JString (action_id a)), (''label'', JString (action_label a))]) actions))]))"

definition open_shell_notification_request ::
  "('perm, 'form, 'content) request_codec \<Rightarrow> string \<Rightarrow> string \<Rightarrow> delivery \<Rightarrow> notification_level \<Rightarrow> string
     \<Rightarrow> notification_action list \<Rightarrow> ('perm, 'form, 'content) request_runtime
     \<Rightarrow> (runtime_error + string \<times> server_request_delivery list) \<times> ('perm, 'form, 'content) request_runtime" where
  "open_shell_notification_request codec now c d level message actions rt =
     open_waitable_client_request codec now c d ''shell/showNotification'' message
       (show_notification_params level message actions) rt"

definition open_shell_open_external_request ::
  "('perm, 'form, 'content) request_codec \<Rightarrow> string \<Rightarrow> string \<Rightarrow> delivery \<Rightarrow> string \<Rightarrow> string option
     \<Rightarrow> ('perm, 'form, 'content) request_runtime
     \<Rightarrow> (runtime_error + string \<times> server_request_delivery list) \<times> ('perm, 'form, 'content) request_runtime" where
  "open_shell_open_external_request codec now c d url message rt =
     open_waitable_client_request codec now c d ''shell/openExternal'' url
       (JObject ((''url'', JString url) # opt_member ''message'' message)) rt"

definition open_shell_reveal_file_request ::
  "('perm, 'form, 'content) request_codec \<Rightarrow> string \<Rightarrow> string \<Rightarrow> delivery \<Rightarrow> string \<Rightarrow> string option
     \<Rightarrow> ('perm, 'form, 'content) request_runtime
     \<Rightarrow> (runtime_error + string \<times> server_request_delivery list) \<times> ('perm, 'form, 'content) request_runtime" where
  "open_shell_reveal_file_request codec now c d handle label rt =
     open_waitable_client_request codec now c d ''shell/revealFile''
       (case label of Some l \<Rightarrow> l | None \<Rightarrow> ''Reveal file'')
       (JObject ([(''originatingClientInstanceId'', JString c), (''fileHandleId'', JString handle)]
          @ opt_member ''label'' label)) rt"

section \<open>Answers\<close>

definition waiter_allows_option :: "string \<Rightarrow> string \<Rightarrow> ('perm, 'form, 'content) request_runtime \<Rightarrow> bool" where
  "waiter_allows_option rid opt rt =
     (case permission_waiters rt rid of None \<Rightarrow> False | Some w \<Rightarrow> allows_option opt w)"

definition normalized_answer_for_waiter ::
  "string \<Rightarrow> server_request_answer \<Rightarrow> ('perm, 'form, 'content) request_runtime \<Rightarrow> server_request_answer" where
  "normalized_answer_for_waiter rid answer rt =
     (if permission_waiters rt rid = None then answer
      else (case answer of
          AnswerInvalid _ \<Rightarrow> answer
        | AnswerResult result \<Rightarrow>
            (case option_id_from_result result of
               Some opt \<Rightarrow>
                 if waiter_allows_option rid opt rt then AnswerResult result
                 else AnswerInvalid ''unknown permission option''
             | None \<Rightarrow> AnswerInvalid ''missing permission optionId'')))"

definition normalize_question_answer ::
  "('perm, 'form, 'content) request_codec \<Rightarrow> string \<Rightarrow> server_request_answer
     \<Rightarrow> ('perm, 'form, 'content) request_runtime \<Rightarrow> server_request_answer" where
  "normalize_question_answer codec rid answer rt =
     (case question_waiters rt rid of
        None \<Rightarrow> answer
      | Some w \<Rightarrow>
          (case answer of
             AnswerInvalid _ \<Rightarrow> answer
           | AnswerResult v \<Rightarrow>
               (case decode_answer codec v of
                  Some response \<Rightarrow>
                    if answer_matches codec (waiter_form w) response then AnswerResult v
                    else AnswerInvalid ''question response does not match the requested schema''
                | None \<Rightarrow> AnswerInvalid ''invalid question response'')))"

definition set_question_result ::
  "('perm, 'form, 'content) request_codec \<Rightarrow> string \<Rightarrow> json \<Rightarrow> ('perm, 'form, 'content) request_runtime
     \<Rightarrow> bool \<times> ('perm, 'form, 'content) request_runtime" where
  "set_question_result codec rid v rt =
     (case question_waiters rt rid of
        None \<Rightarrow> (False, rt)
      | Some w \<Rightarrow>
          (case decode_answer codec v of
             None \<Rightarrow> (False, rt)
           | Some response \<Rightarrow>
               (True, rt\<lparr>question_waiters := (question_waiters rt)(rid \<mapsto> w\<lparr>waiter_answer := Some response\<rparr>)\<rparr>)))"

definition runtime_interrupt :: "string \<Rightarrow> ('perm, 'form, 'content) request_runtime \<Rightarrow> ('perm, 'form, 'content) request_runtime" where
  "runtime_interrupt rid rt = rt\<lparr>broker := snd (interrupt_request rid (broker rt))\<rparr>"

text \<open>What an accepted answer does to the three tables of waiters.\<close>

definition release_permission_waiter ::
  "string \<Rightarrow> json \<Rightarrow> ('perm, 'form, 'content) request_runtime \<Rightarrow> ('perm, 'form, 'content) request_runtime" where
  "release_permission_waiter rid result rt =
     (case option_id_from_result result of
        None \<Rightarrow> rt
      | Some opt \<Rightarrow>
          (case set_permission_outcome rid opt (permission_waiters rt) of
             (accepted, waiters) \<Rightarrow>
               let rt1 = rt\<lparr>permission_waiters := waiters\<rparr>
               in if accepted then rt1 else runtime_interrupt rid rt1))"

definition release_waitable ::
  "string \<Rightarrow> json \<Rightarrow> ('perm, 'form, 'content) request_runtime \<Rightarrow> ('perm, 'form, 'content) request_runtime" where
  "release_waitable rid result rt =
     (case waitable_requests rt rid of
        None \<Rightarrow> rt
      | Some _ \<Rightarrow> rt\<lparr>waitable_requests := (waitable_requests rt)(rid \<mapsto> Some result)\<rparr>)"

definition runtime_handle_response_from_scopes ::
  "('perm, 'form, 'content) request_codec \<Rightarrow> string \<Rightarrow> string \<Rightarrow> server_request_answer \<Rightarrow> responder_scope list
     \<Rightarrow> ('perm, 'form, 'content) request_runtime \<Rightarrow> response_outcome \<times> ('perm, 'form, 'content) request_runtime" where
  "runtime_handle_response_from_scopes codec c rid answer scopes rt =
     (let answer1 = normalized_answer_for_waiter rid answer rt;
          answer2 = normalize_question_answer codec rid answer1 rt
      in (case handle_response_from_scopes c rid answer2 scopes (broker rt) of
            (out, b) \<Rightarrow>
              let rt1 = rt\<lparr>broker := b\<rparr>
              in (case out of
                    Accepted _ _ _ result \<Rightarrow>
                      (out, snd (set_question_result codec rid result
                              (release_waitable rid result (release_permission_waiter rid result rt1))))
                  | _ \<Rightarrow> (out, rt1))))"

definition runtime_handle_response ::
  "('perm, 'form, 'content) request_codec \<Rightarrow> string \<Rightarrow> string \<Rightarrow> server_request_answer
     \<Rightarrow> ('perm, 'form, 'content) request_runtime \<Rightarrow> response_outcome \<times> ('perm, 'form, 'content) request_runtime" where
  "runtime_handle_response codec c rid answer rt = runtime_handle_response_from_scopes codec c rid answer [] rt"

definition auto_approve_permission ::
  "string \<Rightarrow> string \<Rightarrow> ('perm, 'form, 'content) request_runtime \<Rightarrow> bool \<times> ('perm, 'form, 'content) request_runtime" where
  "auto_approve_permission rid opt rt =
     (if \<not> waiter_allows_option rid opt rt then (False, rt)
      else (case resolve_request_without_responder rid (broker rt) of
          (None, b) \<Rightarrow> (False, rt\<lparr>broker := b\<rparr>)
        | (Some _, b) \<Rightarrow>
            (case set_permission_outcome rid opt (permission_waiters rt) of
               (accepted, waiters) \<Rightarrow> (accepted, rt\<lparr>broker := b, permission_waiters := waiters\<rparr>))))"

section \<open>Waiting\<close>

definition remove_permission_waiter ::
  "string \<Rightarrow> ('perm, 'form, 'content) request_runtime \<Rightarrow> ('perm, 'form, 'content) request_runtime" where
  "remove_permission_waiter rid rt = rt\<lparr>permission_waiters := (permission_waiters rt)(rid := None)\<rparr>"

definition permission_cancelled :: permission_response where
  "permission_cancelled = \<lparr>outcome = Cancelled, decision = None\<rparr>"

definition wait_permission_response ::
  "bool \<Rightarrow> string \<Rightarrow> ('perm, 'form, 'content) request_runtime
     \<Rightarrow> permission_response option \<times> ('perm, 'form, 'content) request_runtime" where
  "wait_permission_response cancelled rid rt =
     (if cancelled
      then (Some permission_cancelled, remove_permission_waiter rid (runtime_interrupt rid rt))
      else (case permission_waiters rt rid of
          None \<Rightarrow> (Some permission_cancelled, rt)
        | Some w \<Rightarrow>
            (case waiter_outcome w of
               Some response \<Rightarrow> (Some response, remove_permission_waiter rid rt)
             | None \<Rightarrow> (None, rt))))"

definition wait_question_response ::
  "bool \<Rightarrow> string \<Rightarrow> ('perm, 'form, 'content) request_runtime
     \<Rightarrow> 'content question_response option \<times> ('perm, 'form, 'content) request_runtime" where
  "wait_question_response cancelled rid rt =
     (if cancelled
      then (Some CancelQuestion,
            (runtime_interrupt rid rt)\<lparr>question_waiters := (question_waiters rt)(rid := None)\<rparr>)
      else (case question_waiters rt rid of
          None \<Rightarrow> (Some CancelQuestion, rt)
        | Some w \<Rightarrow>
            (case waiter_answer w of
               Some response \<Rightarrow> (Some response, rt\<lparr>question_waiters := (question_waiters rt)(rid := None)\<rparr>)
             | None \<Rightarrow> (None, rt))))"

text \<open>\<open>timeout\<close> and \<open>elapsed\<close> are durations in nanoseconds.\<close>

definition wait_client_response_cancellable ::
  "bool \<Rightarrow> nat \<Rightarrow> nat \<Rightarrow> string \<Rightarrow> ('perm, 'form, 'content) request_runtime
     \<Rightarrow> (runtime_error + json) option \<times> ('perm, 'form, 'content) request_runtime" where
  "wait_client_response_cancellable cancelled timeout elapsed rid rt =
     (let gone = rt\<lparr>waitable_requests := (waitable_requests rt)(rid := None)\<rparr> in
      if cancelled then (Some (Inl (NotReady ''server request cancelled'')), runtime_interrupt rid gone)
      else (case waitable_requests rt rid of
          None \<Rightarrow> (Some (Inl (NotReady ''server request is unavailable'')), rt)
        | Some (Some result) \<Rightarrow> (Some (Inr result), gone)
        | Some None \<Rightarrow>
            if elapsed < timeout then (None, rt)
            else (Some (Inl (NotReady ''server request timed out'')), runtime_interrupt rid gone)))"

definition runtime_forget_auth_terminal_exchange ::
  "string \<Rightarrow> ('perm, 'form, 'content) request_runtime \<Rightarrow> ('perm, 'form, 'content) request_runtime" where
  "runtime_forget_auth_terminal_exchange rid rt =
     rt\<lparr>waitable_requests := (waitable_requests rt)(rid := None),
       broker := forget_auth_terminal_exchange rid (broker rt)\<rparr>"

section \<open>Clients and Tasks that come and go\<close>

definition drop_waiters ::
  "string \<Rightarrow> ('perm, 'form, 'content) request_runtime \<Rightarrow> ('perm, 'form, 'content) request_runtime" where
  "drop_waiters rid rt =
     (remove_permission_waiter rid rt)
       \<lparr>question_waiters := (question_waiters rt)(rid := None),
        waitable_requests := (waitable_requests rt)(rid := None)\<rparr>"

definition runtime_interrupt_request ::
  "string \<Rightarrow> ('perm, 'form, 'content) request_runtime
     \<Rightarrow> pending_request_scope option \<times> ('perm, 'form, 'content) request_runtime" where
  "runtime_interrupt_request rid rt =
     (case interrupt_request rid (broker rt) of (sc, b) \<Rightarrow> (sc, drop_waiters rid (rt\<lparr>broker := b\<rparr>)))"

fun interrupted_id :: "request_lifecycle_outcome \<Rightarrow> string" where
  "interrupted_id (LifecycleInterrupted rid _) = rid"

definition observe_responder_loss ::
  "(('perm, 'form) server_request_broker \<Rightarrow> request_lifecycle_outcome list \<times> ('perm, 'form) server_request_broker)
     \<Rightarrow> ('perm, 'form, 'content) request_runtime
     \<Rightarrow> request_lifecycle_outcome list \<times> ('perm, 'form, 'content) request_runtime" where
  "observe_responder_loss observe rt =
     (case observe (broker rt) of
        (outs, b) \<Rightarrow> (outs, foldl (\<lambda>rt out. drop_waiters (interrupted_id out) rt) (rt\<lparr>broker := b\<rparr>) outs))"

definition interrupt_task_requests ::
  "string \<Rightarrow> ('perm, 'form, 'content) request_runtime \<Rightarrow> nat \<times> ('perm, 'form, 'content) request_runtime" where
  "interrupt_task_requests task_id rt =
     (case interrupt_scope (TaskRequest task_id) (broker rt) of
        (outs, b) \<Rightarrow> (length outs, foldl (\<lambda>rt out. drop_waiters (interrupted_id out) rt) (rt\<lparr>broker := b\<rparr>) outs))"

definition runtime_observe_transport_unavailable ::
  "string \<Rightarrow> ('perm, 'form, 'content) request_runtime
     \<Rightarrow> request_lifecycle_outcome list \<times> ('perm, 'form, 'content) request_runtime" where
  "runtime_observe_transport_unavailable c rt = observe_responder_loss (observe_transport_unavailable c) rt"

definition runtime_observe_client_expired ::
  "string \<Rightarrow> ('perm, 'form, 'content) request_runtime
     \<Rightarrow> request_lifecycle_outcome list \<times> ('perm, 'form, 'content) request_runtime" where
  "runtime_observe_client_expired c rt = observe_responder_loss (observe_client_expired_requests c) rt"

definition runtime_observe_subscription_removed ::
  "string \<Rightarrow> string \<Rightarrow> ('perm, 'form, 'content) request_runtime
     \<Rightarrow> request_lifecycle_outcome list \<times> ('perm, 'form, 'content) request_runtime" where
  "runtime_observe_subscription_removed c task_id rt = observe_responder_loss (observe_subscription_removed c task_id) rt"

definition on_broker ::
  "(('perm, 'form) server_request_broker \<Rightarrow> 'a \<times> ('perm, 'form) server_request_broker)
     \<Rightarrow> ('perm, 'form, 'content) request_runtime \<Rightarrow> 'a \<times> ('perm, 'form, 'content) request_runtime" where
  "on_broker f rt = (case f (broker rt) of (x, b) \<Rightarrow> (x, rt\<lparr>broker := b\<rparr>))"

definition runtime_observe_responder_available ::
  "delivery \<Rightarrow> responder_scope list \<Rightarrow> ('perm, 'form, 'content) request_runtime
     \<Rightarrow> server_request_delivery list \<times> ('perm, 'form, 'content) request_runtime" where
  "runtime_observe_responder_available d scopes rt = on_broker (observe_responder_available d scopes) rt"

definition runtime_observe_client_initialized ::
  "delivery \<Rightarrow> responder_scope list \<Rightarrow> ('perm, 'form, 'content) request_runtime
     \<Rightarrow> server_request_delivery list \<times> ('perm, 'form, 'content) request_runtime" where
  "runtime_observe_client_initialized d scopes rt = on_broker (observe_client_initialized_or_reattached d scopes) rt"

definition runtime_observe_subscription_added ::
  "delivery \<Rightarrow> string \<Rightarrow> ('perm, 'form, 'content) request_runtime
     \<Rightarrow> server_request_delivery list \<times> ('perm, 'form, 'content) request_runtime" where
  "runtime_observe_subscription_added d task_id rt = on_broker (observe_subscription_added d task_id) rt"

definition has_pending_for_task :: "string \<Rightarrow> ('perm, 'form, 'content) request_runtime \<Rightarrow> bool" where
  "has_pending_for_task task_id rt = (pending_for_task task_id (broker rt) \<noteq> [])"

definition runtime_pending_for_task ::
  "string \<Rightarrow> ('perm, 'form, 'content) request_runtime \<Rightarrow> ('perm, 'form) pending_request_snapshot list" where
  "runtime_pending_for_task task_id rt = pending_for_task task_id (broker rt)"

definition runtime_pending_for_client ::
  "string \<Rightarrow> ('perm, 'form, 'content) request_runtime \<Rightarrow> ('perm, 'form) pending_request_snapshot list" where
  "runtime_pending_for_client c rt = pending_for_client c (broker rt)"

definition runtime_pending_count :: "('perm, 'form, 'content) request_runtime \<Rightarrow> nat" where
  "runtime_pending_count rt = pending_count (broker rt)"

end
