(* ===== verification/Request_Broker_Facts.thy ===== *)
theory Request_Broker_Facts
  imports Request_Broker
begin

text \<open>
  The request broker against its abstract specification, the board of open requests: a map from the
  ids of the pending requests to their scopes. Every operation but opening and forgetting keeps the
  table's ids, and takes off the board exactly the requests it reports as concluded
  (\<open>evolves\<close>); opening puts one request with a fresh id on the board.
\<close>

section \<open>The board\<close>

definition board :: "('perm, 'form) server_request_broker \<Rightarrow> string \<Rightarrow> pending_request_scope option" where
  "board b rid =
     (case map_of (records b) rid of
        None \<Rightarrow> None
      | Some r \<Rightarrow> if status r = Pending then Some (request_scope (snapshot_of r)) else None)"

definition rid_of :: "nat \<Rightarrow> string" where
  "rid_of i = ''server-request-'' @ dec_string i"

lemma rid_of_inject [simp]: "rid_of i = rid_of j \<longleftrightarrow> i = j"
  by (simp add: rid_of_def)

text \<open>A request for one client has no other responder.\<close>

definition authorised :: "('perm, 'form) pending_record \<Rightarrow> bool" where
  "authorised r \<longleftrightarrow> (\<forall>t c. request_scope (snapshot_of r) = ClientRequest t \<and> responders r c \<noteq> None \<longrightarrow> c = t)"

definition record_ok :: "nat \<Rightarrow> string \<Rightarrow> ('perm, 'form) pending_record \<Rightarrow> bool" where
  "record_ok bound rid r \<longleftrightarrow> request_id (snapshot_of r) = rid \<and> (\<exists>i<bound. rid = rid_of i) \<and> authorised r"

definition broker_ok :: "nat \<Rightarrow> ('perm, 'form) server_request_broker \<Rightarrow> bool" where
  "broker_ok n b \<longleftrightarrow> keys_distinct (records b) \<and> next_request_id b \<le> Suc n
     \<and> (\<forall>rid r. map_of (records b) rid = Some r \<longrightarrow> record_ok (next_request_id b) rid r)"

lemma broker_ok_new: "broker_ok 0 new_broker"
  by (simp add: broker_ok_def new_broker_def)

lemma board_new: "board new_broker = Map.empty"
  by (simp add: board_def new_broker_def fun_eq_iff)

lemma broker_ok_mono: "broker_ok n b \<Longrightarrow> n \<le> m \<Longrightarrow> broker_ok m b"
  by (simp add: broker_ok_def)

section \<open>How one record and the table may change\<close>

definition record_evolves :: "bool \<Rightarrow> ('perm, 'form) pending_record \<Rightarrow> ('perm, 'form) pending_record \<Rightarrow> bool" where
  "record_evolves concludes r r' \<longleftrightarrow> snapshot_of r' = snapshot_of r \<and> request_method r' = request_method r
     \<and> (authorised r \<longrightarrow> authorised r')
     \<and> (if concludes then status r = Pending \<and> status r' \<noteq> Pending else status r' = status r)"

definition evolves ::
  "string set \<Rightarrow> ('perm, 'form) server_request_broker \<Rightarrow> ('perm, 'form) server_request_broker \<Rightarrow> bool" where
  "evolves C b b' \<longleftrightarrow> next_request_id b' = next_request_id b
     \<and> (keys_distinct (records b) \<longrightarrow> keys_distinct (records b'))
     \<and> (\<forall>rid. rel_option (record_evolves (rid \<in> C)) (map_of (records b) rid) (map_of (records b') rid))
     \<and> C \<subseteq> dom (map_of (records b))"

lemma record_evolves_refl: "record_evolves False r r"
  by (simp add: record_evolves_def)

lemma evolves_refl: "records b' = records b \<Longrightarrow> next_request_id b' = next_request_id b \<Longrightarrow> evolves {} b b'"
  by (simp add: evolves_def option.rel_refl record_evolves_refl)

lemma record_evolves_trans:
  "record_evolves p r r1 \<Longrightarrow> record_evolves q r1 r2 \<Longrightarrow> record_evolves (p \<or> q) r r2"
  by (auto simp: record_evolves_def split: if_splits)

lemma evolves_trans:
  assumes "evolves C b b1" "evolves D b1 b2"
  shows "evolves (C \<union> D) b b2"
proof -
  have "rel_option (record_evolves (rid \<in> C \<union> D)) (map_of (records b) rid) (map_of (records b2) rid)" for rid
  proof -
    have "rel_option (record_evolves (rid \<in> C)) (map_of (records b) rid) (map_of (records b1) rid)"
      "rel_option (record_evolves (rid \<in> D)) (map_of (records b1) rid) (map_of (records b2) rid)"
      using assms by (simp_all add: evolves_def)
    then show ?thesis
      by (cases "map_of (records b) rid"; cases "map_of (records b1) rid"; cases "map_of (records b2) rid")
         (auto dest: record_evolves_trans)
  qed
  moreover have "dom (map_of (records b1)) = dom (map_of (records b))"
  proof -
    have "map_of (records b1) rid = None \<longleftrightarrow> map_of (records b) rid = None" for rid
      using assms(1) by (metis evolves_def rel_option_None1 rel_option_None2)
    then show ?thesis by (auto simp: dom_def)
  qed
  ultimately show ?thesis using assms by (simp add: evolves_def)
qed

lemma evolves_update:
  assumes "map_of (records b) rid = Some r" "record_evolves p r r'" "C = (if p then {rid} else {})"
  shows "evolves C b (b\<lparr>records := AList.update rid r' (records b)\<rparr>)"
  using assms by (auto simp: evolves_def alist_simps option.rel_refl record_evolves_refl option.rel_sel)

lemma evolves_map:
  assumes "\<And>rid r. map_of (records b) rid = Some r \<Longrightarrow> record_evolves (rid \<in> C) r (f rid r)"
    and "C \<subseteq> dom (map_of (records b))"
    and "records b' = alist_map f (records b)" "next_request_id b' = next_request_id b"
  shows "evolves C b b'"
proof -
  have "rel_option (record_evolves (rid \<in> C)) (map_of (records b) rid) (map_of (records b') rid)" for rid
    using assms(1) [of rid] by (cases "map_of (records b) rid") (simp_all add: assms(3) alist_simps)
  with assms show ?thesis by (simp add: evolves_def)
qed

lemma evolves_ok:
  assumes "broker_ok n b" "evolves C b b'"
  shows "broker_ok n b'"
proof -
  have "record_ok (next_request_id b') rid r'" if "map_of (records b') rid = Some r'" for rid r'
  proof -
    have "rel_option (record_evolves (rid \<in> C)) (map_of (records b) rid) (Some r')"
      using assms(2) that unfolding evolves_def by metis
    then obtain r where "map_of (records b) rid = Some r" "record_evolves (rid \<in> C) r r'"
      by (cases "map_of (records b) rid") auto
    with assms show ?thesis
      by (auto simp: broker_ok_def evolves_def record_ok_def record_evolves_def)
  qed
  with assms show ?thesis by (simp add: broker_ok_def evolves_def)
qed

lemma evolves_board:
  assumes "evolves C b b'"
  shows "board b' = (\<lambda>rid. if rid \<in> C then None else board b rid)" "C \<subseteq> dom (board b)"
proof -
  have rel: "rel_option (record_evolves (rid \<in> C)) (map_of (records b) rid) (map_of (records b') rid)" for rid
    using assms by (simp add: evolves_def)
  have "board b' rid = (if rid \<in> C then None else board b rid)" for rid
    using rel [of rid]
    by (cases "map_of (records b) rid"; cases "map_of (records b') rid")
       (auto simp: board_def record_evolves_def)
  then show "board b' = (\<lambda>rid. if rid \<in> C then None else board b rid)" by auto
  show "C \<subseteq> dom (board b)"
  proof
    fix rid
    assume "rid \<in> C"
    with assms obtain r where "map_of (records b) rid = Some r" by (auto simp: evolves_def)
    with rel [of rid] \<open>rid \<in> C\<close> show "rid \<in> dom (board b)"
      by (cases "map_of (records b') rid") (auto simp: board_def record_evolves_def)
  qed
qed

section \<open>Operations on one request\<close>

text \<open>A client that may be made a responder without breaking \<open>authorised\<close>.\<close>

definition may_answer :: "string \<Rightarrow> ('perm, 'form) pending_record \<Rightarrow> bool" where
  "may_answer c r \<longleftrightarrow> (\<forall>t. request_scope (snapshot_of r) = ClientRequest t \<longrightarrow> c = t)"

lemma marks_evolve:
  "may_answer c r \<Longrightarrow> record_evolves False r (mark_responder_eligible c r)"
  "may_answer c r \<Longrightarrow> record_evolves False r (mark_responder_delivered c r)"
  "record_evolves False r (mark_responder_stale c r)"
  by (auto simp: record_evolves_def mark_responder_eligible_def mark_responder_delivered_def mark_responder_stale_def
      may_answer_def authorised_def)

lemma status_evolves:
  "status r = Pending \<Longrightarrow> st \<noteq> Pending \<Longrightarrow> record_evolves True r (r\<lparr>status := st\<rparr>)"
  by (auto simp: record_evolves_def authorised_def)

lemma matches_may_answer: "record_matches_responder c scopes r \<Longrightarrow> may_answer c r"
  by (simp add: record_matches_responder_def may_answer_def split: pending_request_scope.splits)

text \<open>Every record filed under an id may be answered by a client.\<close>

definition may_answer_at :: "string \<Rightarrow> string \<Rightarrow> ('perm, 'form) server_request_broker \<Rightarrow> bool" where
  "may_answer_at rid c b \<longleftrightarrow> (\<forall>r. map_of (records b) rid = Some r \<longrightarrow> may_answer c r)"

lemma evolves_may_answer:
  assumes "evolves C b b'" "may_answer_at rid c b"
  shows "may_answer_at rid c b'"
proof -
  have "may_answer c r'" if "map_of (records b') rid = Some r'" for r'
  proof -
    have "rel_option (record_evolves (rid \<in> C)) (map_of (records b) rid) (Some r')"
      using assms(1) that unfolding evolves_def by metis
    then show ?thesis
      using assms(2) by (cases "map_of (records b) rid") (auto simp: may_answer_at_def may_answer_def record_evolves_def)
  qed
  then show ?thesis by (simp add: may_answer_at_def)
qed

lemma update_record_evolves:
  assumes "\<And>r. map_of (records b) rid = Some r \<Longrightarrow> record_evolves False r (f r)"
  shows "evolves {} b (update_record f rid b)"
  using assms by (cases "map_of (records b) rid") (auto simp: update_record_def intro: evolves_refl evolves_update)

lemma interrupt_evolves:
  "evolves (case fst (interrupt_request rid b) of Some _ \<Rightarrow> {rid} | None \<Rightarrow> {}) b (snd (interrupt_request rid b))"
  by (auto simp: interrupt_request_def split: option.split intro: evolves_refl evolves_update status_evolves)

lemma resolve_evolves:
  "evolves (case fst (resolve_request_without_responder rid b) of Some _ \<Rightarrow> {rid} | None \<Rightarrow> {}) b
     (snd (resolve_request_without_responder rid b))"
  by (auto simp: resolve_request_without_responder_def split: option.split intro: evolves_refl evolves_update status_evolves)

definition accepted_ids :: "response_outcome \<Rightarrow> string list" where
  "accepted_ids out = (case out of Accepted rid _ _ _ \<Rightarrow> [rid] | _ \<Rightarrow> [])"

lemma delivered_all_evolves:
  "list_all (\<lambda>d. may_answer (delivery_client d) r) ds \<Longrightarrow>
     record_evolves False r (foldl (\<lambda>r d. mark_responder_delivered (delivery_client d) r) r ds)"
proof (induction ds arbitrary: r)
  case Nil
  then show ?case by (simp add: record_evolves_refl)
next
  case (Cons d ds)
  let ?r = "mark_responder_delivered (delivery_client d) r"
  have "list_all (\<lambda>d. may_answer (delivery_client d) ?r) ds"
    using Cons.prems by (simp add: may_answer_def mark_responder_delivered_def)
  from record_evolves_trans [OF marks_evolve(2) Cons.IH [OF this]] Cons.prems show ?case by simp
qed

lemma scan_unseen_subset: "set (scan_unseen seen ds) \<subseteq> set ds"
  by (induction seen ds rule: scan_unseen.induct) auto

lemma mark_and_build_evolves:
  assumes "\<And>d. d \<in> set ds \<Longrightarrow> may_answer_at rid (delivery_client d) b"
  shows "evolves {} b (snd (mark_and_build_deliveries rid ds b))"
proof (cases "map_of (records b) rid")
  case None
  then show ?thesis by (simp add: mark_and_build_deliveries_def evolves_refl)
next
  case (Some r)
  let ?chosen = "filter (\<lambda>d. can_deliver_to (delivery_client d) r) (scan_unseen {} ds)"
  have "list_all (\<lambda>d. may_answer (delivery_client d) r) ?chosen"
    using assms Some scan_unseen_subset [of "{}" ds] by (auto simp: list_all_iff may_answer_at_def)
  from evolves_update [OF Some delivered_all_evolves [OF this]] Some show ?thesis
    by (simp add: mark_and_build_deliveries_def Let_def)
qed

lemma offer_each_evolves:
  assumes "\<And>rid. rid \<in> set rids \<Longrightarrow> may_answer_at rid (delivery_client d) b"
  shows "evolves {} b (snd (offer_each d rids b))"
  using assms
proof (induction rids arbitrary: b)
  case Nil
  then show ?case by (simp add: evolves_refl)
next
  case (Cons rid rids)
  let ?b1 = "update_record (mark_responder_eligible (delivery_client d)) rid b"
  let ?b2 = "snd (mark_and_build_deliveries rid [d] ?b1)"
  have 1: "evolves {} b ?b1"
    using Cons.prems [of rid] by (auto intro!: update_record_evolves marks_evolve simp: may_answer_at_def)
  have 2: "evolves {} ?b1 ?b2"
    using Cons.prems [of rid] evolves_may_answer [OF 1] by (auto intro!: mark_and_build_evolves)
  have 12: "evolves {} b ?b2" using evolves_trans [OF 1 2] by simp
  have "evolves {} ?b2 (snd (offer_each d rids ?b2))"
    using Cons.prems evolves_may_answer [OF 12] by (auto intro: Cons.IH)
  from evolves_trans [OF 12 this] show ?case by (simp add: case_prod_beta)
qed

lemma authorise_evolves:
  "record_evolves False r
     (if responders r c = None \<and> record_matches_responder c scopes r then mark_responder_eligible c r else r)"
  by (auto simp: record_evolves_refl intro!: marks_evolve(1) intro: matches_may_answer)

lemma handle_response_evolves:
  "evolves (set (accepted_ids (fst (handle_response_from_scopes c rid answer scopes b)))) b
     (snd (handle_response_from_scopes c rid answer scopes b))"
proof (cases "map_of (records b) rid")
  case None
  then show ?thesis by (simp add: handle_response_from_scopes_def accepted_ids_def evolves_refl)
next
  case (Some r0)
  define r where "r = (if responders r0 c = None \<and> record_matches_responder c scopes r0
    then mark_responder_eligible c r0 else r0)"
  let ?b1 = "b\<lparr>records := AList.update rid r (records b)\<rparr>"
  let ?b2 = "?b1\<lparr>records := AList.update rid (r\<lparr>status := Resolved\<rparr>) (records ?b1)\<rparr>"
  have 1: "evolves {} b ?b1"
    by (rule evolves_update [OF Some, where p = False]) (simp_all add: r_def authorise_evolves)
  have 2: "evolves {rid} b ?b2" if "status r = Pending"
  proof -
    have "evolves {rid} ?b1 ?b2"
      by (rule evolves_update [where r = r and p = True])
         (use that in \<open>simp_all add: alist_simps status_evolves\<close>)
    from evolves_trans [OF 1 this] show ?thesis by simp
  qed
  show ?thesis
    using 1 2 Some unfolding handle_response_from_scopes_def
    by (simp add: r_def [symmetric] Let_def accepted_ids_def
        split: option.split responder_state.split request_status.split server_request_answer.split)
qed

lemma defer_delivery_evolves:
  assumes "may_answer_at (envelope_request_id (envelope d)) (delivery_client (request_delivery d)) b"
  shows "evolves {} b (defer_delivery d b)"
  using assms unfolding defer_delivery_def
  by (cases "map_of (records b) (envelope_request_id (envelope d))")
     (auto simp: may_answer_at_def intro: evolves_refl evolves_update marks_evolve)

lemma defer_deliveries_evolves:
  assumes "\<And>d. d \<in> set ds \<Longrightarrow> may_answer_at (envelope_request_id (envelope d)) (delivery_client (request_delivery d)) b"
  shows "evolves {} b (defer_deliveries ds b)"
  using assms
proof (induction ds arbitrary: b)
  case Nil
  then show ?case by (simp add: defer_deliveries_def evolves_refl)
next
  case (Cons d ds)
  have 1: "evolves {} b (defer_delivery d b)" by (rule defer_delivery_evolves) (simp add: Cons.prems)
  have "evolves {} (defer_delivery d b) (defer_deliveries ds (defer_delivery d b))"
    using Cons.prems evolves_may_answer [OF 1] by (auto intro!: Cons.IH)
  from evolves_trans [OF 1 this] show ?case by (simp add: defer_deliveries_def)
qed

section \<open>Clients and Tasks that come and go\<close>

lemma responder_available_evolves:
  assumes "keys_distinct (records b)"
  shows "evolves {} b (snd (observe_responder_available d scopes b))"
proof -
  let ?c = "delivery_client d"
  let ?b1 = "b\<lparr>available_responders :=
      AList.update ?c \<lparr>responder_delivery = d, responder_scopes = scopes\<rparr> (available_responders b)\<rparr>"
  let ?chosen = "filter (\<lambda>(rid, r). status r = Pending \<and> can_deliver_to ?c r
      \<and> supports_method (request_method r) d \<and> record_matches_responder ?c scopes r) (records ?b1)"
  have 1: "evolves {} b ?b1" by (rule evolves_refl) simp_all
  have "may_answer_at rid ?c ?b1" if "rid \<in> set (map fst ?chosen)" for rid
  proof -
    from that obtain r where "(rid, r) \<in> set (records b)" "record_matches_responder ?c scopes r" by auto
    moreover from this assms have "map_of (records b) rid = Some r" by simp
    ultimately show ?thesis by (simp add: may_answer_at_def matches_may_answer)
  qed
  then have "evolves {} ?b1 (snd (offer_each d (map fst ?chosen) ?b1))" by (rule offer_each_evolves)
  from evolves_trans [OF 1 this] show ?thesis by (simp add: observe_responder_available_def Let_def)
qed

lemma subscription_added_evolves:
  "keys_distinct (records b) \<Longrightarrow> evolves {} b (snd (observe_subscription_added d t b))"
  by (simp add: observe_subscription_added_def Let_def responder_available_evolves)

text \<open>Reported interruptions are exactly the concluded ids.\<close>

definition interrupted_ids :: "request_lifecycle_outcome list \<Rightarrow> string list" where
  "interrupted_ids outs = map (\<lambda>out. case out of LifecycleInterrupted rid _ \<Rightarrow> rid) outs"

lemma interrupted_ids_filter:
  assumes "broker_ok n b"
  shows "interrupted_ids (map lifecycle_interrupted (filter p (map snd (records b))))
    = map fst (filter (\<lambda>entry. p (snd entry)) (records b))"
proof -
  have "request_id (snapshot_of (snd entry)) = fst entry" if "entry \<in> set (records b)" for entry
    using assms that by (cases entry) (auto simp: broker_ok_def record_ok_def)
  then show ?thesis
    by (simp add: interrupted_ids_def lifecycle_interrupted_def filter_map comp_def)
qed

lemma filter_ids:
  assumes "keys_distinct (records b)"
  shows "rid \<in> set (map fst (filter (\<lambda>entry. p (snd entry)) (records b)))
    \<longleftrightarrow> (\<exists>r. map_of (records b) rid = Some r \<and> p r)"
  using assms by (force simp: image_iff)

lemma interrupt_scope_evolves:
  assumes "broker_ok n b"
  shows "evolves (set (interrupted_ids (fst (interrupt_scope sc b)))) b (snd (interrupt_scope sc b))"
proof (rule evolves_map)
  let ?ids = "set (interrupted_ids (fst (interrupt_scope sc b)))"
  have kd: "keys_distinct (records b)" using assms by (simp add: broker_ok_def)
  have ids: "rid \<in> ?ids \<longleftrightarrow> (\<exists>r. map_of (records b) rid = Some r \<and> status r = Pending \<and> request_scope (snapshot_of r) = sc)" for rid
    unfolding interrupt_scope_def fst_conv interrupted_ids_filter [OF assms] by (rule filter_ids [OF kd])
  show "record_evolves (rid \<in> ?ids) r
      (if status r = Pending \<and> request_scope (snapshot_of r) = sc then r\<lparr>status := Interrupted\<rparr> else r)"
    if "map_of (records b) rid = Some r" for rid r
    using that unfolding ids by (auto simp: status_evolves record_evolves_refl)
  show "?ids \<subseteq> dom (map_of (records b))" using ids by auto
qed (simp_all add: interrupt_scope_def)

lemma responder_unavailable_evolves:
  assumes "broker_ok n b"
  shows "evolves (set (interrupted_ids (fst (observe_responder_unavailable c b)))) b (snd (observe_responder_unavailable c b))"
proof (rule evolves_map)
  let ?ids = "set (interrupted_ids (fst (observe_responder_unavailable c b)))"
  have kd: "keys_distinct (records b)" using assms by (simp add: broker_ok_def)
  have ids: "rid \<in> ?ids \<longleftrightarrow> (\<exists>r. map_of (records b) rid = Some r \<and> status r = Pending
      \<and> request_scope (snapshot_of r) = ClientRequest c)" for rid
    unfolding observe_responder_unavailable_def fst_conv interrupted_ids_filter [OF assms] by (rule filter_ids [OF kd])
  show "record_evolves (rid \<in> ?ids) r (lose_responder c r)" if "map_of (records b) rid = Some r" for rid r
    using that unfolding ids
    by (auto simp: lose_responder_def status_evolves record_evolves_refl marks_evolve split: pending_request_scope.split)
  show "?ids \<subseteq> dom (map_of (records b))" using ids by auto
qed (simp_all add: observe_responder_unavailable_def)

lemma subscription_removed_evolves:
  "fst (observe_subscription_removed c t b) = []"
  "evolves {} b (snd (observe_subscription_removed c t b))"
proof -
  show "fst (observe_subscription_removed c t b) = []" by (simp add: observe_subscription_removed_def Let_def)
  define scopes where "scopes = (case map_option (\<lambda>r. r\<lparr>responder_scopes := filter (\<lambda>s. s \<noteq> TaskResponder t) (responder_scopes r)\<rparr>)
            (map_of (available_responders b) c) of Some r \<Rightarrow> responder_scopes r | None \<Rightarrow> [])"
  show "evolves {} b (snd (observe_subscription_removed c t b))"
    by (rule evolves_map [where f = "\<lambda>_ r. if pending_for t r \<and> \<not> record_matches_responder c scopes r
          then mark_responder_stale c r else r"])
       (auto simp: observe_subscription_removed_def Let_def scopes_def record_evolves_refl marks_evolve)
qed

lemma capability_unavailable_evolves:
  "fst (observe_capability_unavailable c scopes b) = []"
  "evolves {} b (snd (observe_capability_unavailable c scopes b))"
proof -
  show "fst (observe_capability_unavailable c scopes b) = []" by (simp add: observe_capability_unavailable_def Let_def)
  show "evolves {} b (snd (observe_capability_unavailable c scopes b))"
    by (rule evolves_map [where f = "\<lambda>_ r. if status r = Pending \<and> record_matches_responder c scopes r
          then mark_responder_stale c r else r"])
       (auto simp: observe_capability_unavailable_def Let_def record_evolves_refl marks_evolve)
qed

section \<open>Opening and forgetting\<close>

lemma eligible_may_answer:
  assumes "d \<in> set (open_eligible draft (filter_eligible_deliveries (draft_scope draft) m ds) rs)"
    and "draft_scope draft = ClientRequest t"
  shows "delivery_client d = t"
  using assms
  by (auto simp: open_eligible_def filter_eligible_deliveries_def scope_matches_responder_def
      record_matches_responder_def new_record_def)

lemma fresh_id:
  assumes "broker_ok n b"
  shows "map_of (records b) (rid_of (next_request_id b)) = None"
proof (cases "map_of (records b) (rid_of (next_request_id b))")
  case (Some r)
  with assms have "record_ok (next_request_id b) (rid_of (next_request_id b)) r" by (simp add: broker_ok_def)
  then show ?thesis by (auto simp: record_ok_def)
qed

lemma open_unavailable:
  assumes "open_request dp dq now draft ds b = (Unavailable reason, b')"
  shows "evolves {} b b'"
  using assms by (auto simp: open_request_def Let_def split: option.splits if_splits prod.splits intro: evolves_refl)

lemma record_ok_mono: "record_ok i rid r \<Longrightarrow> i \<le> j \<Longrightarrow> record_ok j rid r"
  by (auto simp: record_ok_def)

text \<open>The table just before deliveries are marked: one more record, under the next id.\<close>

lemma filed_ok:
  assumes "broker_ok n b" "Suc (Suc n) < two64"
    and "record_ok (Suc (next_request_id b)) (rid_of (next_request_id b)) r"
    and "records b' = AList.update (rid_of (next_request_id b)) r (records b)"
    and "next_request_id b' = u64_add (next_request_id b) 1"
  shows "broker_ok (Suc n) b'"
proof -
  have step: "next_request_id b' = Suc (next_request_id b)"
    using assms(1,2,5) by (simp add: broker_ok_def u64_simps)
  from assms(1) have "record_ok (Suc (next_request_id b)) rid r'" if "map_of (records b) rid = Some r'" for rid r'
    using that by (auto simp only: broker_ok_def intro: record_ok_mono [OF _ le_SucI [OF order_refl]])
  with step assms(1,3,4) show ?thesis
    by (auto simp: broker_ok_def alist_simps simp del: map_of_eq_Some_iff split: if_splits)
qed

lemma mark_and_build_out:
  assumes "d \<in> set (fst (mark_and_build_deliveries rid ds b))"
  shows "envelope_request_id (envelope d) = rid" "request_delivery d \<in> set ds"
  using assms scan_unseen_subset [of "{}" ds]
  by (auto simp: mark_and_build_deliveries_def Let_def build_delivery_def split: option.splits)

text \<open>An opened request is filed as a pending record under the next id, then its deliveries are marked.\<close>

lemma open_opened:
  assumes "open_request dp dq now draft ds b = (Opened snap out, b')"
  obtains r b3 eligible where
    "request_id snap = rid_of (next_request_id b)" "request_scope snap = draft_scope draft"
    "snapshot_of r = snap" "request_method r = draft_method draft" "status r = Pending"
    "responders r = map_of (map (\<lambda>d. (delivery_client d, Eligible)) eligible)"
    "\<And>d t. d \<in> set eligible \<Longrightarrow> draft_scope draft = ClientRequest t \<Longrightarrow> delivery_client d = t"
    "records b3 = AList.update (request_id snap) r (records b)"
    "next_request_id b3 = u64_add (next_request_id b) 1"
    "mark_and_build_deliveries (request_id snap) eligible b3 = (out, b')"
    "eligible = open_eligible draft (filter_eligible_deliveries (draft_scope draft) (draft_method draft) ds)
       (foldl (\<lambda>rs d. register_delivery (draft_scope draft) d rs) (available_responders b)
         (filter_eligible_deliveries (draft_scope draft) (draft_method draft) ds))"
proof -
  let ?filtered = "filter_eligible_deliveries (draft_scope draft) (draft_method draft) ds"
  define b1 where "b1 = b\<lparr>available_responders :=
      foldl (\<lambda>rs d. register_delivery (draft_scope draft) d rs) (available_responders b) ?filtered\<rparr>"
  define eligible where "eligible = open_eligible draft ?filtered (available_responders b1)"
  from assms obtain k where k: "classify_request_method (draft_method draft) = Some k"
    by (auto simp: open_request_def split: option.splits)
  define snap' where "snap' = \<lparr>request_id = rid_of (next_request_id b), request_scope = draft_scope draft, kind = k,
      title = draft_title draft,
      permission = permission_snapshot dp (draft_method draft) (draft_params draft),
      question = question_snapshot dq (draft_method draft) (draft_params draft), created_at = Some now\<rparr>"
  define r where "r = new_record snap' (draft_method draft) (draft_params draft) (map delivery_client eligible)"
  define b3 where "b3 = b1\<lparr>next_request_id := u64_add (next_request_id b1) 1,
      records := AList.update (request_id snap') r (records b1)\<rparr>"
  have "open_request dp dq now draft ds b =
      (if eligible = [] \<and> (case draft_scope draft of ClientRequest _ \<Rightarrow> True | TaskRequest _ \<Rightarrow> False)
       then (Unavailable NoEligibleResponder, b1)
       else (case mark_and_build_deliveries (request_id snap') eligible b3 of (out, b4) \<Rightarrow> (Opened snap' out, b4)))"
    unfolding open_request_def k option.case Let_def b1_def [symmetric] eligible_def [symmetric]
    by (simp add: allocate_request_id_def rid_of_def snap'_def r_def b3_def b1_def)
  with assms have "snap = snap'" "mark_and_build_deliveries (request_id snap') eligible b3 = (out, b')"
    by (simp_all split: if_splits prod.splits)
  then show ?thesis
    using eligible_may_answer [of _ draft "draft_method draft" ds "available_responders b1"]
    by (intro that [of r eligible b3]) (auto simp: r_def snap'_def new_record_def b3_def b1_def eligible_def comp_def)
qed

lemma open_opened_ok:
  assumes "broker_ok n b" "Suc (Suc n) < two64" "open_request dp dq now draft ds b = (Opened snap out, b')"
  shows "request_id snap = rid_of (next_request_id b)" "request_scope snap = draft_scope draft"
    and "broker_ok (Suc n) b'" "board b' = (board b)(request_id snap \<mapsto> draft_scope draft)"
    and "\<And>d. d \<in> set out \<Longrightarrow> envelope_request_id (envelope d) = request_id snap
           \<and> may_answer_at (request_id snap) (delivery_client (request_delivery d)) b'"
proof -
  obtain r b3 eligible where o: "request_id snap = rid_of (next_request_id b)" "request_scope snap = draft_scope draft"
    "snapshot_of r = snap" "status r = Pending"
    "responders r = map_of (map (\<lambda>d. (delivery_client d, Eligible)) eligible)"
    "\<And>d t. d \<in> set eligible \<Longrightarrow> draft_scope draft = ClientRequest t \<Longrightarrow> delivery_client d = t"
    "records b3 = AList.update (request_id snap) r (records b)"
    "next_request_id b3 = u64_add (next_request_id b) 1"
    "mark_and_build_deliveries (request_id snap) eligible b3 = (out, b')"
    using assms(3) by (rule open_opened) blast
  show "request_id snap = rid_of (next_request_id b)" "request_scope snap = draft_scope draft" by (fact o(1), fact o(2))
  have "c = t" if "draft_scope draft = ClientRequest t" "responders r c \<noteq> None" for t c
    using that o(6) by (auto simp: o(5) map_of_eq_None_iff image_iff)
  then have "authorised r" by (auto simp: authorised_def o(2,3))
  then have "record_ok (Suc (next_request_id b)) (rid_of (next_request_id b)) r"
    by (auto simp: record_ok_def o(1,3))
  from filed_ok [OF assms(1,2) this] have b3: "broker_ok (Suc n) b3" by (simp add: o(7,8) o(1) [symmetric])
  have may: "may_answer_at (request_id snap) (delivery_client d) b3" if "d \<in> set eligible" for d
    using o(6) [OF that] by (auto simp: may_answer_at_def may_answer_def o(2,3,7) alist_simps)
  have ev: "evolves {} b3 b'"
    using mark_and_build_evolves [of eligible "request_id snap" b3] may by (simp add: o(9))
  show "broker_ok (Suc n) b'" by (rule evolves_ok [OF b3 ev])
  have "board b3 = (board b)(request_id snap \<mapsto> draft_scope draft)"
    by (auto simp: board_def fun_eq_iff o(2,3,4,7) alist_simps)
  with evolves_board(1) [OF ev] show "board b' = (board b)(request_id snap \<mapsto> draft_scope draft)"
    by (simp add: fun_eq_iff)
  show "envelope_request_id (envelope d) = request_id snap
      \<and> may_answer_at (request_id snap) (delivery_client (request_delivery d)) b'" if "d \<in> set out" for d
    using that mark_and_build_out [of d "request_id snap" eligible b3] may evolves_may_answer [OF ev] by (simp add: o(9))
qed

lemma fresh_off_board: "broker_ok n b \<Longrightarrow> board b (rid_of (next_request_id b)) = None"
  by (simp add: board_def fresh_id)

lemma forget_terminal_ok:
  assumes "broker_ok n b"
  shows "broker_ok n (forget_auth_terminal_exchange rid b)"
    and "board (forget_auth_terminal_exchange rid b) =
      (if is_auth_terminal_exchange rid b then (board b)(rid := None) else board b)"
  using assms
  by (auto simp: forget_auth_terminal_exchange_def broker_ok_def board_def fun_eq_iff alist_simps
      simp del: map_of_eq_Some_iff split: if_splits)

lemma board_fresh:
  assumes "broker_ok n b" "board b rid \<noteq> None"
  shows "\<exists>i<next_request_id b. rid = rid_of i"
  using assms by (auto simp: board_def broker_ok_def record_ok_def simp del: map_of_eq_Some_iff split: option.splits)

section \<open>Who is offered a new request\<close>

definition responders_ok :: "('perm, 'form) server_request_broker \<Rightarrow> bool" where
  "responders_ok b \<longleftrightarrow> keys_distinct (available_responders b)
     \<and> (\<forall>c r. map_of (available_responders b) c = Some r \<longrightarrow> delivery_client (responder_delivery r) = c)"

lemma responders_ok_update:
  assumes "responders_ok b" "delivery_client (responder_delivery r) = c"
    and "available_responders b' = AList.update c r (available_responders b)"
  shows "responders_ok b'"
  using assms by (auto simp: responders_ok_def alist_simps simp del: map_of_eq_Some_iff)

lemma register_ok:
  assumes "responders_ok b" "available_responders b' = register_delivery sc d (available_responders b)"
  shows "responders_ok b'"
  by (rule responders_ok_update [OF assms(1) _ assms(2) [unfolded register_delivery_def Let_def]])
     (simp split: pending_request_scope.split)

lemma register_other:
  "c \<noteq> delivery_client d \<Longrightarrow> map_of (register_delivery sc d rs) c = map_of rs c"
  by (simp add: register_delivery_def Let_def alist_simps)

lemma register_all:
  "responders_ok b \<Longrightarrow> available_responders b' = foldl (\<lambda>rs d. register_delivery sc d rs) (available_responders b) ds \<Longrightarrow>
     responders_ok b'"
  "c \<notin> delivery_client ` set ds \<Longrightarrow> map_of (foldl (\<lambda>rs d. register_delivery sc d rs) rs ds) c = map_of rs c"
proof -
  show "responders_ok b'"
    if "responders_ok b" "available_responders b' = foldl (\<lambda>rs d. register_delivery sc d rs) (available_responders b) ds"
    using that
  proof (induction ds arbitrary: b)
    case (Cons d ds)
    have "responders_ok (b\<lparr>available_responders := register_delivery sc d (available_responders b)\<rparr>)"
      by (rule register_ok [OF Cons.prems(1)]) simp
    with Cons show ?case by simp
  qed (simp add: responders_ok_def)
  show "map_of (foldl (\<lambda>rs d. register_delivery sc d rs) rs ds) c = map_of rs c"
    if "c \<notin> delivery_client ` set ds"
    using that by (induction ds arbitrary: rs) (simp_all add: register_other)
qed

lemma scan_unseen_distinct:
  "distinct (map delivery_client ds) \<Longrightarrow> delivery_client ` set ds \<inter> seen = {} \<Longrightarrow> scan_unseen seen ds = ds"
  by (induction seen ds rule: scan_unseen.induct) auto

text \<open>The clients an opened request goes to, and that each gets it once.\<close>

definition offered :: "server_request_draft \<Rightarrow> delivery list \<Rightarrow> ('perm, 'form) server_request_broker \<Rightarrow> string set" where
  "offered draft ds b =
     {c. (\<exists>d\<in>set ds. delivery_client d = c \<and> supports_method (draft_method draft) d
            \<and> (\<forall>t. draft_scope draft = ClientRequest t \<longrightarrow> c = t))
       \<or> (\<exists>r. map_of (available_responders b) c = Some r \<and> supports_method (draft_method draft) (responder_delivery r)
            \<and> scope_matches_responder (draft_scope draft) (draft_method draft) c (responder_scopes r))}"

lemma filter_eligible_mem:
  "d \<in> set (filter_eligible_deliveries sc m ds) \<longleftrightarrow>
     d \<in> set ds \<and> supports_method m d \<and> (\<forall>t. sc = ClientRequest t \<longrightarrow> delivery_client d = t)"
  by (auto simp: filter_eligible_deliveries_def split: pending_request_scope.split)

lemma filter_eligible_distinct:
  "distinct (map delivery_client ds) \<Longrightarrow> distinct (map delivery_client (filter_eligible_deliveries sc m ds))"
  by (simp add: filter_eligible_deliveries_def distinct_map_filter split: pending_request_scope.split)

lemma open_eligible_spec:
  assumes "responders_ok b" "distinct (map delivery_client ds)"
    and "eligible = filter_eligible_deliveries (draft_scope draft) (draft_method draft) ds"
    and "rs = foldl (\<lambda>rs d. register_delivery (draft_scope draft) d rs) (available_responders b) eligible"
  shows "distinct (map delivery_client (open_eligible draft eligible rs))"
    "delivery_client ` set (open_eligible draft eligible rs) = offered draft ds b"
proof -
  let ?ok = "\<lambda>r. supports_method (draft_method draft) (responder_delivery r)
      \<and> scope_matches_responder (draft_scope draft) (draft_method draft) (delivery_client (responder_delivery r)) (responder_scopes r)
      \<and> \<not> list_ex (\<lambda>d. delivery_client d = delivery_client (responder_delivery r)) eligible"
  let ?more = "map responder_delivery (filter ?ok (map snd rs))"
  have rs_ok: "responders_ok (b\<lparr>available_responders := rs\<rparr>)"
    by (rule register_all(1) [OF assms(1), where sc = "draft_scope draft" and ds = eligible]) (simp add: assms(4))
  then have kd: "keys_distinct rs" and key: "\<And>c r. (c, r) \<in> set rs \<Longrightarrow> delivery_client (responder_delivery r) = c"
    by (auto simp: responders_ok_def)
  have keys: "map (\<lambda>e. delivery_client (responder_delivery (snd e))) rs = map fst rs"
    using key by (auto intro: map_cong)
  have "distinct (map (\<lambda>e. delivery_client (responder_delivery (snd e))) (filter (\<lambda>e. ?ok (snd e)) rs))"
    by (rule distinct_map_filter) (simp only: keys kd)
  then have "distinct (map delivery_client ?more)" by (simp add: filter_map comp_def)
  moreover have "set (map delivery_client ?more) \<inter> delivery_client ` set eligible = {}"
    by (auto simp: list_ex_iff)
  ultimately show "distinct (map delivery_client (open_eligible draft eligible rs))"
    using filter_eligible_distinct [OF assms(2)] assms(3) by (auto simp: open_eligible_def)
  have found: "map_of rs c = map_of (available_responders b) c" if "c \<notin> delivery_client ` set eligible" for c
    using register_all(2) [OF that] assms(4) by simp
  have more: "c \<in> delivery_client ` set ?more \<longleftrightarrow> c \<notin> delivery_client ` set eligible
      \<and> (\<exists>r. map_of rs c = Some r \<and> supports_method (draft_method draft) (responder_delivery r)
          \<and> scope_matches_responder (draft_scope draft) (draft_method draft) c (responder_scopes r))" for c
  proof
    assume "c \<in> delivery_client ` set ?more"
    then obtain k r where e: "(k, r) \<in> set rs" "?ok r" "c = delivery_client (responder_delivery r)" by auto
    then have "k = c" using key by simp
    with e kd have "map_of rs c = Some r" by simp
    moreover have "c \<notin> delivery_client ` set eligible" using e(2,3) by (auto simp: list_ex_iff)
    ultimately show "c \<notin> delivery_client ` set eligible
      \<and> (\<exists>r. map_of rs c = Some r \<and> supports_method (draft_method draft) (responder_delivery r)
          \<and> scope_matches_responder (draft_scope draft) (draft_method draft) c (responder_scopes r))"
      using e(2,3) by simp
  next
    assume r: "c \<notin> delivery_client ` set eligible
      \<and> (\<exists>r. map_of rs c = Some r \<and> supports_method (draft_method draft) (responder_delivery r)
          \<and> scope_matches_responder (draft_scope draft) (draft_method draft) c (responder_scopes r))"
    then obtain r where e: "(c, r) \<in> set rs" "supports_method (draft_method draft) (responder_delivery r)"
        "scope_matches_responder (draft_scope draft) (draft_method draft) c (responder_scopes r)"
      by (auto dest: map_of_SomeD)
    have c: "delivery_client (responder_delivery r) = c" by (rule key [OF e(1)])
    have "\<not> list_ex (\<lambda>d. delivery_client d = delivery_client (responder_delivery r)) eligible"
      using conjunct1 [OF r] c unfolding list_ex_iff by (metis imageI)
    then have "?ok r" using e(2,3) c by simp
    moreover have "r \<in> set (map snd rs)" using e(1) by force
    ultimately have "responder_delivery r \<in> set ?more" by simp
    then show "c \<in> delivery_client ` set ?more" using c by blast
  qed
  have first: "c \<in> delivery_client ` set eligible \<longleftrightarrow> (\<exists>d\<in>set ds. delivery_client d = c
      \<and> supports_method (draft_method draft) d \<and> (\<forall>t. draft_scope draft = ClientRequest t \<longrightarrow> c = t))" for c
    unfolding assms(3) image_iff by (auto simp: filter_eligible_mem Bex_def)
  have "c \<in> delivery_client ` set (open_eligible draft eligible rs) \<longleftrightarrow> c \<in> offered draft ds b" for c
    unfolding open_eligible_def set_append image_Un Un_iff more offered_def mem_Collect_eq first [symmetric]
    using found [of c] by auto
  then show "delivery_client ` set (open_eligible draft eligible rs) = offered draft ds b" by blast
qed

lemma open_reaches:
  assumes "responders_ok b" "distinct (map delivery_client ds)"
    and "open_request dp dq now draft ds b = (Opened snap out, b')"
  shows "distinct (map (\<lambda>d. delivery_client (request_delivery d)) out)"
    "set (map (\<lambda>d. delivery_client (request_delivery d)) out) = offered draft ds b"
proof -
  define eligible where "eligible = filter_eligible_deliveries (draft_scope draft) (draft_method draft) ds"
  define rs where "rs = foldl (\<lambda>rs d. register_delivery (draft_scope draft) d rs) (available_responders b) eligible"
  define goes where "goes = open_eligible draft eligible rs"
  note spec = open_eligible_spec [OF assms(1,2) eligible_def rs_def]
  obtain r b3 eligible' where o: "responders r = map_of (map (\<lambda>d. (delivery_client d, Eligible)) eligible')"
    "records b3 = AList.update (request_id snap) r (records b)"
    "mark_and_build_deliveries (request_id snap) eligible' b3 = (out, b')" "eligible' = goes"
    using assms(3) by (rule open_opened) (simp only: eligible_def rs_def goes_def)
  have r: "map_of (records b3) (request_id snap) = Some r"
      "responders r = map_of (map (\<lambda>d. (delivery_client d, Eligible)) goes)"
      "mark_and_build_deliveries (request_id snap) goes b3 = (out, b')"
    using o by (simp_all add: alist_simps)
  have "responders r c \<noteq> Some Delivered" for c
    by (auto simp: r(2) dest!: map_of_SomeD)
  then have all: "filter (\<lambda>d. can_deliver_to (delivery_client d) r) goes = goes"
    by (simp add: can_deliver_to_def)
  have scan: "scan_unseen {} goes = goes"
    by (rule scan_unseen_distinct) (use spec(1) in \<open>simp_all add: goes_def\<close>)
  have "map request_delivery out = goes"
    using r(1,3) by (auto simp: mark_and_build_deliveries_def Let_def all scan build_delivery_def comp_def)
  then have "map (\<lambda>d. delivery_client (request_delivery d)) out = map delivery_client goes"
    by (auto simp: comp_def)
  with spec show "distinct (map (\<lambda>d. delivery_client (request_delivery d)) out)"
    "set (map (\<lambda>d. delivery_client (request_delivery d)) out) = offered draft ds b"
    by (simp_all add: goes_def)
qed

text \<open>
  Why the clients of the offered deliveries must differ: \<open>scan\<close> stops at the first repeated client,
  so every client listed after it is left out.
\<close>

lemma repeated_client_starves_later:
  "map delivery_client (scan_unseen {} [\<lparr>delivery_client = ''A'', delivery_connection = ''1'', delivery_capabilities = []\<rparr>,
     \<lparr>delivery_client = ''A'', delivery_connection = ''2'', delivery_capabilities = []\<rparr>,
     \<lparr>delivery_client = ''B'', delivery_connection = ''3'', delivery_capabilities = []\<rparr>]) = [''A'']"
  by simp

section \<open>The table of responders\<close>

lemma responders_ok_same: "responders_ok b \<Longrightarrow> available_responders b' = available_responders b \<Longrightarrow> responders_ok b'"
  by (simp add: responders_ok_def)

lemma responders_ok_new: "responders_ok new_broker"
  by (simp add: responders_ok_def new_broker_def)

lemma mark_and_build_responders: "available_responders (snd (mark_and_build_deliveries rid ds b)) = available_responders b"
  by (simp add: mark_and_build_deliveries_def Let_def split: option.split)

lemma offer_each_responders: "available_responders (snd (offer_each d rids b)) = available_responders b"
  by (induction rids arbitrary: b)
     (simp_all add: case_prod_beta mark_and_build_responders update_record_def split: option.split)

lemma defer_responders: "available_responders (defer_deliveries ds b) = available_responders b"
proof -
  have one: "available_responders (defer_delivery d b) = available_responders b" for d b
    by (simp add: defer_delivery_def split: option.split)
  show ?thesis
    unfolding defer_deliveries_def by (induction ds arbitrary: b) (simp_all add: one)
qed

lemma responders_ok_ops:
  assumes "responders_ok b"
  shows "responders_ok (snd (open_request dp dq now draft ds b))"
    and "responders_ok (snd (observe_responder_available d scopes b))"
    and "responders_ok (snd (observe_responder_unavailable c b))"
    and "responders_ok (snd (observe_subscription_removed c t b))"
    and "responders_ok (snd (observe_capability_unavailable c scopes b))"
proof -
  let ?filtered = "filter_eligible_deliveries (draft_scope draft) (draft_method draft) ds"
  have "available_responders (snd (open_request dp dq now draft ds b)) = available_responders b
      \<or> available_responders (snd (open_request dp dq now draft ds b)) =
        foldl (\<lambda>rs d. register_delivery (draft_scope draft) d rs) (available_responders b) ?filtered"
    by (simp add: open_request_def Let_def allocate_request_id_def case_prod_beta mark_and_build_responders split: option.split)
  then show "responders_ok (snd (open_request dp dq now draft ds b))"
    using assms responders_ok_same register_all(1) [OF assms] by metis
  show "responders_ok (snd (observe_responder_available d scopes b))"
    by (rule responders_ok_update [OF assms, where r = "\<lparr>responder_delivery = d, responder_scopes = scopes\<rparr>"
          and c = "delivery_client d"])
       (simp_all add: observe_responder_available_def Let_def offer_each_responders)
  show "responders_ok (snd (observe_responder_unavailable c b))"
    using assms by (auto simp: responders_ok_def observe_responder_unavailable_def alist_simps simp del: map_of_eq_Some_iff)
  show "responders_ok (snd (observe_subscription_removed c t b))"
  proof (cases "map_of (available_responders b) c")
    case (Some r)
    show ?thesis
      by (rule responders_ok_update [OF assms, where c = c and
            r = "r\<lparr>responder_scopes := filter (\<lambda>s. s \<noteq> TaskResponder t) (responder_scopes r)\<rparr>"])
         (use assms Some in \<open>auto simp: observe_subscription_removed_def Let_def responders_ok_def simp del: map_of_eq_Some_iff\<close>)
  qed (auto intro: responders_ok_same [OF assms] simp: observe_subscription_removed_def Let_def)
  show "responders_ok (snd (observe_capability_unavailable c scopes b))"
  proof (cases "map_of (available_responders b) c")
    case (Some r)
    show ?thesis
      by (rule responders_ok_update [OF assms, where c = c and
            r = "r\<lparr>responder_delivery := (responder_delivery r)\<lparr>delivery_capabilities := []\<rparr>\<rparr>"])
         (use assms Some in \<open>auto simp: observe_capability_unavailable_def Let_def responders_ok_def simp del: map_of_eq_Some_iff\<close>)
  qed (auto intro: responders_ok_same [OF assms] simp: observe_capability_unavailable_def Let_def)
qed

end
