(* ===== verification/Request_Runtime_Facts.thy ===== *)
theory Request_Runtime_Facts
  imports Request_Runtime Request_Broker_Facts
begin

text \<open>
  What the request runtime promises: over every interleaving of its methods each request is
  concluded at most once, only by a client it was meant for, and an accepted permission answer is
  the one the waiting Agent gets.
\<close>

section \<open>Runs\<close>

text \<open>
  One event per method of the runtime, and one per iteration of a waiting loop. \<open>DeferEv\<close> is the
  second half of \<open>open_waitable_client_request\<close>, which works on deliveries an earlier
  \<open>open_waitable_request\<close> returned; the opening of secret and shell requests is \<open>OpenWaitableEv\<close>
  followed by \<open>DeferEv\<close>.
\<close>

datatype ('form, 'content) request_event =
    OpenEv string server_request_draft "delivery list"
  | OpenPermissionEv string string agent_permission_request "delivery list"
  | OpenQuestionEv string string 'form
  | OpenWaitableEv string pending_request_scope "delivery list" string string json
  | DeferEv "server_request_delivery list"
  | ResponseEv string string server_request_answer "responder_scope list"
  | AutoApproveEv string string
  | WaitPermissionEv bool string
  | WaitQuestionEv bool string
  | WaitClientEv bool nat nat string
  | ForgetTerminalEv string
  | InterruptEv string
  | InterruptTaskEv string
  | TransportLostEv string
  | ClientExpiredEv string
  | SubscriptionRemovedEv string string
  | ResponderAvailableEv delivery "responder_scope list"
  | ClientInitializedEv delivery "responder_scope list"
  | SubscriptionAddedEv delivery string

text \<open>What a step reports: requests put on the board, ids taken off it, deliveries handed to transports.\<close>

record request_report =
  opened_now :: "(string \<times> pending_request_scope) list"
  concluded_now :: "string list"
  delivered_now :: "server_request_delivery list"

record ('perm, 'form, 'content) request_world =
  runtime :: "('perm, 'form, 'content) request_runtime"
  issued :: "server_request_delivery list"

definition quiet :: request_report where
  "quiet = \<lparr>opened_now = [], concluded_now = [], delivered_now = []\<rparr>"

definition report_delivered :: "server_request_delivery list \<Rightarrow> request_report" where
  "report_delivered ds = quiet\<lparr>delivered_now := ds\<rparr>"

definition report_concluded :: "string list \<Rightarrow> request_report" where
  "report_concluded rids = quiet\<lparr>concluded_now := rids\<rparr>"

definition interrupted_now :: "string \<Rightarrow> ('perm, 'form) server_request_broker \<Rightarrow> string list" where
  "interrupted_now rid b = (case fst (interrupt_request rid b) of Some _ \<Rightarrow> [rid] | None \<Rightarrow> [])"

text \<open>The board entry of a returned id.\<close>

definition report_opened :: "(string \<times> pending_request_scope) option \<Rightarrow> request_report" where
  "report_opened entry = quiet\<lparr>opened_now := (case entry of Some e \<Rightarrow> [e] | None \<Rightarrow> [])\<rparr>"

fun request_step ::
  "('perm, 'form, 'content) request_codec \<Rightarrow> ('perm, 'form, 'content) request_world
     \<Rightarrow> ('form, 'content) request_event \<Rightarrow> request_report \<times> ('perm, 'form, 'content) request_world" where
  "request_step codec w (OpenEv now draft ds) =
     (case runtime_open codec now draft ds (runtime w) of
        (Opened snap out, rt) \<Rightarrow>
          ((report_opened (Some (request_id snap, draft_scope draft)))\<lparr>delivered_now := out\<rparr>, w\<lparr>runtime := rt\<rparr>)
      | (Unavailable _, rt) \<Rightarrow> (quiet, w\<lparr>runtime := rt\<rparr>))"
| "request_step codec w (OpenPermissionEv now t request ds) =
     (case open_permission_request codec now t request ds (runtime w) of
        (result, rt) \<Rightarrow>
          (report_opened (case result of Inr (Some rid) \<Rightarrow> Some (rid, TaskRequest t) | _ \<Rightarrow> None), w\<lparr>runtime := rt\<rparr>))"
| "request_step codec w (OpenQuestionEv now t form) =
     (case open_question_request codec now t form (runtime w) of
        (result, rt) \<Rightarrow>
          (report_opened (case result of Inr (Some rid) \<Rightarrow> Some (rid, TaskRequest t) | _ \<Rightarrow> None), w\<lparr>runtime := rt\<rparr>))"
| "request_step codec w (OpenWaitableEv now sc ds m t ps) =
     (case open_waitable_request codec now sc ds m t ps (runtime w) of
        (Inr (rid, out), rt) \<Rightarrow>
          ((report_opened (Some (rid, sc)))\<lparr>delivered_now := out\<rparr>, w\<lparr>runtime := rt, issued := issued w @ out\<rparr>)
      | (Inl _, rt) \<Rightarrow> (quiet, w\<lparr>runtime := rt\<rparr>))"
| "request_step codec w (DeferEv ds) =
     (quiet, if set ds \<subseteq> set (issued w)
             then w\<lparr>runtime := (runtime w)\<lparr>broker := defer_deliveries ds (broker (runtime w))\<rparr>\<rparr> else w)"
| "request_step codec w (ResponseEv c rid answer scopes) =
     (case runtime_handle_response_from_scopes codec c rid answer scopes (runtime w) of
        (out, rt) \<Rightarrow> (report_concluded (accepted_ids out), w\<lparr>runtime := rt\<rparr>))"
| "request_step codec w (AutoApproveEv rid opt) =
     (case auto_approve_permission rid opt (runtime w) of
        (approved, rt) \<Rightarrow> (report_concluded (if approved then [rid] else []), w\<lparr>runtime := rt\<rparr>))"
| "request_step codec w (WaitPermissionEv cancelled rid) =
     (report_concluded (if cancelled then interrupted_now rid (broker (runtime w)) else []),
      w\<lparr>runtime := snd (wait_permission_response cancelled rid (runtime w))\<rparr>)"
| "request_step codec w (WaitQuestionEv cancelled rid) =
     (report_concluded (if cancelled then interrupted_now rid (broker (runtime w)) else []),
      w\<lparr>runtime := snd (wait_question_response cancelled rid (runtime w))\<rparr>)"
| "request_step codec w (WaitClientEv cancelled timeout elapsed rid) =
     (report_concluded
        (if cancelled \<or> waitable_requests (runtime w) rid = Some None \<and> \<not> elapsed < timeout
         then interrupted_now rid (broker (runtime w)) else []),
      w\<lparr>runtime := snd (wait_client_response_cancellable cancelled timeout elapsed rid (runtime w))\<rparr>)"
| "request_step codec w (ForgetTerminalEv rid) =
     (report_concluded (if is_auth_terminal_exchange rid (broker (runtime w)) \<and> board (broker (runtime w)) rid \<noteq> None
                        then [rid] else []),
      w\<lparr>runtime := runtime_forget_auth_terminal_exchange rid (runtime w)\<rparr>)"
| "request_step codec w (InterruptEv rid) =
     (case runtime_interrupt_request rid (runtime w) of
        (sc, rt) \<Rightarrow> (report_concluded (case sc of Some _ \<Rightarrow> [rid] | None \<Rightarrow> []), w\<lparr>runtime := rt\<rparr>))"
| "request_step codec w (InterruptTaskEv t) =
     (report_concluded (interrupted_ids (fst (interrupt_scope (TaskRequest t) (broker (runtime w))))),
      w\<lparr>runtime := snd (interrupt_task_requests t (runtime w))\<rparr>)"
| "request_step codec w (TransportLostEv c) =
     (case runtime_observe_transport_unavailable c (runtime w) of
        (outs, rt) \<Rightarrow> (report_concluded (interrupted_ids outs), w\<lparr>runtime := rt\<rparr>))"
| "request_step codec w (ClientExpiredEv c) =
     (case runtime_observe_client_expired c (runtime w) of
        (outs, rt) \<Rightarrow> (report_concluded (interrupted_ids outs), w\<lparr>runtime := rt\<rparr>))"
| "request_step codec w (SubscriptionRemovedEv c t) =
     (case runtime_observe_subscription_removed c t (runtime w) of
        (outs, rt) \<Rightarrow> (report_concluded (interrupted_ids outs), w\<lparr>runtime := rt\<rparr>))"
| "request_step codec w (ResponderAvailableEv d scopes) =
     (case runtime_observe_responder_available d scopes (runtime w) of
        (out, rt) \<Rightarrow> (report_delivered out, w\<lparr>runtime := rt\<rparr>))"
| "request_step codec w (ClientInitializedEv d scopes) =
     (case runtime_observe_client_initialized d scopes (runtime w) of
        (out, rt) \<Rightarrow> (report_delivered out, w\<lparr>runtime := rt\<rparr>))"
| "request_step codec w (SubscriptionAddedEv d t) =
     (case runtime_observe_subscription_added d t (runtime w) of
        (out, rt) \<Rightarrow> (report_delivered out, w\<lparr>runtime := rt\<rparr>))"

text \<open>A run remembers what was opened and concluded so far.\<close>

record ('perm, 'form, 'content) request_history =
  world :: "('perm, 'form, 'content) request_world"
  opened_log :: "(string \<times> pending_request_scope) list"
  concluded_log :: "string list"

definition history_step ::
  "('perm, 'form, 'content) request_codec \<Rightarrow> ('perm, 'form, 'content) request_history
     \<Rightarrow> ('form, 'content) request_event \<Rightarrow> ('perm, 'form, 'content) request_history" where
  "history_step codec h ev =
     (case request_step codec (world h) ev of
        (out, w) \<Rightarrow> \<lparr>world = w, opened_log = opened_log h @ opened_now out,
                     concluded_log = concluded_log h @ concluded_now out\<rparr>)"

definition new_history :: "('perm, 'form, 'content) request_history" where
  "new_history = \<lparr>world = \<lparr>runtime = new_runtime, issued = []\<rparr>, opened_log = [], concluded_log = []\<rparr>"

section \<open>Invariant of the state\<close>

abbreviation world_broker :: "('perm, 'form, 'content) request_world \<Rightarrow> ('perm, 'form) server_request_broker" where
  "world_broker w \<equiv> broker (runtime w)"

definition waiters_ok :: "('perm, 'form) server_request_broker \<Rightarrow> (string \<Rightarrow> permission_waiter option) \<Rightarrow> bool" where
  "waiters_ok b waiters \<longleftrightarrow> (\<forall>rid pw. waiters rid = Some pw \<longrightarrow>
     (\<exists>i<next_request_id b. rid = rid_of i) \<and> (waiter_outcome pw \<noteq> None \<longrightarrow> board b rid = None))"

lemma waiters_okD:
  "waiters_ok b waiters \<Longrightarrow> waiters rid = Some pw \<Longrightarrow>
     (\<exists>i<next_request_id b. rid = rid_of i) \<and> (waiter_outcome pw \<noteq> None \<longrightarrow> board b rid = None)"
  by (simp add: waiters_ok_def)

definition issued_ok :: "('perm, 'form) server_request_broker \<Rightarrow> server_request_delivery list \<Rightarrow> bool" where
  "issued_ok b ds \<longleftrightarrow> (\<forall>d\<in>set ds. (\<exists>i<next_request_id b. envelope_request_id (envelope d) = rid_of i)
     \<and> may_answer_at (envelope_request_id (envelope d)) (delivery_client (request_delivery d)) b)"

definition world_ok :: "nat \<Rightarrow> ('perm, 'form, 'content) request_world \<Rightarrow> bool" where
  "world_ok n w \<longleftrightarrow> broker_ok n (world_broker w) \<and> waiters_ok (world_broker w) (permission_waiters (runtime w))
     \<and> issued_ok (world_broker w) (issued w)"

definition closes :: "('perm, 'form, 'content) request_world \<Rightarrow> request_report \<Rightarrow> ('perm, 'form, 'content) request_world \<Rightarrow> bool" where
  "closes w out w' \<longleftrightarrow> opened_now out = [] \<and> next_request_id (world_broker w') = next_request_id (world_broker w)
     \<and> distinct (concluded_now out) \<and> set (concluded_now out) \<subseteq> dom (board (world_broker w))
     \<and> board (world_broker w') = (\<lambda>rid. if rid \<in> set (concluded_now out) then None else board (world_broker w) rid)"

definition opens :: "('perm, 'form, 'content) request_world \<Rightarrow> request_report \<Rightarrow> ('perm, 'form, 'content) request_world \<Rightarrow> bool" where
  "opens w out w' \<longleftrightarrow> concluded_now out = []
     \<and> next_request_id (world_broker w') = Suc (next_request_id (world_broker w))
     \<and> (\<exists>sc. opened_now out = [(rid_of (next_request_id (world_broker w)), sc)]
         \<and> board (world_broker w') = (board (world_broker w))(rid_of (next_request_id (world_broker w)) \<mapsto> sc))"

definition step_ok ::
  "nat \<Rightarrow> ('perm, 'form, 'content) request_world \<Rightarrow> request_report \<Rightarrow> ('perm, 'form, 'content) request_world \<Rightarrow> bool" where
  "step_ok n w out w' \<longleftrightarrow> world_ok (Suc n) w' \<and> (closes w out w' \<or> opens w out w')"

text \<open>Waiters that were there before, or whose request is off the board.\<close>

definition waiters_from ::
  "('perm, 'form) server_request_broker \<Rightarrow> (string \<Rightarrow> permission_waiter option) \<Rightarrow> (string \<Rightarrow> permission_waiter option) \<Rightarrow> bool" where
  "waiters_from b waiters waiters' \<longleftrightarrow> (\<forall>rid pw. waiters' rid = Some pw \<longrightarrow>
     waiters rid = Some pw \<or> waiters rid \<noteq> None \<and> board b rid = None)"

lemma waiters_from_refl: "waiters_from b waiters waiters"
  by (simp add: waiters_from_def)

lemma evolve_step:
  assumes "world_ok n w" "evolves (set (concluded_now out)) (world_broker w) (world_broker w')"
    and "waiters_from (world_broker w') (permission_waiters (runtime w)) (permission_waiters (runtime w'))"
    and "issued w' = issued w" "distinct (concluded_now out)" "opened_now out = []"
  shows "step_ok n w out w'"
proof -
  let ?b = "world_broker w" and ?b' = "world_broker w'"
  have next_id: "next_request_id ?b' = next_request_id ?b" using assms(2) by (simp add: evolves_def)
  note brd = evolves_board [OF assms(2)]
  have "broker_ok (Suc n) ?b'"
    by (rule broker_ok_mono [OF evolves_ok [OF _ assms(2)], of n]) (use assms(1) in \<open>simp_all add: world_ok_def\<close>)
  moreover have "waiters_ok ?b' (permission_waiters (runtime w'))"
    using assms(1,3) by (fastforce simp: world_ok_def waiters_ok_def waiters_from_def next_id brd(1))
  moreover have "issued_ok ?b' (issued w')"
    using assms(1,4) evolves_may_answer [OF assms(2)] by (auto simp: world_ok_def issued_ok_def next_id)
  ultimately show ?thesis
    using assms(5,6) brd by (simp add: step_ok_def world_ok_def closes_def next_id)
qed

lemma open_step:
  assumes "world_ok n w" "Suc (Suc n) < two64"
    and "open_request dp dq now draft ds (world_broker w) = (Opened snap out, b1)"
    and "evolves {} b1 (world_broker w')"
    and "\<And>rid. permission_waiters (runtime w') rid = permission_waiters (runtime w) rid
           \<or> rid = request_id snap \<and> (\<exists>pw. permission_waiters (runtime w') rid = Some pw \<and> waiter_outcome pw = None)"
    and "issued w' = issued w \<or> issued w' = issued w @ out"
    and "opened_now rep = [(request_id snap, draft_scope draft)]" "concluded_now rep = []"
  shows "step_ok n w rep w'"
proof -
  let ?b = "world_broker w" and ?b' = "world_broker w'"
  have ok: "broker_ok n ?b" using assms(1) by (simp add: world_ok_def)
  note o = open_opened_ok [OF ok assms(2,3)]
  have ok': "broker_ok (Suc n) ?b'" by (rule evolves_ok [OF o(3) assms(4)])
  have brd: "board ?b' = (board ?b)(request_id snap \<mapsto> draft_scope draft)"
    using evolves_board(1) [OF assms(4)] o(4) by (simp add: fun_eq_iff)
  obtain r b3 eligible where o2: "records b3 = AList.update (request_id snap) r (records ?b)"
    "next_request_id b3 = u64_add (next_request_id ?b) 1"
    "snapshot_of r = snap"
    "\<And>d t. d \<in> set eligible \<Longrightarrow> draft_scope draft = ClientRequest t \<Longrightarrow> delivery_client d = t"
    "mark_and_build_deliveries (request_id snap) eligible b3 = (out, b1)"
    using assms(3) by (rule open_opened) blast
  have "evolves {} b3 (snd (mark_and_build_deliveries (request_id snap) eligible b3))"
    by (rule mark_and_build_evolves)
       (use o2(4) in \<open>auto simp: may_answer_at_def may_answer_def o2(1,3) o(2) alist_simps\<close>)
  then have ev3: "evolves {} b3 ?b'" using evolves_trans [OF _ assms(4)] by (fastforce simp: o2(5))
  have next_id: "next_request_id ?b' = Suc (next_request_id ?b)"
    using ev3 ok assms(2) by (simp add: evolves_def o2(2) u64_add_small broker_ok_def)
  have other: "may_answer_at rid c ?b'" if "may_answer_at rid c ?b" "rid \<noteq> request_id snap" for rid c
    by (rule evolves_may_answer [OF ev3]) (use that in \<open>simp add: may_answer_at_def o2(1) alist_simps\<close>)
  have "issued_ok ?b' (issued w)"
    using assms(1) other o(1) by (fastforce simp: world_ok_def issued_ok_def next_id intro: less_SucI)
  moreover have "issued_ok ?b' out"
    using o(1,5) evolves_may_answer [OF assms(4)] by (auto simp: issued_ok_def next_id)
  ultimately have issued: "issued_ok ?b' (issued w')"
    using assms(6) by (auto simp: issued_ok_def)
  have "waiters_ok ?b' (permission_waiters (runtime w'))"
    unfolding waiters_ok_def
  proof (intro allI impI)
    fix rid pw
    assume pw: "permission_waiters (runtime w') rid = Some pw"
    show "(\<exists>i<next_request_id ?b'. rid = rid_of i) \<and> (waiter_outcome pw \<noteq> None \<longrightarrow> board ?b' rid = None)"
    proof (cases "rid = request_id snap")
      case True
      have "permission_waiters (runtime w) rid = None"
        using assms(1) True o(1) by (cases "permission_waiters (runtime w) rid") (fastforce simp: world_ok_def waiters_ok_def)+
      with assms(5) [of rid] pw True o(1) show ?thesis by (auto simp: next_id)
    next
      case False
      with assms(5) [of rid] pw have "permission_waiters (runtime w) rid = Some pw" by simp
      moreover have "waiters_ok ?b (permission_waiters (runtime w))" using assms(1) by (simp add: world_ok_def)
      ultimately show ?thesis
        using waiters_okD [of ?b "permission_waiters (runtime w)" rid pw] False by (auto simp: next_id brd intro: less_SucI)
    qed
  qed
  with ok' issued brd next_id o(1) assms(7,8) show ?thesis
    by (simp add: step_ok_def world_ok_def opens_def)
qed

section \<open>Every event keeps the invariant\<close>

lemmas report_simps = report_opened_def report_concluded_def report_delivered_def quiet_def

lemma world_okD:
  assumes "world_ok n w"
  shows "broker_ok n (world_broker w)" "keys_distinct (records (world_broker w))"
    "waiters_ok (world_broker w) (permission_waiters (runtime w))" "issued_ok (world_broker w) (issued w)"
  using assms by (simp_all add: world_ok_def broker_ok_def)

lemma deferred_evolves:
  assumes "broker_ok n b" "Suc (Suc n) < two64" "open_request dp dq now draft ds b = (Opened snap out, b1)"
  shows "evolves {} b1 (defer_deliveries out b1)"
  by (rule defer_deliveries_evolves) (use open_opened_ok(5) [OF assms] in simp)

lemma open_ev_ok:
  assumes "world_ok n w" "Suc (Suc n) < two64"
  shows "step_ok n w (fst (request_step codec w (OpenEv now draft ds))) (snd (request_step codec w (OpenEv now draft ds)))"
proof -
  obtain o' b1 where op: "open_request (decode_permission codec) (decode_form codec) now draft ds (world_broker w) = (o', b1)"
    by fastforce
  show ?thesis
  proof (cases o')
    case (Opened snap out)
    with op show ?thesis
      by (intro open_step [OF assms, of _ _ _ draft ds snap out b1])
         (auto simp: runtime_open_def report_simps evolves_refl)
  next
    case (Unavailable reason)
    with op show ?thesis
      by (intro evolve_step [OF assms(1)])
         (auto simp: runtime_open_def report_simps waiters_from_refl intro: open_unavailable)
  qed
qed

lemma open_permission_ev_ok:
  assumes "world_ok n w" "Suc (Suc n) < two64"
  shows "step_ok n w (fst (request_step codec w (OpenPermissionEv now t request ds)))
    (snd (request_step codec w (OpenPermissionEv now t request ds)))"
proof -
  let ?draft = "\<lparr>draft_scope = TaskRequest t, draft_method = ''permission/request'',
          draft_title = permission_title request, draft_params = permission_params request\<rparr>"
  obtain o' b1 where op: "open_request (decode_permission codec) (decode_form codec) now ?draft ds (world_broker w) = (o', b1)"
    by fastforce
  show ?thesis
  proof (cases o')
    case (Opened snap out)
    with op show ?thesis
      by (intro open_step [OF assms, of _ _ _ ?draft ds snap out b1])
         (auto simp: open_permission_request_def runtime_open_def report_simps new_permission_waiter_def
            intro!: deferred_evolves [OF world_okD(1) [OF assms(1)] assms(2)])
  next
    case (Unavailable reason)
    with op show ?thesis
      by (intro evolve_step [OF assms(1)])
         (auto simp: open_permission_request_def runtime_open_def report_simps waiters_from_refl intro: open_unavailable)
  qed
qed

lemma open_question_ev_ok:
  assumes "world_ok n w" "Suc (Suc n) < two64"
  shows "step_ok n w (fst (request_step codec w (OpenQuestionEv now t form)))
    (snd (request_step codec w (OpenQuestionEv now t form)))"
proof (cases "encode_form codec form")
  case (Inl e)
  then show ?thesis
    by (intro evolve_step [OF assms(1)]) (auto simp: open_question_request_def report_simps waiters_from_refl evolves_refl)
next
  case (Inr ps)
  let ?draft = "\<lparr>draft_scope = TaskRequest t, draft_method = QUESTION_REQUEST, draft_title = ''Question'', draft_params = ps\<rparr>"
  obtain o' b1 where op: "open_request (decode_permission codec) (decode_form codec) now ?draft [] (world_broker w) = (o', b1)"
    by fastforce
  show ?thesis
  proof (cases o')
    case (Opened snap out)
    with op Inr show ?thesis
      by (intro open_step [OF assms, of _ _ _ ?draft "[]" snap out b1])
         (auto simp: open_question_request_def runtime_open_def report_simps
            intro!: deferred_evolves [OF world_okD(1) [OF assms(1)] assms(2)])
  next
    case (Unavailable reason)
    with op Inr show ?thesis
      by (intro evolve_step [OF assms(1)])
         (auto simp: open_question_request_def runtime_open_def report_simps waiters_from_refl intro: open_unavailable)
  qed
qed

lemma open_waitable_ev_ok:
  assumes "world_ok n w" "Suc (Suc n) < two64"
  shows "step_ok n w (fst (request_step codec w (OpenWaitableEv now sc ds m t ps)))
    (snd (request_step codec w (OpenWaitableEv now sc ds m t ps)))"
proof -
  let ?draft = "\<lparr>draft_scope = sc, draft_method = m, draft_title = t, draft_params = ps\<rparr>"
  obtain o' b1 where op: "open_request (decode_permission codec) (decode_form codec) now ?draft ds (world_broker w) = (o', b1)"
    by fastforce
  show ?thesis
  proof (cases o')
    case (Opened snap out)
    with op show ?thesis
      by (intro open_step [OF assms, of _ _ _ ?draft ds snap out b1])
         (auto simp: open_waitable_request_def runtime_open_def report_simps evolves_refl)
  next
    case (Unavailable reason)
    with op show ?thesis
      by (intro evolve_step [OF assms(1)])
         (auto simp: open_waitable_request_def runtime_open_def report_simps waiters_from_refl intro: open_unavailable)
  qed
qed

lemma defer_ev_ok:
  assumes "world_ok n w"
  shows "step_ok n w (fst (request_step codec w (DeferEv ds))) (snd (request_step codec w (DeferEv ds)))"
proof -
  have "evolves {} (world_broker w) (defer_deliveries ds (world_broker w))" if "set ds \<subseteq> set (issued w)"
    by (rule defer_deliveries_evolves) (use world_okD(4) [OF assms] that in \<open>auto simp: issued_ok_def\<close>)
  then show ?thesis
    by (intro evolve_step [OF assms]) (auto simp: report_simps waiters_from_refl evolves_refl)
qed

lemma interrupt_off_board: "board b rid = None \<Longrightarrow> interrupt_request rid b = (None, b)"
  by (auto simp: board_def interrupt_request_def split: option.splits if_splits)

lemma set_outcome_from: "board b rid = None \<Longrightarrow> waiters_from b waiters (snd (set_permission_outcome rid opt waiters))"
  by (auto simp: waiters_from_def set_permission_outcome_def split: option.splits)

lemma set_question_frame:
  "broker (snd (set_question_result codec rid v rt)) = broker rt"
  "permission_waiters (snd (set_question_result codec rid v rt)) = permission_waiters rt"
  by (simp_all add: set_question_result_def split: option.split)

lemma release_waitable_frame:
  "broker (release_waitable rid v rt) = broker rt"
  "permission_waiters (release_waitable rid v rt) = permission_waiters rt"
  by (simp_all add: release_waitable_def split: option.split)

lemma release_permission_frame:
  assumes "board (broker rt) rid = None"
  shows "broker (release_permission_waiter rid v rt) = broker rt"
    "waiters_from (broker rt) (permission_waiters rt) (permission_waiters (release_permission_waiter rid v rt))"
proof -
  show "broker (release_permission_waiter rid v rt) = broker rt"
    using assms
    by (simp add: release_permission_waiter_def runtime_interrupt_def interrupt_off_board Let_def split: option.split prod.split)
  show "waiters_from (broker rt) (permission_waiters rt) (permission_waiters (release_permission_waiter rid v rt))"
    using set_outcome_from [OF assms, of "permission_waiters rt"]
    by (auto simp: release_permission_waiter_def runtime_interrupt_def Let_def waiters_from_refl
        split: option.split prod.split) (metis snd_conv)+
qed

lemma accepted_id: "accepted_ids (fst (handle_response_from_scopes c rid answer scopes b)) \<in> {[], [rid]}"
  by (auto simp: accepted_ids_def handle_response_from_scopes_def Let_def
      split: option.split responder_state.split request_status.split server_request_answer.split)

lemma response_ev_ok:
  assumes "world_ok n w"
  shows "step_ok n w (fst (request_step codec w (ResponseEv c rid answer scopes)))
    (snd (request_step codec w (ResponseEv c rid answer scopes)))"
proof -
  let ?a = "normalize_question_answer codec rid (normalized_answer_for_waiter rid answer (runtime w)) (runtime w)"
  obtain out b where h: "handle_response_from_scopes c rid ?a scopes (world_broker w) = (out, b)" by fastforce
  have ev: "evolves (set (accepted_ids out)) (world_broker w) b"
    using handle_response_evolves [of c rid ?a scopes "world_broker w"] by (simp add: h)
  show ?thesis
  proof (cases "\<exists>r sc c' v. out = Accepted r sc c' v")
    case True
    then obtain r sc c' v where out: "out = Accepted r sc c' v" by blast
    with accepted_id [of c rid ?a scopes "world_broker w"] have "r = rid" by (simp add: h accepted_ids_def)
    with ev out have "board b rid = None" using evolves_board(1) [OF ev] by (simp add: accepted_ids_def)
    then show ?thesis
      using release_permission_frame [of "(runtime w)\<lparr>broker := b\<rparr>" rid v] ev out
      by (intro evolve_step [OF assms])
         (auto simp: runtime_handle_response_from_scopes_def Let_def h report_simps accepted_ids_def set_question_frame
           release_waitable_frame)
  next
    case False
    then have "accepted_ids out = []" by (cases out) (auto simp: accepted_ids_def)
    moreover have "runtime_handle_response_from_scopes codec c rid answer scopes (runtime w) = (out, (runtime w)\<lparr>broker := b\<rparr>)"
      using False by (cases out) (simp_all add: runtime_handle_response_from_scopes_def Let_def h)
    ultimately show ?thesis
      using ev by (intro evolve_step [OF assms]) (auto simp: report_simps waiters_from_refl)
  qed
qed

lemma resolve_on_board: "fst (resolve_request_without_responder rid b) = board b rid"
  by (simp add: resolve_request_without_responder_def board_def split: option.split)

lemma interrupt_on_board: "fst (interrupt_request rid b) = board b rid"
  by (simp add: interrupt_request_def board_def split: option.split)

lemma auto_approve_ev_ok:
  assumes "world_ok n w"
  shows "step_ok n w (fst (request_step codec w (AutoApproveEv rid opt))) (snd (request_step codec w (AutoApproveEv rid opt)))"
proof (cases "waiter_allows_option rid opt (runtime w) \<and> board (world_broker w) rid \<noteq> None")
  case True
  obtain sc where sc: "board (world_broker w) rid = Some sc" using True by auto
  define b where "b = snd (resolve_request_without_responder rid (world_broker w))"
  have r: "resolve_request_without_responder rid (world_broker w) = (Some sc, b)"
    using resolve_on_board [of rid "world_broker w"] sc by (simp add: b_def prod_eq_iff)
  have ev: "evolves {rid} (world_broker w) b" using resolve_evolves [of rid "world_broker w"] by (simp add: r)
  then have off: "board b rid = None" using evolves_board(1) [OF ev] by simp
  from True obtain pw where pw: "permission_waiters (runtime w) rid = Some pw" "waiter_options pw opt \<noteq> None"
    by (auto simp: waiter_allows_option_def allows_option_def split: option.splits)
  have "waiter_outcome pw = None"
    using waiters_okD [OF world_okD(3) [OF assms] pw(1)] sc by auto
  then have "fst (set_permission_outcome rid opt (permission_waiters (runtime w)))"
    using pw by (auto simp: set_permission_outcome_def)
  then show ?thesis
    using True r ev set_outcome_from [OF off, of "permission_waiters (runtime w)" opt]
    by (intro evolve_step [OF assms])
       (auto simp: auto_approve_permission_def report_simps split: prod.split)
next
  case False
  have "auto_approve_permission rid opt (runtime w) = (False, runtime w)"
  proof (cases "waiter_allows_option rid opt (runtime w)")
    case True
    with False have off: "board (world_broker w) rid = None" by simp
    then have "resolve_request_without_responder rid (world_broker w) = (None, world_broker w)"
      by (auto simp: board_def resolve_request_without_responder_def split: option.splits if_splits)
    with True show ?thesis by (simp add: auto_approve_permission_def)
  qed (simp add: auto_approve_permission_def)
  then show ?thesis
    by (intro evolve_step [OF assms]) (auto simp: report_simps waiters_from_refl evolves_refl)
qed

lemma interrupted_now_evolves: "evolves (set (interrupted_now rid b)) b (snd (interrupt_request rid b))"
  using interrupt_evolves [of rid b] by (simp add: interrupted_now_def split: option.splits)

lemma interrupted_now_distinct: "distinct (interrupted_now rid b)"
  by (simp add: interrupted_now_def split: option.split)

lemma waiters_from_remove: "waiters_from b waiters (waiters(rid := None))"
  by (simp add: waiters_from_def)

lemma wait_ev_ok:
  assumes "world_ok n w"
  shows "step_ok n w (fst (request_step codec w (WaitPermissionEv cancelled rid)))
      (snd (request_step codec w (WaitPermissionEv cancelled rid)))"
    and "step_ok n w (fst (request_step codec w (WaitQuestionEv cancelled rid)))
      (snd (request_step codec w (WaitQuestionEv cancelled rid)))"
    and "step_ok n w (fst (request_step codec w (WaitClientEv cancelled timeout elapsed rid)))
      (snd (request_step codec w (WaitClientEv cancelled timeout elapsed rid)))"
  by (intro evolve_step [OF assms];
      auto simp: report_simps wait_permission_response_def wait_question_response_def wait_client_response_cancellable_def
        Let_def runtime_interrupt_def remove_permission_waiter_def waiters_from_refl waiters_from_remove evolves_refl
        interrupted_now_evolves interrupted_now_distinct split: option.split)+

lemma forget_ev_ok:
  assumes "world_ok n w"
  shows "step_ok n w (fst (request_step codec w (ForgetTerminalEv rid))) (snd (request_step codec w (ForgetTerminalEv rid)))"
proof -
  let ?b = "world_broker w" and ?b' = "forget_auth_terminal_exchange rid (world_broker w)"
  note ok = world_okD [OF assms]
  have next_id: "next_request_id ?b' = next_request_id ?b" by (simp add: forget_auth_terminal_exchange_def)
  have sub: "board ?b' x = None" if "board ?b x = None" for x
    using that by (simp add: forget_terminal_ok(2) [OF ok(1)])
  have "broker_ok (Suc n) ?b'" by (rule broker_ok_mono [OF forget_terminal_ok(1) [OF ok(1)]]) simp
  moreover have "waiters_ok ?b' (permission_waiters (runtime w))"
    using ok(3) sub by (auto simp: waiters_ok_def next_id)
  moreover have "issued_ok ?b' (issued w)"
    using ok(4)
    by (auto simp: issued_ok_def next_id may_answer_at_def forget_auth_terminal_exchange_def alist_simps
        simp del: map_of_eq_Some_iff split: if_splits)
  ultimately show ?thesis
    by (auto simp: step_ok_def world_ok_def closes_def report_simps runtime_forget_auth_terminal_exchange_def next_id
        forget_terminal_ok(2) [OF ok(1)] fun_eq_iff)
qed

lemma drop_waiters_frame:
  "broker (drop_waiters rid rt) = broker rt"
  "permission_waiters (drop_waiters rid rt) = (permission_waiters rt)(rid := None)"
  by (simp_all add: drop_waiters_def remove_permission_waiter_def)

lemma interrupted_ids_map: "interrupted_ids outs = map interrupted_id outs"
  by (induction outs) (auto simp: interrupted_ids_def split: request_lifecycle_outcome.split)

lemma drop_all_frame:
  "broker (foldl (\<lambda>rt out. drop_waiters (interrupted_id out) rt) rt outs) = broker rt"
  "permission_waiters (foldl (\<lambda>rt out. drop_waiters (interrupted_id out) rt) rt outs) rid =
     (if rid \<in> set (interrupted_ids outs) then None else permission_waiters rt rid)"
  by (induction outs arbitrary: rt) (simp_all add: interrupted_ids_map drop_waiters_frame)

lemma interrupted_ids_distinct:
  assumes "broker_ok n b"
  shows "distinct (interrupted_ids (map lifecycle_interrupted (filter p (map snd (records b)))))"
  unfolding interrupted_ids_filter [OF assms]
  using assms by (simp add: broker_ok_def distinct_map_filter)

lemma interrupt_ev_ok:
  assumes "world_ok n w"
  shows "step_ok n w (fst (request_step codec w (InterruptEv rid))) (snd (request_step codec w (InterruptEv rid)))"
proof -
  obtain sc b where i: "interrupt_request rid (world_broker w) = (sc, b)" by fastforce
  show ?thesis
    using interrupt_evolves [of rid "world_broker w"]
    by (intro evolve_step [OF assms])
       (auto simp: report_simps runtime_interrupt_request_def drop_waiters_frame i waiters_from_remove split: option.splits)
qed

lemma loss_ok:
  assumes "world_ok n w" "evolves (set (interrupted_ids outs)) (world_broker w) b" "distinct (interrupted_ids outs)"
  shows "step_ok n w (report_concluded (interrupted_ids outs))
    (w\<lparr>runtime := foldl (\<lambda>rt out. drop_waiters (interrupted_id out) rt) ((runtime w)\<lparr>broker := b\<rparr>) outs\<rparr>)"
  by (intro evolve_step [OF assms(1)])
     (use assms(2,3) in \<open>auto simp: report_simps drop_all_frame waiters_from_def split: if_splits\<close>)

lemma loss_evs_ok:
  assumes "world_ok n w"
  shows "step_ok n w (fst (request_step codec w (InterruptTaskEv t))) (snd (request_step codec w (InterruptTaskEv t)))"
    and "step_ok n w (fst (request_step codec w (TransportLostEv c))) (snd (request_step codec w (TransportLostEv c)))"
    and "step_ok n w (fst (request_step codec w (ClientExpiredEv c))) (snd (request_step codec w (ClientExpiredEv c)))"
    and "step_ok n w (fst (request_step codec w (SubscriptionRemovedEv c t))) (snd (request_step codec w (SubscriptionRemovedEv c t)))"
proof -
  note ok = world_okD [OF assms]
  have d1: "distinct (interrupted_ids (fst (interrupt_scope sc (world_broker w))))" for sc
    unfolding interrupt_scope_def fst_conv by (rule interrupted_ids_distinct [OF ok(1)])
  have d2: "distinct (interrupted_ids (fst (observe_responder_unavailable c (world_broker w))))" for c
    unfolding observe_responder_unavailable_def fst_conv by (rule interrupted_ids_distinct [OF ok(1)])
  show "step_ok n w (fst (request_step codec w (InterruptTaskEv t))) (snd (request_step codec w (InterruptTaskEv t)))"
    using loss_ok [OF assms interrupt_scope_evolves [OF ok(1)] d1]
    by (simp add: interrupt_task_requests_def case_prod_beta)
  show "step_ok n w (fst (request_step codec w (TransportLostEv c))) (snd (request_step codec w (TransportLostEv c)))"
    "step_ok n w (fst (request_step codec w (ClientExpiredEv c))) (snd (request_step codec w (ClientExpiredEv c)))"
    using loss_ok [OF assms responder_unavailable_evolves [OF ok(1)] d2]
    by (simp_all add: runtime_observe_transport_unavailable_def runtime_observe_client_expired_def
        observe_transport_unavailable_def observe_client_expired_requests_def observe_responder_loss_def case_prod_beta)
  have "interrupted_ids (fst (observe_subscription_removed c t (world_broker w))) = []"
    by (simp add: subscription_removed_evolves(1) interrupted_ids_def)
  with loss_ok [OF assms, of "fst (observe_subscription_removed c t (world_broker w))"
      "snd (observe_subscription_removed c t (world_broker w))"] subscription_removed_evolves(2) [of "world_broker w" c t]
  show "step_ok n w (fst (request_step codec w (SubscriptionRemovedEv c t))) (snd (request_step codec w (SubscriptionRemovedEv c t)))"
    by (simp add: runtime_observe_subscription_removed_def observe_responder_loss_def case_prod_beta)
qed

lemma available_evs_ok:
  assumes "world_ok n w"
  shows "step_ok n w (fst (request_step codec w (ResponderAvailableEv d scopes)))
      (snd (request_step codec w (ResponderAvailableEv d scopes)))"
    and "step_ok n w (fst (request_step codec w (ClientInitializedEv d scopes)))
      (snd (request_step codec w (ClientInitializedEv d scopes)))"
    and "step_ok n w (fst (request_step codec w (SubscriptionAddedEv d t)))
      (snd (request_step codec w (SubscriptionAddedEv d t)))"
  using world_okD(2) [OF assms]
  by (intro evolve_step [OF assms];
      simp add: report_simps runtime_observe_responder_available_def runtime_observe_client_initialized_def
        runtime_observe_subscription_added_def on_broker_def observe_client_initialized_or_reattached_def
        case_prod_beta waiters_from_refl responder_available_evolves subscription_added_evolves)+

theorem request_step_ok:
  assumes "world_ok n w" "Suc (Suc n) < two64"
  shows "step_ok n w (fst (request_step codec w ev)) (snd (request_step codec w ev))"
  using assms
  by (cases ev)
     (simp_all only: open_ev_ok open_permission_ev_ok open_question_ev_ok open_waitable_ev_ok defer_ev_ok response_ev_ok
        auto_approve_ev_ok wait_ev_ok forget_ev_ok interrupt_ev_ok loss_evs_ok available_evs_ok)

section \<open>Histories\<close>

definition history_ok :: "nat \<Rightarrow> ('perm, 'form, 'content) request_history \<Rightarrow> bool" where
  "history_ok n h \<longleftrightarrow> world_ok n (world h)
     \<and> distinct (map fst (opened_log h)) \<and> distinct (concluded_log h)
     \<and> set (concluded_log h) \<subseteq> set (map fst (opened_log h))
     \<and> (\<forall>rid\<in>set (map fst (opened_log h)). \<exists>i<next_request_id (world_broker (world h)). rid = rid_of i)
     \<and> board (world_broker (world h)) = (\<lambda>rid. if rid \<in> set (concluded_log h) then None else map_of (opened_log h) rid)"

lemma history_new: "history_ok 0 new_history"
  by (simp add: history_ok_def new_history_def world_ok_def new_runtime_def broker_ok_new waiters_ok_def issued_ok_def
      board_new)

lemma map_of_snoc: "map_of xs k = None \<Longrightarrow> map_of (xs @ [(k, v)]) = (map_of xs)(k \<mapsto> v)"
  by (rule ext) (simp add: map_add_def split: option.split)

lemma history_step_ok:
  assumes "history_ok n h" "Suc (Suc n) < two64"
  shows "history_ok (Suc n) (history_step codec h ev)"
proof -
  obtain out w where st: "request_step codec (world h) ev = (out, w)" by fastforce
  let ?b = "world_broker (world h)"
  have brd: "board ?b = (\<lambda>rid. if rid \<in> set (concluded_log h) then None else map_of (opened_log h) rid)"
    using assms(1) by (simp add: history_ok_def)
  have ok: "step_ok n (world h) out w"
    using request_step_ok [of n "world h" codec ev] assms by (simp add: history_ok_def st)
  then consider (closes) "closes (world h) out w" | (opens) "opens (world h) out w" by (auto simp: step_ok_def)
  then show ?thesis
  proof cases
    case closes
    have "rid \<notin> set (concluded_log h) \<and> rid \<in> set (map fst (opened_log h))" if "rid \<in> set (concluded_now out)" for rid
    proof -
      have "board ?b rid \<noteq> None" using closes that by (auto simp: closes_def)
      then show ?thesis unfolding brd
        using map_of_eq_None_iff [of "opened_log h" rid] by (auto split: if_splits)
    qed
    with closes ok assms(1) show ?thesis
      by (auto simp: history_ok_def history_step_def st step_ok_def closes_def fun_eq_iff)
  next
    case opens
    let ?rid = "rid_of (next_request_id ?b)"
    from opens obtain sc where o: "opened_now out = [(?rid, sc)]" "concluded_now out = []"
      "board (world_broker w) = (board ?b)(?rid \<mapsto> sc)" "next_request_id (world_broker w) = Suc (next_request_id ?b)"
      by (auto simp: opens_def)
    have fresh: "?rid \<notin> set (map fst (opened_log h))"
      using assms(1) by (fastforce simp: history_ok_def)
    then have "?rid \<notin> set (concluded_log h)" and none: "map_of (opened_log h) ?rid = None"
      using assms(1) by (auto simp: history_ok_def map_of_eq_None_iff)
    then have "board (world_broker w) = (\<lambda>rid. if rid \<in> set (concluded_log h) then None
        else map_of (opened_log h @ [(?rid, sc)]) rid)"
      unfolding map_of_snoc [OF none] by (auto simp: o(3) brd fun_eq_iff)
    moreover have "\<exists>i<Suc (next_request_id ?b). rid = rid_of i" if "rid \<in> set (map fst (opened_log h))" for rid
      using assms(1) that less_SucI unfolding history_ok_def by blast
    ultimately show ?thesis
      using o(1,2,4) ok fresh assms(1)
      by (auto simp: history_ok_def history_step_def st step_ok_def simp del: map_of_append)
  qed
qed

interpretation requests: step_machine "history_step codec" history_ok "two64 - 2" for codec
  by unfold_locales (simp add: history_step_ok)

text \<open>
  C10: Each request is concluded at most once, and what is pending is exactly what was opened and
  not concluded. Over any sequence of fewer than \<open>2^64 - 2\<close> calls of the runtime, in any order and
  from any clients and Agent threads, no two requests get the same id, no id is concluded (answered,
  approved by policy, interrupted or forgotten) twice, only opened requests are concluded, and the
  pending requests of the broker, with their scopes, are the opened ones that are not concluded.
\<close>

theorem requests_concluded_once:
  assumes "length evs \<le> two64 - 2"
  shows "let h = foldl (history_step codec) new_history evs in
     distinct (map fst (opened_log h)) \<and> distinct (concluded_log h)
     \<and> set (concluded_log h) \<subseteq> set (map fst (opened_log h))
     \<and> board (broker (runtime (world h))) =
         (\<lambda>rid. if rid \<in> set (concluded_log h) then None else map_of (opened_log h) rid)"
  using requests.run_inv [OF history_new, of evs codec] assms by (simp add: Let_def history_ok_def)

section \<open>Who may answer\<close>

lemma accepted_authorised:
  assumes "broker_ok n b" "fst (handle_response_from_scopes c rid answer scopes b) = Accepted rid' sc c' v"
  shows "rid' = rid" "c' = c" "sc = ClientRequest t \<Longrightarrow> c = t" "answer = AnswerResult v" "board b rid = Some sc"
proof -
  from assms(2) obtain r0 where r0: "map_of (records b) rid = Some r0"
    by (auto simp: handle_response_from_scopes_def split: option.splits)
  define r where "r = (if responders r0 c = None \<and> record_matches_responder c scopes r0
    then mark_responder_eligible c r0 else r0)"
  have "record_evolves False r0 r" unfolding r_def by (rule authorise_evolves)
  moreover have "authorised r0" using assms(1) r0 by (auto simp: broker_ok_def record_ok_def)
  ultimately have auth: "authorised r" "snapshot_of r = snapshot_of r0" "status r = status r0"
    by (simp_all add: record_evolves_def)
  have accepted: "rid' = rid \<and> c' = c \<and> responders r c \<noteq> None \<and> status r = Pending \<and> answer = AnswerResult v
      \<and> sc = request_scope (snapshot_of r)"
    using assms(2) r0 unfolding handle_response_from_scopes_def
    by (auto simp: r_def [symmetric] Let_def
        split: option.splits responder_state.splits request_status.splits server_request_answer.splits)
  then show "rid' = rid" "c' = c" "answer = AnswerResult v" by simp_all
  show "c = t" if "sc = ClientRequest t" using accepted auth(1) that by (auto simp: authorised_def)
  show "board b rid = Some sc" using accepted auth r0 by (simp add: board_def)
qed

lemma runtime_accepted:
  assumes "fst (runtime_handle_response_from_scopes codec c rid answer scopes rt) = Accepted rid' sc c' v"
  shows "fst (handle_response_from_scopes c rid
      (normalize_question_answer codec rid (normalized_answer_for_waiter rid answer rt) rt) scopes (broker rt)) = Accepted rid' sc c' v"
  using assms by (simp add: runtime_handle_response_from_scopes_def Let_def case_prod_beta split: response_outcome.splits)

text \<open>
  C16: A request for one client is answered by that client alone. In every state the runtime can
  reach, when an answer from client c is accepted for a request directed at client t, whatever
  scopes c claims, c is t.
\<close>

theorem client_request_answered_by_target:
  assumes "length evs \<le> two64 - 2"
    and "fst (runtime_handle_response_from_scopes codec c rid answer scopes
           (runtime (world (foldl (history_step codec) new_history evs)))) = Accepted rid' (ClientRequest t) c' result"
  shows "c = t"
proof -
  have "history_ok (length evs) (foldl (history_step codec) new_history evs)"
    using requests.run_inv [OF history_new, of evs codec] assms(1) by simp
  then have "broker_ok (length evs) (broker (runtime (world (foldl (history_step codec) new_history evs))))"
    by (simp add: history_ok_def world_ok_def)
  from accepted_authorised(3) [OF this runtime_accepted [OF assms(2)]] show ?thesis by simp
qed

section \<open>Waiting Agents\<close>

text \<open>Events that do not withdraw the request from its waiting Agent.\<close>

fun leaves_waiter :: "string \<Rightarrow> ('form, 'content) request_event \<Rightarrow> bool" where
  "leaves_waiter rid (InterruptEv rid') \<longleftrightarrow> rid' \<noteq> rid"
| "leaves_waiter rid (WaitPermissionEv cancelled rid') \<longleftrightarrow> rid' \<noteq> rid"
| "leaves_waiter rid _ \<longleftrightarrow> True"

lemma set_outcome_keeps:
  "waiters rid = Some pw \<Longrightarrow> waiter_outcome pw \<noteq> None \<Longrightarrow>
     snd (set_permission_outcome rid' opt waiters) rid = Some pw"
  by (auto simp: set_permission_outcome_def split: option.split)

lemma release_keeps:
  assumes "permission_waiters rt rid = Some pw" "waiter_outcome pw \<noteq> None"
  shows "permission_waiters (release_permission_waiter rid' v rt) rid = Some pw"
  using set_outcome_keeps [of "permission_waiters rt", OF assms]
  by (auto simp: release_permission_waiter_def runtime_interrupt_def Let_def assms split: option.split prod.split)
     (metis snd_conv)+

lemma response_keeps:
  assumes "permission_waiters rt rid = Some pw" "waiter_outcome pw \<noteq> None"
  shows "permission_waiters (snd (runtime_handle_response_from_scopes codec c rid' answer scopes rt)) rid = Some pw"
proof -
  let ?b = "snd (handle_response_from_scopes c rid'
      (normalize_question_answer codec rid' (normalized_answer_for_waiter rid' answer rt) rt) scopes (broker rt))"
  have "permission_waiters (release_permission_waiter rid' v (rt\<lparr>broker := ?b\<rparr>)) rid = Some pw" for v
    by (rule release_keeps) (use assms in simp_all)
  then show ?thesis
    using assms
    by (auto simp: runtime_handle_response_from_scopes_def Let_def case_prod_beta set_question_frame release_waitable_frame
        split: response_outcome.split)
qed

lemma open_fresh_waiter:
  assumes "world_ok n w" "Suc (Suc n) < two64" "permission_waiters (runtime w) rid = Some pw"
    and "open_request dp dq now draft ds (world_broker w) = (Opened snap out, b1)"
  shows "request_id snap \<noteq> rid"
  using waiters_okD [OF world_okD(3) [OF assms(1)] assms(3)] open_opened_ok(1) [OF world_okD(1) [OF assms(1)] assms(2,4)]
  by auto

lemma waiter_kept:
  assumes "world_ok n w" "Suc (Suc n) < two64"
    and "permission_waiters (runtime w) rid = Some pw" "waiter_outcome pw \<noteq> None" "leaves_waiter rid ev"
  shows "permission_waiters (runtime (snd (request_step codec w ev))) rid = Some pw"
proof -
  have off: "board (world_broker w) rid = None"
    using waiters_okD [OF world_okD(3) [OF assms(1)] assms(3)] assms(4) by simp
  note fresh = open_fresh_waiter [OF assms(1-3)]
  have safe: "rid \<notin> set (concluded_now (fst (request_step codec w ev)))"
    using request_step_ok [OF assms(1,2), of codec ev] off by (auto simp: step_ok_def closes_def opens_def)
  show ?thesis
  proof (cases ev)
    case (ResponseEv c rid' answer scopes)
    with response_keeps [OF assms(3,4)] show ?thesis by (simp add: case_prod_beta)
  next
    case (AutoApproveEv rid' opt)
    with set_outcome_keeps [of "permission_waiters (runtime w)", OF assms(3,4)] assms(3) show ?thesis
      by (simp add: auto_approve_permission_def case_prod_beta split: option.split)
  next
    case (OpenPermissionEv now t request ds)
    let ?draft = "\<lparr>draft_scope = TaskRequest t, draft_method = ''permission/request'',
          draft_title = permission_title request, draft_params = permission_params request\<rparr>"
    obtain o' b1 where op: "open_request (decode_permission codec) (decode_form codec) now ?draft ds (world_broker w) = (o', b1)"
      by fastforce
    show ?thesis
    proof (cases o')
      case (Opened snap out)
      with fresh [OF op [unfolded Opened]] OpenPermissionEv op assms(3) show ?thesis
        by (simp add: open_permission_request_def runtime_open_def)
    next
      case (Unavailable reason)
      with OpenPermissionEv op assms(3) show ?thesis
        by (simp add: open_permission_request_def runtime_open_def)
    qed
  next
    case (InterruptTaskEv t)
    with assms(3) safe show ?thesis
      by (simp add: interrupt_task_requests_def case_prod_beta drop_all_frame report_simps)
  next
    case (TransportLostEv c)
    with assms(3) safe show ?thesis
      by (simp add: runtime_observe_transport_unavailable_def observe_responder_loss_def case_prod_beta drop_all_frame report_simps)
  next
    case (ClientExpiredEv c)
    with assms(3) safe show ?thesis
      by (simp add: runtime_observe_client_expired_def observe_responder_loss_def case_prod_beta drop_all_frame report_simps)
  next
    case (SubscriptionRemovedEv c t)
    with assms(3) safe show ?thesis
      by (simp add: runtime_observe_subscription_removed_def observe_responder_loss_def case_prod_beta drop_all_frame report_simps)
  qed (use assms(3,5) in \<open>auto simp: runtime_open_def open_question_request_def open_waitable_request_def
      wait_permission_response_def wait_question_response_def wait_client_response_cancellable_def Let_def
      runtime_interrupt_def remove_permission_waiter_def runtime_forget_auth_terminal_exchange_def
      runtime_interrupt_request_def drop_waiters_frame runtime_observe_responder_available_def
      runtime_observe_client_initialized_def runtime_observe_subscription_added_def on_broker_def case_prod_beta
      split: prod.split open_request_outcome.split sum.split option.split\<close>)
qed

lemma waiter_kept_run:
  assumes "history_ok n h" "n + length evs \<le> two64 - 2" "list_all (leaves_waiter rid) evs"
    and "permission_waiters (runtime (world h)) rid = Some pw" "waiter_outcome pw \<noteq> None"
  shows "permission_waiters (runtime (world (foldl (history_step codec) h evs))) rid = Some pw"
  using assms
proof (induction evs arbitrary: n h)
  case (Cons ev evs)
  have bound: "Suc (Suc n) < two64" using Cons.prems(2) by simp
  have "permission_waiters (runtime (world (history_step codec h ev))) rid = Some pw"
    using waiter_kept [OF _ bound Cons.prems(4,5), of ev codec] Cons.prems(1,3)
    by (simp add: history_ok_def history_step_def case_prod_beta)
  with Cons.IH [OF history_step_ok [OF Cons.prems(1) bound]] Cons.prems show ?case by simp
qed simp

lemma answer_sets_waiter:
  assumes "world_ok n w" "permission_waiters (runtime w) rid = Some pw"
    and "runtime_handle_response_from_scopes codec c rid answer scopes (runtime w) = (Accepted rid' sc c' result, rt)"
  obtains opt dec where "option_id_from_result result = Some opt" "waiter_options pw opt = Some dec"
    "permission_waiters rt rid = Some (pw\<lparr>waiter_outcome := Some \<lparr>outcome = Selected opt, decision = Some dec\<rparr>\<rparr>)"
proof -
  let ?a1 = "normalized_answer_for_waiter rid answer (runtime w)"
  let ?a = "normalize_question_answer codec rid ?a1 (runtime w)"
  obtain b where h: "handle_response_from_scopes c rid ?a scopes (world_broker w) = (Accepted rid' sc c' result, b)"
    using assms(3) by (auto simp: runtime_handle_response_from_scopes_def Let_def split: prod.splits response_outcome.splits)
  note acc = accepted_authorised [OF world_okD(1) [OF assms(1)], of c rid ?a scopes, unfolded h, simplified]
  from acc have "?a1 = AnswerResult result"
    by (auto simp: normalize_question_answer_def split: option.splits server_request_answer.splits if_splits)
  then obtain opt dec where o: "option_id_from_result result = Some opt" "waiter_options pw opt = Some dec"
    using assms(2)
    by (auto simp: normalized_answer_for_waiter_def waiter_allows_option_def allows_option_def
        split: server_request_answer.splits option.splits if_splits)
  have "waiter_outcome pw = None"
    using waiters_okD [OF world_okD(3) [OF assms(1)] assms(2)] acc by auto
  then have "permission_waiters rt rid = Some (pw\<lparr>waiter_outcome := Some \<lparr>outcome = Selected opt, decision = Some dec\<rparr>\<rparr>)"
    using assms(2,3) h o
    by (auto simp: runtime_handle_response_from_scopes_def Let_def set_question_frame release_waitable_frame
        release_permission_waiter_def set_permission_outcome_def)
  with o show ?thesis by (rule that)
qed

text \<open>
  C12: An accepted permission answer is the answer the Agent gets. Take any history in which an
  Agent's permission request is waiting and a client's answer to it is accepted, and continue it
  with any further events, from any client and any other Agent thread, that do not interrupt this
  request by id and are not this waiter's own iterations. Then the waiter's next iteration, not
  cancelled, returns the option the accepted answer names, with the decision the Agent's request
  attached to that option; later answers, losses of clients and Task interruptions do not change it. A
  cancelled iteration of the waiter, or an interruption of this request by id before the iteration,
  makes it return the cancelled response instead.
\<close>

theorem agent_gets_the_accepted_answer:
  assumes "length evs + length evs' < two64 - 2"
    and "h = foldl (history_step codec) new_history evs"
    and "permission_waiters (runtime (world h)) rid = Some pw"
    and "fst (runtime_handle_response_from_scopes codec c rid answer scopes (runtime (world h))) = Accepted rid sc c result"
    and "list_all (leaves_waiter rid) evs'"
    and "h' = foldl (history_step codec) h (ResponseEv c rid answer scopes # evs')"
  shows "\<exists>opt dec. option_id_from_result result = Some opt \<and> waiter_options pw opt = Some dec
     \<and> fst (wait_permission_response False rid (runtime (world h'))) = Some \<lparr>outcome = Selected opt, decision = Some dec\<rparr>
     \<and> fst (wait_permission_response True rid (runtime (world h'))) = Some permission_cancelled
     \<and> fst (wait_permission_response False rid (runtime (world (history_step codec h' (InterruptEv rid))))) = Some permission_cancelled"
proof -
  have ok: "history_ok (length evs) h"
    using requests.run_inv [OF history_new, of evs codec] assms(1,2) by simp
  then have w: "world_ok (length evs) (world h)" by (simp add: history_ok_def)
  obtain rt where r: "runtime_handle_response_from_scopes codec c rid answer scopes (runtime (world h)) = (Accepted rid sc c result, rt)"
    using assms(4) by (metis prod.collapse)
  from answer_sets_waiter [OF w assms(3) r] obtain opt dec where o: "option_id_from_result result = Some opt"
    "waiter_options pw opt = Some dec"
    "permission_waiters rt rid = Some (pw\<lparr>waiter_outcome := Some \<lparr>outcome = Selected opt, decision = Some dec\<rparr>\<rparr>)"
    by metis
  let ?h1 = "history_step codec h (ResponseEv c rid answer scopes)"
  have "runtime (world ?h1) = rt" by (simp add: history_step_def r)
  moreover have "history_ok (Suc (length evs)) ?h1" by (rule history_step_ok [OF ok]) (use assms(1) in simp)
  ultimately have "permission_waiters (runtime (world (foldl (history_step codec) ?h1 evs'))) rid
      = Some (pw\<lparr>waiter_outcome := Some \<lparr>outcome = Selected opt, decision = Some dec\<rparr>\<rparr>)"
    using waiter_kept_run [of "Suc (length evs)" ?h1 evs' rid _ codec] assms(1,5) o(3) by simp
  moreover have "permission_waiters (runtime (world (history_step codec h' (InterruptEv rid)))) rid = None"
    by (simp add: history_step_def runtime_interrupt_request_def drop_waiters_def remove_permission_waiter_def case_prod_beta)
  ultimately show ?thesis using o(1,2) by (simp add: wait_permission_response_def assms(6))
qed

section \<open>Who is offered a new request\<close>

lemma drop_all_broker: "broker (foldl (\<lambda>rt out. drop_waiters (interrupted_id out) rt) rt outs) = broker rt"
  by (rule drop_all_frame(1))

lemma interrupt_responders: "available_responders (snd (interrupt_request rid b)) = available_responders b"
  by (simp add: interrupt_request_def split: option.split)

lemma resolve_responders: "available_responders (snd (resolve_request_without_responder rid b)) = available_responders b"
  by (simp add: resolve_request_without_responder_def split: option.split)

lemma handle_responders: "available_responders (snd (handle_response_from_scopes c rid answer scopes b)) = available_responders b"
  by (simp add: handle_response_from_scopes_def Let_def
      split: option.split responder_state.split request_status.split server_request_answer.split)

lemma release_responders:
  "available_responders (broker (release_permission_waiter rid v rt)) = available_responders (broker rt)"
  by (simp add: release_permission_waiter_def Let_def runtime_interrupt_def interrupt_responders split: option.split prod.split)

lemma response_responders:
  "available_responders (broker (snd (runtime_handle_response_from_scopes codec c rid answer scopes rt))) = available_responders (broker rt)"
  by (simp add: runtime_handle_response_from_scopes_def Let_def case_prod_beta set_question_frame release_waitable_frame
      release_responders handle_responders split: response_outcome.split)

lemma responders_ok_defer: "responders_ok (defer_deliveries ds b) \<longleftrightarrow> responders_ok b"
  by (simp add: responders_ok_def defer_responders)

lemma open_responders:
  assumes "responders_ok (broker rt)"
  shows "responders_ok (broker (snd (runtime_open codec now draft ds rt)))"
  using responders_ok_ops(1) [OF assms] by (simp add: runtime_open_def case_prod_beta)

lemma request_step_responders:
  assumes "responders_ok (world_broker w)"
  shows "responders_ok (world_broker (snd (request_step codec w ev)))"
proof (cases ev)
  case (OpenEv now draft ds)
  with open_responders [OF assms, of codec now draft ds] show ?thesis
    by (simp add: case_prod_beta split: open_request_outcome.split)
next
  case (OpenPermissionEv now t request ds)
  let ?draft = "\<lparr>draft_scope = TaskRequest t, draft_method = ''permission/request'',
          draft_title = permission_title request, draft_params = permission_params request\<rparr>"
  from OpenPermissionEv open_responders [OF assms, of codec now ?draft ds] show ?thesis
    by (auto simp: open_permission_request_def case_prod_beta responders_ok_defer split: open_request_outcome.split)
next
  case (OpenQuestionEv now t form)
  have "responders_ok (broker (snd (runtime_open codec now
      \<lparr>draft_scope = TaskRequest t, draft_method = QUESTION_REQUEST, draft_title = ''Question'', draft_params = ps\<rparr> [] (runtime w))))" for ps
    by (rule open_responders [OF assms])
  with OpenQuestionEv assms show ?thesis
    by (auto simp: open_question_request_def case_prod_beta responders_ok_defer split: open_request_outcome.split sum.split)
next
  case (OpenWaitableEv now sc ds m t ps)
  with open_responders [OF assms, of codec now "\<lparr>draft_scope = sc, draft_method = m, draft_title = t, draft_params = ps\<rparr>" ds]
  show ?thesis
    by (auto simp: open_waitable_request_def case_prod_beta split: open_request_outcome.split sum.split)
next
  case (ResponseEv c rid answer scopes)
  with assms show ?thesis by (auto simp: case_prod_beta response_responders intro: responders_ok_same)
next
  case (AutoApproveEv rid opt)
  with assms show ?thesis
    by (auto simp: auto_approve_permission_def case_prod_beta resolve_responders split: option.split intro: responders_ok_same)
next
  case (InterruptTaskEv t)
  with assms show ?thesis
    by (auto simp: interrupt_task_requests_def case_prod_beta drop_all_broker interrupt_scope_def intro: responders_ok_same)
next
  case (TransportLostEv c)
  with responders_ok_ops(3) [OF assms, of c] show ?thesis
    by (simp add: runtime_observe_transport_unavailable_def observe_responder_loss_def case_prod_beta drop_all_broker
        observe_transport_unavailable_def)
next
  case (ClientExpiredEv c)
  with responders_ok_ops(3) [OF assms, of c] show ?thesis
    by (simp add: runtime_observe_client_expired_def observe_responder_loss_def case_prod_beta drop_all_broker
        observe_client_expired_requests_def)
next
  case (SubscriptionRemovedEv c t)
  with responders_ok_ops(4) [OF assms, of c t] show ?thesis
    by (simp add: runtime_observe_subscription_removed_def observe_responder_loss_def case_prod_beta drop_all_broker)
next
  case (ResponderAvailableEv d scopes)
  with responders_ok_ops(2) [OF assms] show ?thesis
    by (simp add: runtime_observe_responder_available_def on_broker_def case_prod_beta)
next
  case (ClientInitializedEv d scopes)
  with responders_ok_ops(2) [OF assms] show ?thesis
    by (simp add: runtime_observe_client_initialized_def on_broker_def case_prod_beta observe_client_initialized_or_reattached_def)
next
  case (SubscriptionAddedEv d t)
  with responders_ok_ops(2) [OF assms] show ?thesis
    by (simp add: runtime_observe_subscription_added_def on_broker_def case_prod_beta observe_subscription_added_def Let_def)
qed (use assms in \<open>auto simp: wait_permission_response_def wait_question_response_def wait_client_response_cancellable_def
      Let_def runtime_interrupt_def remove_permission_waiter_def interrupt_responders runtime_forget_auth_terminal_exchange_def
      forget_auth_terminal_exchange_def runtime_interrupt_request_def drop_waiters_frame case_prod_beta defer_responders
      split: option.split intro: responders_ok_same\<close>)

interpretation responders: invariant_machine "\<lambda>w ev. snd (request_step codec w ev)" "\<lambda>w. responders_ok (world_broker w)" for codec
  by unfold_locales (rule request_step_responders)

text \<open>
  C31: A new request reaches every client that can answer it, once. After any sequence of events, a
  request opened with deliveries for distinct clients is delivered to exactly these clients: those
  among the given deliveries that support its method (and, for a request directed at one client,
  that client only), and those registered as available whose delivery supports the method and whose
  scopes match the request; no client gets it twice.
\<close>

theorem opened_request_reaches_responders:
  assumes "distinct (map delivery_client ds)"
    and "w = foldl (\<lambda>w ev. snd (request_step codec w ev)) \<lparr>runtime = new_runtime, issued = []\<rparr> evs"
    and "runtime_open codec now draft ds (runtime w) = (Opened snap out, rt)"
  shows "distinct (map (\<lambda>d. delivery_client (request_delivery d)) out)
     \<and> set (map (\<lambda>d. delivery_client (request_delivery d)) out) = offered draft ds (broker (runtime w))"
proof -
  have "responders_ok (world_broker w)"
    unfolding assms(2) by (rule responders.run_keeps) (simp add: new_runtime_def responders_ok_new)
  moreover obtain b' where "open_request (decode_permission codec) (decode_form codec) now draft ds (world_broker w) = (Opened snap out, b')"
    using assms(3) by (auto simp: runtime_open_def split: prod.splits)
  ultimately show ?thesis using open_reaches [OF _ assms(1)] by blast
qed

section \<open>Examples\<close>

definition demo_codec :: "(unit, unit, unit) request_codec" where
  "demo_codec = \<lparr>decode_permission = (\<lambda>_. None), decode_form = (\<lambda>_. None), encode_form = (\<lambda>_. Inr JNull),
     decode_answer = (\<lambda>_. None), answer_matches = (\<lambda>_ _. True)\<rparr>"

definition demo_responder :: delivery where
  "demo_responder = \<lparr>delivery_client = ''A'', delivery_connection = ''A-link'', delivery_capabilities = [PermissionCapability]\<rparr>"

definition demo_permission :: agent_permission_request where
  "demo_permission = \<lparr>agent_request_id = ''p'', permission_title = ''Run?'', description = None, permission_scope = None,
     risk = None, tool_call = \<lparr>tool_call_id = ''c'', tool_title = ''sh'', tool_kind = None\<rparr>,
     subagent_native_session_id = None,
     options = [\<lparr>option_id = ''y'', option_name = ''Yes'', option_kind = AllowOnce\<rparr>]\<rparr>"

definition demo_open :: "(unit, unit) request_event list" where
  "demo_open = [ResponderAvailableEv demo_responder [ClientResponder ''A''], OpenPermissionEv ''0'' ''t'' demo_permission []]"

definition demo_answer :: server_request_answer where
  "demo_answer = AnswerResult (JObject [(''optionId'', JString ''y'')])"

abbreviation demo_response :: "(unit, unit) request_event" where
  "demo_response \<equiv> ResponseEv ''A'' ''server-request-1'' demo_answer []"

definition demo_waiting :: "(unit, unit, unit) request_history" where
  "demo_waiting = foldl (history_step demo_codec) new_history demo_open"

lemmas demo_defs = demo_codec_def demo_responder_def demo_permission_def demo_open_def demo_answer_def

lemma dec_string_1: "dec_string (Suc 0) = ''1''"
  by code_simp

lemma demo_waiting_state:
  "opened_log demo_waiting = [(''server-request-1'', TaskRequest ''t'')]"
  "concluded_log demo_waiting = []"
  "permission_waiters (runtime (world demo_waiting)) = [''server-request-1'' \<mapsto> new_permission_waiter demo_permission]"
  "question_waiters (runtime (world demo_waiting)) = Map.empty"
  "map_option status (map_of (records (broker (runtime (world demo_waiting)))) ''server-request-1'') = Some Pending"
  "map_option (\<lambda>r. responders r ''A'') (map_of (records (broker (runtime (world demo_waiting)))) ''server-request-1'') = Some (Some Eligible)"
  by (simp_all add: demo_waiting_def demo_defs history_step_def new_history_def new_runtime_def new_broker_def
      runtime_observe_responder_available_def on_broker_def observe_responder_available_def Let_def
      open_permission_request_def runtime_open_def open_request_def classify_request_method_def starts_with_def
      filter_eligible_deliveries_def open_eligible_def supports_method_def PERMISSION_REQUEST_def QUESTION_REQUEST_def
      scope_matches_responder_def record_matches_responder_def new_record_def allocate_request_id_def dec_string_1
      mark_and_build_deliveries_def can_deliver_to_def mark_responder_delivered_def build_delivery_def
      defer_deliveries_def defer_delivery_def mark_responder_eligible_def report_simps)

theorem requests_concluded_once_witness:
  "board (broker (runtime (world (foldl (history_step demo_codec) new_history demo_open))))
     = [''server-request-1'' \<mapsto> TaskRequest ''t'']"
proof -
  have "length demo_open \<le> two64 - 2" by (simp add: demo_open_def)
  from requests_concluded_once [OF this, of demo_codec] show ?thesis
    by (simp add: Let_def demo_waiting_def [symmetric] demo_waiting_state) (simp add: fun_eq_iff)
qed

lemma demo_accepted:
  "\<exists>sc. fst (runtime_handle_response_from_scopes demo_codec ''A'' ''server-request-1'' demo_answer [] (runtime (world demo_waiting)))
     = Accepted ''server-request-1'' sc ''A'' (JObject [(''optionId'', JString ''y'')])"
proof -
  obtain r where r: "map_of (records (broker (runtime (world demo_waiting)))) ''server-request-1'' = Some r"
    "status r = Pending" "responders r ''A'' = Some Eligible"
    using demo_waiting_state(5,6) by auto
  then show ?thesis
    by (simp add: runtime_handle_response_from_scopes_def Let_def normalized_answer_for_waiter_def demo_waiting_state
        demo_answer_def option_id_from_result_def waiter_allows_option_def allows_option_def new_permission_waiter_def
        demo_permission_def normalize_question_answer_def handle_response_from_scopes_def)
qed

theorem agent_gets_the_accepted_answer_witness:
  "fst (wait_permission_response False ''server-request-1''
     (runtime (world (foldl (history_step demo_codec) new_history
        (demo_open @ [demo_response, demo_response, TransportLostEv ''A'', InterruptTaskEv ''t'']))))) =
     Some \<lparr>outcome = Selected ''y'', decision = Some Approved\<rparr>"
proof -
  let ?evs' = "[demo_response, TransportLostEv ''A'', InterruptTaskEv ''t'']"
  have len: "length demo_open + length ?evs' < two64 - 2" by (simp add: demo_open_def)
  have leaves: "list_all (leaves_waiter ''server-request-1'') ?evs'" by simp
  obtain sc where acc: "fst (runtime_handle_response_from_scopes demo_codec ''A'' ''server-request-1'' demo_answer []
      (runtime (world demo_waiting))) = Accepted ''server-request-1'' sc ''A'' (JObject [(''optionId'', JString ''y'')])"
    using demo_accepted by blast
  have pw: "permission_waiters (runtime (world demo_waiting)) ''server-request-1'' = Some (new_permission_waiter demo_permission)"
    by (simp add: demo_waiting_state)
  show ?thesis
    using agent_gets_the_accepted_answer [OF len demo_waiting_def pw acc leaves refl]
    by (simp add: demo_waiting_def option_id_from_result_def new_permission_waiter_def demo_permission_def)
qed

definition demo_shell :: "(unit, unit) request_event list" where
  "demo_shell = [OpenWaitableEv ''0'' (ClientRequest ''A'') [demo_responder] ''shell/openExternal'' ''Open'' JNull]"

lemma demo_shell_state:
  "\<exists>r. map_of (records (broker (runtime (world (foldl (history_step demo_codec) new_history demo_shell))))) ''server-request-1'' = Some r
     \<and> status r = Pending \<and> responders r ''A'' = Some Delivered \<and> request_scope (snapshot_of r) = ClientRequest ''A''
     \<and> permission_waiters (runtime (world (foldl (history_step demo_codec) new_history demo_shell))) = Map.empty
     \<and> question_waiters (runtime (world (foldl (history_step demo_codec) new_history demo_shell))) = Map.empty"
  by (simp add: demo_shell_def demo_defs history_step_def new_history_def new_runtime_def new_broker_def
      open_waitable_request_def runtime_open_def open_request_def classify_request_method_def starts_with_def Let_def
      filter_eligible_deliveries_def open_eligible_def supports_method_def PERMISSION_REQUEST_def QUESTION_REQUEST_def
      register_delivery_def scope_matches_responder_def record_matches_responder_def new_record_def allocate_request_id_def
      dec_string_1 mark_and_build_deliveries_def can_deliver_to_def mark_responder_delivered_def build_delivery_def report_simps)

theorem client_request_answered_by_target_witness:
  "\<exists>t. fst (runtime_handle_response_from_scopes demo_codec ''A'' ''server-request-1'' (AnswerResult JNull) []
        (runtime (world (foldl (history_step demo_codec) new_history demo_shell))))
       = Accepted ''server-request-1'' (ClientRequest t) ''A'' JNull \<and> ''A'' = t"
proof -
  have len: "length demo_shell \<le> two64 - 2" by (simp add: demo_shell_def)
  from demo_shell_state obtain t where acc: "fst (runtime_handle_response_from_scopes demo_codec ''A'' ''server-request-1''
        (AnswerResult JNull) [] (runtime (world (foldl (history_step demo_codec) new_history demo_shell))))
       = Accepted ''server-request-1'' (ClientRequest t) ''A'' JNull"
    by (auto simp: runtime_handle_response_from_scopes_def Let_def normalized_answer_for_waiter_def
        normalize_question_answer_def handle_response_from_scopes_def)
  have "''A'' = t" by (rule client_request_answered_by_target [OF len acc])
  with acc show ?thesis by blast
qed

definition demo_draft :: server_request_draft where
  "demo_draft = \<lparr>draft_scope = TaskRequest ''t'', draft_method = ''permission/request'', draft_title = ''Run?'', draft_params = JNull\<rparr>"

theorem opened_request_reaches_responders_witness:
  "\<exists>snap out rt. runtime_open demo_codec ''0'' demo_draft []
       (runtime (foldl (\<lambda>w ev. snd (request_step demo_codec w ev)) \<lparr>runtime = new_runtime, issued = []\<rparr>
          [ResponderAvailableEv demo_responder [ClientResponder ''A'']])) = (Opened snap out, rt)
     \<and> set (map (\<lambda>d. delivery_client (request_delivery d)) out) = {''A''}"
proof -
  define w where "w = foldl (\<lambda>w ev. snd (request_step demo_codec w ev)) \<lparr>runtime = new_runtime, issued = []\<rparr>
      [ResponderAvailableEv demo_responder [ClientResponder ''A'']]"
  have rs: "available_responders (broker (runtime w)) =
      [(''A'', \<lparr>responder_delivery = demo_responder, responder_scopes = [ClientResponder ''A'']\<rparr>)]"
    by (simp add: w_def new_runtime_def new_broker_def runtime_observe_responder_available_def on_broker_def
        observe_responder_available_def Let_def demo_responder_def)
  have "\<exists>snap out rt. runtime_open demo_codec ''0'' demo_draft [] (runtime w) = (Opened snap out, rt)"
    by (simp add: runtime_open_def open_request_def demo_draft_def classify_request_method_def starts_with_def Let_def
        filter_eligible_deliveries_def case_prod_beta)
  then obtain snap out rt where op: "runtime_open demo_codec ''0'' demo_draft [] (runtime w) = (Opened snap out, rt)"
    by blast
  have "offered demo_draft [] (broker (runtime w)) = {''A''}"
    by (auto simp: offered_def rs demo_draft_def supports_method_def PERMISSION_REQUEST_def QUESTION_REQUEST_def
        demo_responder_def scope_matches_responder_def record_matches_responder_def new_record_def split: if_splits)
  with opened_request_reaches_responders [of "[]", OF _ w_def op] op show ?thesis
    by (auto simp: w_def)
qed

end
