(* ===== verification/Rust_String.thy ===== *)
theory Rust_String
  imports Prelude
begin

text \<open>
  What the App Server uses of Rust's \<open>str\<close> and of the integer parsers. A string is the list of its
  UTF-8 bytes, so that \<open>len\<close> is \<open>length\<close>; white space is the Unicode property \<open>White_Space\<close>, which
  \<open>trim\<close> removes, written as the byte sequences that encode it.
\<close>

section \<open>Bytes\<close>

definition is_ascii_digit :: "char \<Rightarrow> bool" where
  "is_ascii_digit c = (48 \<le> (of_char c :: nat) \<and> (of_char c :: nat) \<le> 57)"

definition is_ascii_alphanumeric :: "char \<Rightarrow> bool" where
  "is_ascii_alphanumeric c =
     (let b = (of_char c :: nat) in is_ascii_digit c \<or> (65 \<le> b \<and> b \<le> 90) \<or> (97 \<le> b \<and> b \<le> 122))"

section \<open>White space\<close>

text \<open>The number of bytes of the white-space character at the front of a list of bytes.\<close>

fun ws_len :: "nat list \<Rightarrow> nat" where
  "ws_len (b1 # bs) =
     (if (9 \<le> b1 \<and> b1 \<le> 13) \<or> b1 = 32 then 1
      else case bs of
        [] \<Rightarrow> 0
      | b2 # bs' \<Rightarrow>
          if b1 = 194 \<and> (b2 = 133 \<or> b2 = 160) then 2
          else case bs' of
            [] \<Rightarrow> 0
          | b3 # _ \<Rightarrow>
              if (b1 = 225 \<and> b2 = 154 \<and> b3 = 128)
                 \<or> (b1 = 226 \<and> b2 = 128 \<and> ((128 \<le> b3 \<and> b3 \<le> 138) \<or> b3 = 168 \<or> b3 = 169 \<or> b3 = 175))
                 \<or> (b1 = 226 \<and> b2 = 129 \<and> b3 = 159)
                 \<or> (b1 = 227 \<and> b2 = 128 \<and> b3 = 128)
              then 3 else 0)"
| "ws_len [] = 0"

text \<open>The same at the back: the list is reversed.\<close>

fun ws_len_rev :: "nat list \<Rightarrow> nat" where
  "ws_len_rev (b1 # bs) =
     (if ws_len [b1] = 1 then 1
      else case bs of
        [] \<Rightarrow> 0
      | b2 # bs' \<Rightarrow>
          if ws_len [b2, b1] = 2 then 2
          else case bs' of
            [] \<Rightarrow> 0
          | b3 # _ \<Rightarrow> if ws_len [b3, b2, b1] = 3 then 3 else 0)"
| "ws_len_rev [] = 0"

lemma ws_len_le: "ws_len bs \<le> length bs"
  by (cases bs) (auto split: list.splits)

lemma ws_len_rev_le: "ws_len_rev bs \<le> length bs"
  by (cases bs) (auto split: list.splits)

abbreviation bytes_of :: "string \<Rightarrow> nat list" where
  "bytes_of s \<equiv> map of_char s"

function trim_start :: "string \<Rightarrow> string" where
  "trim_start s = (if ws_len (bytes_of s) = 0 then s else trim_start (drop (ws_len (bytes_of s)) s))"
  by auto
termination
proof (relation "measure length")
  fix s :: string
  assume "ws_len (bytes_of s) \<noteq> 0"
  moreover have "ws_len (bytes_of s) \<le> length s"
    using ws_len_le [of "bytes_of s"] by simp
  ultimately show "(drop (ws_len (bytes_of s)) s, s) \<in> measure length" by simp
qed simp

declare trim_start.simps [simp del]

function trim_back :: "string \<Rightarrow> string" where
  "trim_back s = (if ws_len_rev (bytes_of s) = 0 then s else trim_back (drop (ws_len_rev (bytes_of s)) s))"
  by auto
termination
proof (relation "measure length")
  fix s :: string
  assume "ws_len_rev (bytes_of s) \<noteq> 0"
  moreover have "ws_len_rev (bytes_of s) \<le> length s"
    using ws_len_rev_le [of "bytes_of s"] by simp
  ultimately show "(drop (ws_len_rev (bytes_of s)) s, s) \<in> measure length" by simp
qed simp

declare trim_back.simps [simp del]

definition trim_end :: "string \<Rightarrow> string" where
  "trim_end s = rev (trim_back (rev s))"

definition trim_string :: "string \<Rightarrow> string" where
  "trim_string s = trim_end (trim_start s)"

lemma trim_start_idle: "ws_len (bytes_of (trim_start s)) = 0"
  by (induction s rule: trim_start.induct) (subst trim_start.simps, simp)

lemma trim_back_idle: "ws_len_rev (bytes_of (trim_back s)) = 0"
  by (induction s rule: trim_back.induct) (subst trim_back.simps, simp)

lemma trim_back_fixed: "ws_len_rev (bytes_of s) = 0 \<Longrightarrow> trim_back s = s"
  by (subst trim_back.simps) simp

lemma trim_start_fixed: "ws_len (bytes_of s) = 0 \<Longrightarrow> trim_start s = s"
  by (subst trim_start.simps) simp

lemma trim_back_suffix: "\<exists>p. s = p @ trim_back s"
proof (induction s rule: trim_back.induct)
  case (1 s)
  show ?case
  proof (cases "ws_len_rev (bytes_of s) = 0")
    case True
    then show ?thesis by (simp add: trim_back_fixed)
  next
    case False
    with 1 obtain p where "drop (ws_len_rev (bytes_of s)) s = p @ trim_back (drop (ws_len_rev (bytes_of s)) s)"
      by blast
    moreover have "trim_back s = trim_back (drop (ws_len_rev (bytes_of s)) s)"
      using False by (subst trim_back.simps) simp
    ultimately have "s = (take (ws_len_rev (bytes_of s)) s @ p) @ trim_back s"
      by (metis append_assoc append_take_drop_id)
    then show ?thesis by blast
  qed
qed

text \<open>Cutting bytes off the back never makes white space appear at the front.\<close>

lemma ws_len_prefix: "ws_len (p @ q) = 0 \<Longrightarrow> ws_len p = 0"
proof (cases p)
  case (Cons b1 p1)
  assume "ws_len (p @ q) = 0"
  with Cons show ?thesis
  proof (cases p1)
    case (Cons b2 p2)
    assume "ws_len (p @ q) = 0"
    with \<open>p = b1 # p1\<close> Cons show ?thesis by (cases p2) (simp_all split: if_splits)
  qed (simp split: if_splits)
qed simp

theorem trim_idempotent: "trim_string (trim_string s) = trim_string s"
proof -
  obtain q where q: "rev (trim_start s) = q @ trim_back (rev (trim_start s))"
    using trim_back_suffix by blast
  then have "trim_start s = trim_end (trim_start s) @ rev q"
    unfolding trim_end_def by (metis rev_append rev_rev_ident)
  with trim_start_idle [of s] have "ws_len (bytes_of (trim_end (trim_start s)) @ bytes_of (rev q)) = 0"
    by (metis map_append)
  then have "ws_len (bytes_of (trim_end (trim_start s))) = 0" by (rule ws_len_prefix)
  then have "trim_start (trim_string s) = trim_string s"
    by (simp add: trim_string_def trim_start_fixed)
  moreover have "trim_end (trim_string s) = trim_string s"
    by (simp add: trim_string_def trim_end_def trim_back_fixed trim_back_idle)
  ultimately show ?thesis by (simp add: trim_string_def)
qed

section \<open>Splitting\<close>

definition strip_prefix :: "string \<Rightarrow> string \<Rightarrow> string option" where
  "strip_prefix p s = (if take (length p) s = p then Some (drop (length p) s) else None)"

definition strip_suffix :: "string \<Rightarrow> string \<Rightarrow> string option" where
  "strip_suffix p s = map_option rev (strip_prefix (rev p) (rev s))"

lemma strip_prefix_append [simp]: "strip_prefix p (p @ s) = Some s"
  by (simp add: strip_prefix_def)

lemma strip_suffix_append [simp]: "strip_suffix p (s @ p) = Some s"
  by (simp add: strip_suffix_def)

fun split_once :: "char \<Rightarrow> string \<Rightarrow> (string \<times> string) option" where
  "split_once c [] = None"
| "split_once c (x # xs) =
     (if x = c then Some ([], xs) else map_option (\<lambda>(a, b). (x # a, b)) (split_once c xs))"

fun split_on :: "char \<Rightarrow> string \<Rightarrow> string list" where
  "split_on c [] = [[]]"
| "split_on c (x # xs) =
     (if x = c then [] # split_on c xs
      else case split_on c xs of [] \<Rightarrow> [[x]] | p # ps \<Rightarrow> (x # p) # ps)"

lemma split_once_append: "c \<notin> set a \<Longrightarrow> split_once c (a @ c # b) = Some (a, b)"
  by (induction a) auto

lemma split_once_none: "c \<notin> set a \<Longrightarrow> split_once c a = None"
  by (induction a) auto

lemma split_on_none: "c \<notin> set a \<Longrightarrow> split_on c a = [a]"
  by (induction a) auto

lemma split_on_append: "c \<notin> set a \<Longrightarrow> split_on c (a @ c # b) = a # split_on c b"
  by (induction a) (auto split: list.splits)

section \<open>Integers\<close>

text \<open>
  \<open>str::parse\<close> at an integer type: an optional sign, at least one digit, and a value in the range of
  the type. The kind of the error is discarded by every caller.
\<close>

definition parse_magnitude :: "string \<Rightarrow> nat option" where
  "parse_magnitude s = (if s \<noteq> [] \<and> list_all is_ascii_digit s then Some (dec_value s) else None)"

definition parse_unsigned :: "nat \<Rightarrow> string \<Rightarrow> nat option" where
  "parse_unsigned bound s =
     (let digits = (case s of c # cs \<Rightarrow> if c = CHR ''+'' then cs else s | [] \<Rightarrow> s)
      in case parse_magnitude digits of
           None \<Rightarrow> None
         | Some n \<Rightarrow> if n < bound then Some n else None)"

definition parse_signed :: "int \<Rightarrow> string \<Rightarrow> int option" where
  "parse_signed bound s =
     (let (neg, digits) =
        (case s of
           c # cs \<Rightarrow> if c = CHR ''+'' then (False, cs) else if c = CHR ''-'' then (True, cs) else (False, s)
         | [] \<Rightarrow> (False, s))
      in case parse_magnitude digits of
           None \<Rightarrow> None
         | Some n \<Rightarrow>
             if neg then (if int n \<le> bound then Some (- int n) else None)
             else (if int n < bound then Some (int n) else None))"

lemma is_ascii_digit_dec_digit: "d < 10 \<Longrightarrow> is_ascii_digit (dec_digit d)"
  by (simp add: is_ascii_digit_def dec_digit_def)

lemma dec_string_digits: "list_all is_ascii_digit (dec_string n)"
proof (induction n rule: dec_string.induct)
  case (1 n)
  then show ?case
    by (subst dec_string.simps) (simp add: is_ascii_digit_dec_digit)
qed

lemma dec_string_nonempty [simp]: "dec_string n \<noteq> []"
  by (subst dec_string.simps) simp

lemma parse_magnitude_dec_string [simp]: "parse_magnitude (dec_string n) = Some n"
  by (simp add: parse_magnitude_def dec_string_digits dec_value_string)

lemma plus_not_digit [simp]: "\<not> is_ascii_digit (CHR ''+'')" "\<not> is_ascii_digit (CHR ''-'')"
  by (simp_all add: is_ascii_digit_def)

lemma dec_string_first: "dec_string n = c # cs \<Longrightarrow> is_ascii_digit c"
  using dec_string_digits [of n] by simp

lemma parse_unsigned_dec_string: "n < bound \<Longrightarrow> parse_unsigned bound (dec_string n) = Some n"
proof (cases "dec_string n")
  case (Cons c cs)
  then have "c \<noteq> CHR ''+''" using dec_string_first plus_not_digit(1) by blast
  moreover have "parse_magnitude (c # cs) = Some n" using Cons parse_magnitude_dec_string by metis
  moreover assume "n < bound"
  ultimately show ?thesis using Cons by (simp add: parse_unsigned_def)
qed simp

lemma parse_signed_dec_string: "int n < bound \<Longrightarrow> parse_signed bound (dec_string n) = Some (int n)"
proof (cases "dec_string n")
  case (Cons c cs)
  then have "c \<noteq> CHR ''+''" "c \<noteq> CHR ''-''" using dec_string_first plus_not_digit by blast+
  moreover have "parse_magnitude (c # cs) = Some n" using Cons parse_magnitude_dec_string by metis
  moreover assume "int n < bound"
  ultimately show ?thesis using Cons by (simp add: parse_signed_def)
qed simp

end
