(* ===== verification/Task_Title.thy ===== *)
theory Task_Title
  imports Rust_String Json_Value
begin

text \<open>
  The title of a Task (\<open>src/openaide-rs/app-server/src/storage/records.rs\<close>): a value with its owner,
  and the state that keeps the automatic title of the Agent or the prompt behind a title the user has
  set. The stored JSON is what the derived serializers write and read.
\<close>

section \<open>Titles\<close>

datatype task_title_source = FromPrompt | FromAgent | FromUser

record task_title =
  title_value :: string
  title_source :: task_title_source

text \<open>\<open>TaskTitle::new\<close>.\<close>

definition new_title :: "string \<Rightarrow> task_title_source \<Rightarrow> task_title option" where
  "new_title v src =
     (let trimmed = trim_string v
      in if trimmed = [] then None else Some \<lparr>title_value = trimmed, title_source = src\<rparr>)"

datatype task_title_state =
    Automatic "task_title option"
  | UserOverride task_title "task_title option"

definition default_title_state :: task_title_state where
  "default_title_state = Automatic None"

definition title_from :: "task_title option \<Rightarrow> task_title_state" where
  "title_from t =
     (case t of
        Some x \<Rightarrow> if title_source x = FromUser then UserOverride x None else Automatic t
      | None \<Rightarrow> Automatic None)"

fun effective :: "task_title_state \<Rightarrow> task_title option" where
  "effective (Automatic t) = t"
| "effective (UserOverride t _) = Some t"

definition title_is_empty :: "task_title_state \<Rightarrow> bool" where
  "title_is_empty st = (effective st = None)"

fun has_user_override :: "task_title_state \<Rightarrow> bool" where
  "has_user_override (UserOverride _ _) = True"
| "has_user_override (Automatic _) = False"

text \<open>The title an override hides.\<close>

fun automatic_title :: "task_title_state \<Rightarrow> task_title option" where
  "automatic_title (Automatic t) = t"
| "automatic_title (UserOverride _ t) = t"

text \<open>Each setter returns whether the state changed, with the state.\<close>

definition set_prompt_title :: "task_title option \<Rightarrow> task_title_state \<Rightarrow> bool \<times> task_title_state" where
  "set_prompt_title t st =
     (if \<not> title_is_empty st \<or> t = None then (False, st)
      else if st = Automatic t then (False, st)
      else (True, Automatic t))"

fun replace_automatic :: "task_title option \<Rightarrow> task_title_state \<Rightarrow> bool \<times> task_title_state" where
  "replace_automatic t (Automatic current) =
     (if current = t then (False, Automatic current) else (True, Automatic t))"
| "replace_automatic t (UserOverride user current) =
     (if current = t then (False, UserOverride user current) else (True, UserOverride user t))"

definition set_agent_title :: "string \<Rightarrow> task_title_state \<Rightarrow> bool \<times> task_title_state" where
  "set_agent_title v st =
     (case new_title v FromAgent of None \<Rightarrow> (False, st) | Some t \<Rightarrow> replace_automatic (Some t) st)"

definition clear_agent_title :: "task_title_state \<Rightarrow> bool \<times> task_title_state" where
  "clear_agent_title st = replace_automatic None st"

definition set_user_title :: "string \<Rightarrow> task_title_state \<Rightarrow> bool \<times> task_title_state" where
  "set_user_title v st =
     (case new_title v FromUser of
        None \<Rightarrow> (False, st)
      | Some t \<Rightarrow>
          (let nxt = UserOverride t (automatic_title st)
           in if st = nxt then (False, st) else (True, nxt)))"

fun reset_to_automatic :: "task_title_state \<Rightarrow> bool \<times> task_title_state" where
  "reset_to_automatic (UserOverride _ automatic) = (True, Automatic automatic)"
| "reset_to_automatic (Automatic t) = (False, Automatic t)"

fun validate_title_state :: "task_title_state \<Rightarrow> string + unit" where
  "validate_title_state (Automatic t) =
     (case t of
        Some x \<Rightarrow> if title_source x = FromUser then Inl ''Task automatic title cannot have user ownership'' else Inr ()
      | None \<Rightarrow> Inr ())"
| "validate_title_state (UserOverride u t) =
     (if title_source u \<noteq> FromUser then Inl ''Task user title must have user ownership''
      else case t of
        Some x \<Rightarrow> if title_source x = FromUser then Inl ''Task automatic title cannot have user ownership'' else Inr ()
      | None \<Rightarrow> Inr ())"

section \<open>The stored form\<close>

fun source_json :: "task_title_source \<Rightarrow> json" where
  "source_json FromPrompt = JString ''prompt''"
| "source_json FromAgent = JString ''agent''"
| "source_json FromUser = JString ''user''"

definition source_from_name :: "string \<Rightarrow> task_title_source option" where
  "source_from_name v =
     (if v = ''prompt'' then Some FromPrompt
      else if v = ''agent'' then Some FromAgent
      else if v = ''user'' then Some FromUser
      else None)"

text \<open>The derived reader of a unit variant takes its name, or an object with that one member, null.\<close>

fun source_from_json :: "json \<Rightarrow> task_title_source option" where
  "source_from_json (JString v) = source_from_name v"
| "source_from_json (JObject [(v, JNull)]) = source_from_name v"
| "source_from_json _ = None"

definition title_json :: "task_title \<Rightarrow> json" where
  "title_json t = JObject [(''value'', JString (title_value t)), (''source'', source_json (title_source t))]"

text \<open>
  \<open>SerializedTaskTitle\<close> and \<open>TaskTitle::new\<close>. The derived reader of a struct takes an object, where
  unknown members are passed over, or an array of exactly the fields in their order.
\<close>

fun serialized_title :: "json \<Rightarrow> (json \<times> json) option" where
  "serialized_title (JArray [v, s]) = Some (v, s)"
| "serialized_title (JObject members) =
     (case (map_of members ''value'', map_of members ''source'') of (Some v, Some s) \<Rightarrow> Some (v, s) | _ \<Rightarrow> None)"
| "serialized_title _ = None"

definition title_from_json :: "json \<Rightarrow> task_title option" where
  "title_from_json j =
     (case serialized_title j of
        Some (JString v, s) \<Rightarrow>
          (case source_from_json s of None \<Rightarrow> None | Some src \<Rightarrow> new_title v src)
      | _ \<Rightarrow> None)"

definition option_title_json :: "task_title option \<Rightarrow> json" where
  "option_title_json t = (case t of None \<Rightarrow> JNull | Some x \<Rightarrow> title_json x)"

text \<open>An optional member: absent and null are both none; the outer option is the failure to read it.\<close>

definition option_title_from_json :: "json option \<Rightarrow> task_title option option" where
  "option_title_from_json j =
     (case j of None \<Rightarrow> Some None | Some JNull \<Rightarrow> Some None | Some v \<Rightarrow> map_option Some (title_from_json v))"

fun title_state_json :: "task_title_state \<Rightarrow> json" where
  "title_state_json (Automatic t) = JObject [(''ownership'', JString ''automatic''), (''title'', option_title_json t)]"
| "title_state_json (UserOverride u t) =
     JObject [(''ownership'', JString ''user_override''), (''title'', title_json u), (''automatic'', option_title_json t)]"

definition owned_title_state :: "json \<Rightarrow> json \<Rightarrow> task_title_state option" where
  "owned_title_state ownership j =
     (if ownership = JString ''automatic'' then map_option Automatic (option_title_from_json (json_get ''title'' j))
      else if ownership = JString ''user_override'' then
        (case json_get ''title'' j of
           None \<Rightarrow> None
         | Some u \<Rightarrow>
             (case (title_from_json u, option_title_from_json (json_get ''automatic'' j)) of
                (Some t, Some a) \<Rightarrow> Some (UserOverride t a)
              | _ \<Rightarrow> None))
      else None)"

definition checked_state :: "task_title_state \<Rightarrow> task_title_state option" where
  "checked_state st = (case validate_title_state st of Inl _ \<Rightarrow> None | Inr _ \<Rightarrow> Some st)"

definition title_state_from_json :: "json \<Rightarrow> task_title_state option" where
  "title_state_from_json j =
     (if j = JNull then Some default_title_state
      else case json_get ''ownership'' j of
        Some ownership \<Rightarrow> Option.bind (owned_title_state ownership j) checked_state
      | None \<Rightarrow> Option.bind (map_option (\<lambda>t. title_from (Some t)) (title_from_json j)) checked_state)"

section \<open>Titles stay well formed\<close>

definition title_ok :: "task_title \<Rightarrow> bool" where
  "title_ok t \<longleftrightarrow> title_value t \<noteq> [] \<and> trim_string (title_value t) = title_value t"

fun title_state_ok :: "task_title_state \<Rightarrow> bool" where
  "title_state_ok (Automatic t) = (\<forall>x. t = Some x \<longrightarrow> title_ok x \<and> title_source x \<noteq> FromUser)"
| "title_state_ok (UserOverride u t) =
     (title_ok u \<and> title_source u = FromUser \<and> (\<forall>x. t = Some x \<longrightarrow> title_ok x \<and> title_source x \<noteq> FromUser))"

datatype title_event =
    PromptTitle string
  | AgentTitle string
  | AgentTitleCleared
  | UserTitle string
  | TitleReset

fun title_step :: "task_title_state \<Rightarrow> title_event \<Rightarrow> task_title_state" where
  "title_step st (PromptTitle v) = snd (set_prompt_title (new_title v FromPrompt) st)"
| "title_step st (AgentTitle v) = snd (set_agent_title v st)"
| "title_step st AgentTitleCleared = snd (clear_agent_title st)"
| "title_step st (UserTitle v) = snd (set_user_title v st)"
| "title_step st TitleReset = snd (reset_to_automatic st)"

lemma new_title_ok: "new_title v src = Some t \<Longrightarrow> title_ok t \<and> title_source t = src"
  by (auto simp: new_title_def title_ok_def Let_def trim_idempotent split: if_splits)

lemma replace_automatic_ok:
  "title_state_ok st \<Longrightarrow> (\<forall>x. t = Some x \<longrightarrow> title_ok x \<and> title_source x \<noteq> FromUser) \<Longrightarrow>
     title_state_ok (snd (replace_automatic t st))"
  by (cases st) simp_all

lemma automatic_title_ok:
  "title_state_ok st \<Longrightarrow> automatic_title st = Some x \<Longrightarrow> title_ok x \<and> title_source x \<noteq> FromUser"
  by (cases st) simp_all

lemma title_step_ok: "title_state_ok st \<Longrightarrow> title_state_ok (title_step st e)"
proof (cases e)
  case (PromptTitle v)
  moreover assume "title_state_ok st"
  ultimately show ?thesis
    by (auto simp: set_prompt_title_def dest: new_title_ok)
next
  case (AgentTitle v)
  moreover assume "title_state_ok st"
  ultimately show ?thesis
    by (auto simp: set_agent_title_def intro!: replace_automatic_ok dest: new_title_ok split: option.split)
next
  case (UserTitle v)
  moreover assume "title_state_ok st"
  ultimately show ?thesis
    by (auto simp: set_user_title_def Let_def dest: new_title_ok automatic_title_ok split: option.split)
next
  case TitleReset
  moreover assume "title_state_ok st"
  ultimately show ?thesis by (cases st) simp_all
qed (simp_all add: clear_agent_title_def replace_automatic_ok)

interpretation titles: invariant_machine title_step title_state_ok
  by unfold_locales (rule title_step_ok)

lemma default_title_state_ok: "title_state_ok default_title_state"
  by (simp add: default_title_state_def)

lemma title_json_read: "title_ok t \<Longrightarrow> title_from_json (title_json t) = Some t"
  by (cases "title_source t")
    (simp_all add: title_from_json_def title_json_def source_from_name_def new_title_def title_ok_def)

lemma option_title_json_read:
  "(\<forall>x. t = Some x \<longrightarrow> title_ok x) \<Longrightarrow> option_title_from_json (Some (option_title_json t)) = Some t"
proof (cases t)
  case (Some x)
  assume "\<forall>x. t = Some x \<longrightarrow> title_ok x"
  with Some have "title_from_json (title_json x) = Some x" by (simp add: title_json_read)
  moreover obtain ms where "title_json x = JObject ms" by (simp add: title_json_def)
  ultimately show ?thesis using Some by (simp add: option_title_json_def option_title_from_json_def)
qed (simp add: option_title_json_def option_title_from_json_def)

lemma ok_validates: "title_state_ok st \<Longrightarrow> validate_title_state st = Inr ()"
  by (cases st) (auto split: option.split)

lemma title_state_json_read: "title_state_ok st \<Longrightarrow> title_state_from_json (title_state_json st) = Some st"
proof (cases st)
  case (Automatic t)
  assume ok: "title_state_ok st"
  then have "option_title_from_json (Some (option_title_json t)) = Some t"
    using Automatic by (intro option_title_json_read) simp
  with Automatic ok show ?thesis
    by (simp add: title_state_from_json_def owned_title_state_def checked_state_def ok_validates
        del: validate_title_state.simps)
next
  case (UserOverride u t)
  assume ok: "title_state_ok st"
  then have "option_title_from_json (Some (option_title_json t)) = Some t" "title_from_json (title_json u) = Some u"
    using UserOverride by (auto intro!: option_title_json_read title_json_read)
  with UserOverride ok show ?thesis
    by (simp add: title_state_from_json_def owned_title_state_def checked_state_def ok_validates
        del: validate_title_state.simps)
qed

text \<open>Whatever is read back from disk is well formed.\<close>

lemma title_from_json_ok: "title_from_json j = Some t \<Longrightarrow> title_ok t"
  by (auto simp: title_from_json_def dest: new_title_ok split: option.splits json.splits)

lemma checked_state_ok:
  "checked_state st = Some st' \<Longrightarrow>
     (\<And>x. automatic_title st = Some x \<Longrightarrow> title_ok x) \<Longrightarrow> (\<And>x. effective st = Some x \<Longrightarrow> title_ok x) \<Longrightarrow>
     title_state_ok st'"
  by (cases st) (auto simp: checked_state_def split: sum.splits option.splits if_splits)

lemma option_title_from_json_ok: "option_title_from_json j = Some (Some x) \<Longrightarrow> title_ok x"
  by (auto simp: option_title_from_json_def dest: title_from_json_ok split: option.splits json.splits)

lemma title_state_from_json_ok: "title_state_from_json j = Some st \<Longrightarrow> title_state_ok st"
proof (cases "json_get ''ownership'' j")
  case None
  moreover assume "title_state_from_json j = Some st"
  ultimately show ?thesis
    by (auto simp: title_state_from_json_def default_title_state_ok bind_eq_Some_conv title_from_def
        checked_state_def split: if_splits) (erule title_from_json_ok)+
next
  case (Some ow)
  then have "j \<noteq> JNull" by auto
  moreover assume "title_state_from_json j = Some st"
  ultimately obtain st0 where st0: "owned_title_state ow j = Some st0" "checked_state st0 = Some st"
    using Some by (auto simp: title_state_from_json_def bind_eq_Some_conv)
  show ?thesis
  proof (rule checked_state_ok [OF st0(2)])
    show "title_ok x" if "automatic_title st0 = Some x" for x
      using that st0(1) option_title_from_json_ok
      by (auto simp: owned_title_state_def split: if_splits option.splits)
    show "title_ok x" if "effective st0 = Some x" for x
      using that st0(1) option_title_from_json_ok title_from_json_ok
      by (auto simp: owned_title_state_def split: if_splits option.splits)
  qed
qed

text \<open>
  C17: whatever sequence of prompt, Agent and user edits a title goes through, its stored form reads back
  as exactly the same state, and every title in it is non-empty, trimmed and owned by its author; any
  stored form that is read, whoever wrote it, has that shape too.
\<close>

theorem titles_are_well_formed:
  "title_state_ok (foldl title_step default_title_state es)
   \<and> title_state_from_json (title_state_json (foldl title_step default_title_state es))
     = Some (foldl title_step default_title_state es)
   \<and> (title_state_from_json j = Some st \<longrightarrow> title_state_ok st)"
  using titles.run_keeps [OF default_title_state_ok] title_state_json_read title_state_from_json_ok by blast

text \<open>A record written before user titles could be reset is read as a user override.\<close>

theorem titles_are_well_formed_witness:
  "title_state_from_json (JObject [(''value'', JString '' Fix the build ''), (''source'', JString ''user'')])
     = Some (UserOverride \<lparr>title_value = ''Fix the build'', title_source = FromUser\<rparr> None)
   \<and> title_state_ok (UserOverride \<lparr>title_value = ''Fix the build'', title_source = FromUser\<rparr> None)"
proof -
  have "title_state_from_json (JObject [(''value'', JString '' Fix the build ''), (''source'', JString ''user'')])
     = Some (UserOverride \<lparr>title_value = ''Fix the build'', title_source = FromUser\<rparr> None)"
    by code_simp
  with titles_are_well_formed [of "[]"] show ?thesis by blast
qed

section \<open>Whose title is shown\<close>

text \<open>
  What an event says of the title of the user and of the automatic title, if anything: a blank title is
  not accepted, a prompt says nothing while a title is shown, and the Agent may withdraw its title.
\<close>

fun user_choice :: "title_event \<Rightarrow> task_title list" where
  "user_choice (UserTitle v) = (case new_title v FromUser of None \<Rightarrow> [] | Some t \<Rightarrow> [t])"
| "user_choice _ = []"

fun agent_report :: "title_event \<Rightarrow> task_title option list" where
  "agent_report (AgentTitle v) = (case new_title v FromAgent of None \<Rightarrow> [] | Some t \<Rightarrow> [Some t])"
| "agent_report AgentTitleCleared = [None]"
| "agent_report _ = []"

lemma title_step_override:
  assumes "e \<noteq> TitleReset"
  shows "title_step (UserOverride u a) e
         = UserOverride (last (u # user_choice e)) (last (a # agent_report e))"
  using assms
  by (cases e)
    (simp_all add: set_prompt_title_def title_is_empty_def set_agent_title_def clear_agent_title_def
      set_user_title_def Let_def split: option.split)

lemma last_Cons_append: "last (x # ys @ zs) = last (last (x # ys) # zs)"
  by (induction ys arbitrary: x) auto

lemma title_run_override:
  assumes "TitleReset \<notin> set es"
  shows "foldl title_step (UserOverride u a) es
         = UserOverride (last (u # concat (map user_choice es))) (last (a # concat (map agent_report es)))"
  using assms
proof (induction es arbitrary: u a)
  case (Cons e es)
  then have step: "title_step (UserOverride u a) e
      = UserOverride (last (u # user_choice e)) (last (a # agent_report e))"
    by (intro title_step_override) auto
  have "foldl title_step (UserOverride u a) (e # es)
      = foldl title_step (UserOverride (last (u # user_choice e)) (last (a # agent_report e))) es"
    by (simp only: foldl_Cons step)
  also have "\<dots> = UserOverride (last (last (u # user_choice e) # concat (map user_choice es)))
      (last (last (a # agent_report e) # concat (map agent_report es)))"
    using Cons.prems by (intro Cons.IH) simp
  finally show ?case by (simp only: list.map concat.simps last_Cons_append)
qed simp

text \<open>
  C26: as long as the user does not reset it, the title shown is the last one the user has set, whatever
  the Agent and the prompt report; after the reset it is the last title the Agent reported meanwhile (none
  when the Agent withdrew it last), and the automatic title of before when the Agent reported nothing.
\<close>

theorem user_title_wins:
  assumes "has_user_override st" and "TitleReset \<notin> set es"
  shows "effective (foldl title_step st es)
         = Some (last (the (effective st) # concat (map user_choice es)))
         \<and> effective (title_step (foldl title_step st es) TitleReset)
           = last (automatic_title st # concat (map agent_report es))"
proof -
  from assms(1) obtain u a where "st = UserOverride u a" by (cases st) auto
  with title_run_override [OF assms(2)] show ?thesis by (simp del: last.simps)
qed

theorem user_title_wins_witness:
  "(let st = title_step default_title_state (UserTitle ''Mine'');
        es = [AgentTitle ''First'', PromptTitle ''Typed'', UserTitle '' Better '', AgentTitle ''Second'', AgentTitle '' '']
    in effective (foldl title_step st es) = Some \<lparr>title_value = ''Better'', title_source = FromUser\<rparr>
       \<and> effective (title_step (foldl title_step st es) TitleReset)
         = Some \<lparr>title_value = ''Second'', title_source = FromAgent\<rparr>)"
proof -
  let ?st = "title_step default_title_state (UserTitle ''Mine'')"
  let ?es = "[AgentTitle ''First'', PromptTitle ''Typed'', UserTitle '' Better '', AgentTitle ''Second'', AgentTitle '' '']"
  have user: "has_user_override ?st" by code_simp
  have kept: "TitleReset \<notin> set ?es" by simp
  have shown: "last (the (effective ?st) # concat (map user_choice ?es)) = \<lparr>title_value = ''Better'', title_source = FromUser\<rparr>"
    by code_simp
  have hidden: "last (automatic_title ?st # concat (map agent_report ?es))
      = Some \<lparr>title_value = ''Second'', title_source = FromAgent\<rparr>"
    by code_simp
  show ?thesis unfolding Let_def by (rule user_title_wins [OF user kept, unfolded shown hidden])
qed

end
