(* ===== verification/Time_Stamps.thy ===== *)
theory Time_Stamps
  imports Rust_String
begin

text \<open>
  Timestamps (\<open>src/openaide-rs/app-server/src/time.rs\<close>): the normalization of persisted millisecond
  epochs and of ISO-8601 timestamps to milliseconds since the epoch. An \<open>i128\<close> is an \<open>int\<close>: the
  largest value computed here stays far below its bound, and the parser checks it.
\<close>

section \<open>The civil calendar\<close>

definition days_in_month :: "int \<Rightarrow> nat \<Rightarrow> nat" where
  "days_in_month year month =
     (if month = 4 \<or> month = 6 \<or> month = 9 \<or> month = 11 then 30
      else if month = 2 \<and> year mod 4 = 0 \<and> (year mod 100 \<noteq> 0 \<or> year mod 400 = 0) then 29
      else if month = 2 then 28
      else 31)"

text \<open>Rust's \<open>/\<close> on signed integers, which rounds towards zero.\<close>

definition trunc_div :: "int \<Rightarrow> int \<Rightarrow> int" where
  "trunc_div a b = (if 0 \<le> a then a div b else - ((- a) div b))"

definition days_from_civil :: "int \<Rightarrow> nat \<Rightarrow> nat \<Rightarrow> int" where
  "days_from_civil year0 month0 day =
     (let year = year0 - (if month0 \<le> 2 then 1 else 0);
          era = trunc_div (if 0 \<le> year then year else year - 399) 400;
          yoe = year - era * 400;
          month = int month0;
          doy = trunc_div (153 * (month + (if 2 < month then -3 else 9)) + 2) 5 + int day - 1;
          doe = yoe * 365 + trunc_div yoe 4 - trunc_div yoe 100 + doy
      in era * 146097 + doe - 719468)"

section \<open>Parsing\<close>

text \<open>\<open>value.rfind(['+', '-'])\<close> and \<open>split_at\<close> that index.\<close>

definition split_at_last_sign :: "string \<Rightarrow> (string \<times> string) option" where
  "split_at_last_sign s =
     (let is_sign = (\<lambda>c. c = CHR ''+'' \<or> c = CHR ''-'');
          tail = takeWhile (\<lambda>c. \<not> is_sign c) (rev s);
          n = length s - length tail
      in if n = 0 then None else Some (take (n - 1) s, drop (n - 1) s))"

definition parse_time_and_offset :: "string \<Rightarrow> (string \<times> int) option" where
  "parse_time_and_offset s =
     (case strip_suffix ''Z'' s of
        Some t \<Rightarrow> Some (t, 0)
      | None \<Rightarrow>
          (case split_at_last_sign s of
             None \<Rightarrow> Some (s, 0)
           | Some (t, offset) \<Rightarrow>
               (case split_once (CHR '':'') (drop 1 offset) of
                  None \<Rightarrow> None
                | Some (hours, minutes) \<Rightarrow>
                    if length hours \<noteq> 2 \<or> length minutes \<noteq> 2 then None
                    else (case parse_signed (2 ^ 31) hours of
                        None \<Rightarrow> None
                      | Some h \<Rightarrow>
                          (case parse_signed (2 ^ 31) minutes of
                             None \<Rightarrow> None
                           | Some m \<Rightarrow>
                               if 23 < h \<or> 59 < m then None
                               else Some (t, (if hd offset = CHR ''+'' then 1 else -1) * (h * 60 + m)))))))"

definition parse_u32 :: "string \<Rightarrow> nat option" where
  "parse_u32 s = parse_unsigned (2 ^ 32) s"

text \<open>The seconds with an optional fraction, cut to milliseconds.\<close>

definition parse_seconds :: "string \<Rightarrow> (nat \<times> nat) option" where
  "parse_seconds s =
     (case split_once (CHR ''.'') s of
        Some (second, fraction) \<Rightarrow>
          if fraction = [] \<or> \<not> list_all is_ascii_digit fraction then None
          else (case parse_u32 (take 3 (take 3 fraction @ ''000'')) of
                  None \<Rightarrow> None
                | Some millis \<Rightarrow> map_option (\<lambda>sec. (sec, millis)) (parse_u32 second))
      | None \<Rightarrow> map_option (\<lambda>sec. (sec, 0)) (parse_u32 s))"

definition civil_millis :: "int \<Rightarrow> nat \<Rightarrow> nat \<Rightarrow> nat \<Rightarrow> nat \<Rightarrow> nat \<Rightarrow> nat \<Rightarrow> int \<Rightarrow> int option" where
  "civil_millis year month day hour minute second millis offset_minutes =
     (if \<not> (1 \<le> month \<and> month \<le> 12) \<or> \<not> (1 \<le> day \<and> day \<le> days_in_month year month)
         \<or> 23 < hour \<or> 59 < minute \<or> 59 < second
      then None
      else Some ((((days_from_civil year month day * 24 + int hour) * 60 + int minute) * 60 + int second) * 1000
                 + int millis - offset_minutes * 60 * 1000))"

definition parse_iso_utc_millis :: "string \<Rightarrow> int option" where
  "parse_iso_utc_millis s =
     (case split_once (CHR ''T'') s of
        None \<Rightarrow> None
      | Some (date, time_with_offset) \<Rightarrow>
          (case split_on (CHR ''-'') date of
             [y, mo, d] \<Rightarrow>
               (case (parse_signed (2 ^ 31) y, parse_u32 mo, parse_u32 d) of
                  (Some year, Some month, Some day) \<Rightarrow>
                    (case parse_time_and_offset time_with_offset of
                       None \<Rightarrow> None
                     | Some (time, offset_minutes) \<Rightarrow>
                         (case split_on (CHR '':'') time of
                            [h, mi, sm] \<Rightarrow>
                              (case (parse_u32 h, parse_u32 mi, parse_seconds sm) of
                                 (Some hour, Some minute, Some (second, millis)) \<Rightarrow>
                                   civil_millis year month day hour minute second millis offset_minutes
                               | _ \<Rightarrow> None)
                          | _ \<Rightarrow> None))
                | _ \<Rightarrow> None)
           | _ \<Rightarrow> None))"

definition activity_millis :: "string \<Rightarrow> int option" where
  "activity_millis s =
     (let trimmed = trim_string s
      in if trimmed = [] then None
         else if list_all is_ascii_digit trimmed then parse_signed (2 ^ 127) trimmed
         else parse_iso_utc_millis trimmed)"

section \<open>The calendar counts days\<close>

text \<open>The reference: whole years, whole months and days, counted from the first day of 1970.\<close>

definition year_length :: "int \<Rightarrow> nat" where
  "year_length year = sum_list (map (days_in_month year) [1..<13])"

definition epoch_day :: "int \<Rightarrow> nat \<Rightarrow> nat \<Rightarrow> int" where
  "epoch_day year month day =
     (if 1970 \<le> year then int (\<Sum>k\<in>{1970..<year}. year_length k)
      else - int (\<Sum>k\<in>{year..<1970}. year_length k))
     + int (sum_list (map (days_in_month year) [1..<month])) + int day - 1"

definition valid_date :: "int \<Rightarrow> nat \<Rightarrow> nat \<Rightarrow> bool" where
  "valid_date year month day \<longleftrightarrow>
     1 \<le> month \<and> month \<le> 12 \<and> 1 \<le> day \<and> day \<le> days_in_month year month"

lemma div_pred: "y div k = (y - 1) div k + (if y mod k = 0 then 1 else 0)" if "0 < k" for y k :: int
proof (cases "y mod k = 0")
  case True
  then obtain q where "y = k * q" by auto
  moreover have "(k * q - 1) div k = q - 1"
    by (rule int_div_pos_eq [of _ _ _ "k - 1"]) (use that in \<open>auto simp: algebra_simps\<close>)
  ultimately show ?thesis using that True by simp
next
  case False
  moreover have "0 \<le> y mod k" "y mod k < k" using that by simp_all
  ultimately have "0 \<le> y mod k - 1" "y mod k - 1 < k" by linarith+
  then have "(y - 1) div k = y div k"
    by (intro int_div_pos_eq [of _ _ _ "y mod k - 1"]) simp_all
  with False show ?thesis by simp
qed

lemma leap_mods: "y mod 100 = 0 \<Longrightarrow> y mod 4 = 0" "y mod 400 = 0 \<Longrightarrow> y mod 100 = 0" for y :: int
proof -
  assume "y mod 100 = 0"
  then obtain q where "y = 4 * (25 * q)" by auto
  then show "y mod 4 = 0" by (metis mod_mult_self1_is_0)
next
  assume "y mod 400 = 0"
  then obtain q where "y = 100 * (4 * q)" by auto
  then show "y mod 100 = 0" by (metis mod_mult_self1_is_0)
qed

lemma floor_year: "trunc_div (if 0 \<le> y then y else y - 399) 400 = y div 400"
proof (cases "0 \<le> y")
  case False
  have "0 \<le> y mod 400" "y mod 400 < 400" by simp_all
  moreover have "y = 400 * (y div 400) + y mod 400" by simp
  ultimately have "(399 - y) div 400 = - (y div 400)"
    by (intro int_div_pos_eq [of _ _ _ "399 - y mod 400"]) linarith+
  with False show ?thesis by (simp add: trunc_div_def)
qed (simp add: trunc_div_def)

lemma quad: "y div 4 = (y div 400) * 100 + (y - (y div 400) * 400) div 4"
   "y div 100 = (y div 400) * 4 + (y - (y div 400) * 400) div 100" for y :: int
proof -
  have "(y - (y div 400) * 400) div 4 = (y + (- (y div 400) * 100) * 4) div 4" by simp
  also have "\<dots> = - (y div 400) * 100 + y div 4" by (rule div_mult_self1) simp
  finally show "y div 4 = (y div 400) * 100 + (y - (y div 400) * 400) div 4" by simp
  have "(y - (y div 400) * 400) div 100 = (y + (- (y div 400) * 4) * 100) div 100" by simp
  also have "\<dots> = - (y div 400) * 4 + y div 100" by (rule div_mult_self1) simp
  finally show "y div 100 = (y div 400) * 4 + (y - (y div 400) * 400) div 100" by simp
qed

text \<open>The leap days before the end of a year; a leap year adds one, and its February shows it.\<close>

definition leap_days :: "int \<Rightarrow> int" where
  "leap_days y = y div 4 - y div 100 + y div 400"

lemma days_from_civil_closed:
  "days_from_civil y0 m d =
     (let y = y0 - (if m \<le> 2 then 1 else 0)
      in 365 * y + leap_days y
         + (153 * (int m + (if 2 < m then -3 else 9)) + 2) div 5 + int d - 719469)"
  if "1 \<le> m"
proof -
  define y where "y = y0 - (if m \<le> 2 then 1 else 0)"
  define yoe where "yoe = y - (y div 400) * 400"
  have yoe: "0 \<le> yoe" unfolding yoe_def by (simp add: minus_div_mult_eq_mod)
  note q = quad [of y, folded yoe_def]
  define march where "march = (153 * (int m + (if 2 < m then -3 else 9)) + 2) div 5"
  have "trunc_div (153 * (int m + (if 2 < int m then -3 else 9)) + 2) 5 = march"
    using that by (simp add: trunc_div_def march_def)
  then have "days_from_civil y0 m d =
      (y div 400) * 146097 + (yoe * 365 + yoe div 4 - yoe div 100 + (march + int d - 1)) - 719468"
    using yoe unfolding days_from_civil_def Let_def y_def [symmetric] floor_year yoe_def [symmetric]
    by (simp only: trunc_div_def if_True)
  moreover have "a * 146097 + (yoe * 365 + b - c + (march + int d - 1)) - 719468
      = 365 * (yoe + a * 400) + ((a * 100 + b) - (a * 4 + c) + a) + march + int d - 719469" for a b c
    by simp
  moreover have "yoe + y div 400 * 400 = y" by (simp add: yoe_def)
  ultimately show ?thesis
    unfolding y_def [symmetric] march_def [symmetric] Let_def leap_days_def q by (simp only:)
qed

lemma leap_step: "leap_days y = leap_days (y - 1) + int (days_in_month y 2) - 28"
proof -
  define a b c :: int where "a = (if y mod 4 = 0 then 1 else 0)" and "b = (if y mod 100 = 0 then 1 else 0)"
    and "c = (if y mod 400 = 0 then 1 else 0)"
  have "int (days_in_month y 2) - 28 = a - b + c"
    using leap_mods [of y] by (auto simp: days_in_month_def a_def b_def c_def)
  moreover have "leap_days y = ((y - 1) div 4 + a) - ((y - 1) div 100 + b) + ((y - 1) div 400 + c)"
    unfolding leap_days_def a_def b_def c_def by (simp only: div_pred [of 4 y] div_pred [of 100 y] div_pred [of 400 y])
  then have "leap_days y = leap_days (y - 1) + (a - b + c)"
    by (simp only: leap_days_def algebra_simps)
  ultimately show ?thesis by linarith
qed

lemma civil_early:
  "days_from_civil y 1 d = 365 * y + leap_days (y - 1) + int d - 719528"
  "days_from_civil y 2 d = 365 * y + leap_days (y - 1) + int d - 719497"
  by (subst days_from_civil_closed; simp add: Let_def)+

lemma civil_late:
  "3 \<le> m \<Longrightarrow> days_from_civil y m d =
     365 * y + leap_days (y - 1) + int (days_in_month y 2) - 28 + (153 * (int m - 3) + 2) div 5 + int d - 719469"
  using leap_step [of y]
  by (subst days_from_civil_closed) (simp_all add: Let_def)

lemma month_lengths:
  "days_in_month y 1 = 31" "days_in_month y (Suc 0) = 31" "days_in_month y 3 = 31" "days_in_month y 4 = 30"
  "days_in_month y 5 = 31" "days_in_month y 6 = 30" "days_in_month y 7 = 31" "days_in_month y 8 = 31"
  "days_in_month y 9 = 30" "days_in_month y 10 = 31" "days_in_month y 11 = 30" "days_in_month y 12 = 31"
  by (simp_all add: days_in_month_def)

lemma months_upto:
  "[1..<2] = [1::nat]" "[1..<3] = [1::nat, 2]" "[1..<4] = [1::nat, 2, 3]" "[1..<5] = [1::nat, 2, 3, 4]"
  "[1..<6] = [1::nat, 2, 3, 4, 5]" "[1..<7] = [1::nat, 2, 3, 4, 5, 6]" "[1..<8] = [1::nat, 2, 3, 4, 5, 6, 7]"
  "[1..<9] = [1::nat, 2, 3, 4, 5, 6, 7, 8]" "[1..<10] = [1::nat, 2, 3, 4, 5, 6, 7, 8, 9]"
  "[1..<11] = [1::nat, 2, 3, 4, 5, 6, 7, 8, 9, 10]" "[1..<12] = [1::nat, 2, 3, 4, 5, 6, 7, 8, 9, 10, 11]"
  "[1..<13] = [1::nat, 2, 3, 4, 5, 6, 7, 8, 9, 10, 11, 12]"
  by code_simp+

lemma civil_january: "days_from_civil (y + 1) 1 1 = days_from_civil y 1 1 + int (year_length y)"
proof -
  have "int (year_length y) = 337 + int (days_in_month y 2)"
    by (simp add: year_length_def months_upto month_lengths del: One_nat_def)
  then show ?thesis
    using leap_step [of y] by (simp add: civil_early del: One_nat_def)
qed

lemma civil_origin: "days_from_civil 1970 1 1 = 0"
  by (simp add: civil_early leap_days_def del: One_nat_def)

lemma civil_years_after:
  "days_from_civil (1970 + int n) 1 1 = int (\<Sum>k\<in>{1970..<1970 + int n}. year_length k)"
proof (induction n)
  case (Suc n)
  have "{1970..<1970 + int (Suc n)} = insert (1970 + int n) {1970..<1970 + int n}" by auto
  moreover have "days_from_civil (1970 + int (Suc n)) 1 1
      = days_from_civil (1970 + int n) 1 1 + int (year_length (1970 + int n))"
    using civil_january [of "1970 + int n"] by (simp add: algebra_simps)
  ultimately show ?case using Suc by simp
qed (simp add: civil_origin del: One_nat_def)

lemma civil_years_before:
  "days_from_civil (1970 - int n) 1 1 = - int (\<Sum>k\<in>{1970 - int n..<1970}. year_length k)"
proof (induction n)
  case (Suc n)
  have "{1970 - int (Suc n)..<1970} = insert (1970 - int (Suc n)) {1970 - int n..<1970}" by auto
  moreover have "days_from_civil (1970 - int n) 1 1
      = days_from_civil (1970 - int (Suc n)) 1 1 + int (year_length (1970 - int (Suc n)))"
    using civil_january [of "1970 - int (Suc n)"] by (simp add: algebra_simps)
  ultimately show ?case using Suc by simp
qed (simp add: civil_origin del: One_nat_def)

lemma civil_in_year:
  assumes "1 \<le> m" "m \<le> 12"
  shows "days_from_civil y m d =
     days_from_civil y 1 1 + int (sum_list (map (days_in_month y) [1..<m])) + int d - 1"
proof -
  from assms have "m \<in> set [1..<13]" by simp
  then have "m \<in> {1, 2, 3, 4, 5, 6, 7, 8, 9, 10, 11, 12}" by (simp only: months_upto list.set)
  then show ?thesis
    using civil_early(1) [of y 1]
    by (elim insertE emptyE)
      (simp_all add: civil_early civil_late months_upto month_lengths del: One_nat_def)
qed

lemma civil_january_counts:
  "days_from_civil y 1 1 =
     (if 1970 \<le> y then int (\<Sum>k\<in>{1970..<y}. year_length k) else - int (\<Sum>k\<in>{y..<1970}. year_length k))"
proof (cases "1970 \<le> y")
  case True
  then show ?thesis using civil_years_after [of "nat (y - 1970)"] by simp
next
  case False
  then show ?thesis using civil_years_before [of "nat (1970 - y)"] by simp
qed

text \<open>
  C25: the closed-form day number the timestamp parser computes (eras of 400 years, months from March)
  is, for every month of every proleptic Gregorian year, the number of days counted one year, one
  month and one day at a time from the first of January 1970.
\<close>

theorem days_from_civil_counts_days:
  assumes "1 \<le> month" and "month \<le> 12"
  shows "days_from_civil year month day = epoch_day year month day"
  using civil_in_year [OF assms] civil_january_counts by (simp add: epoch_day_def)

text \<open>The last day of February 2024 is the 19782nd day after the epoch.\<close>

theorem days_from_civil_counts_days_witness:
  "(1::nat) \<le> 2 \<and> (2::nat) \<le> 12 \<and> days_from_civil 2024 2 29 = epoch_day 2024 2 29 \<and> epoch_day 2024 2 29 = 19782"
proof -
  have "days_from_civil 2024 2 29 = epoch_day 2024 2 29"
    by (rule days_from_civil_counts_days) simp_all
  moreover have "days_from_civil 2024 2 29 = 19782" by (simp add: days_from_civil_closed leap_days_def)
  ultimately show ?thesis by simp
qed

section \<open>ISO timestamps are read exactly\<close>

text \<open>
  The rendering of a moment: the year with any number of leading zeros, the fraction of the second left
  out or of any length, and the offset \<open>Z\<close>, in hours and minutes, or left out for UTC.
\<close>

definition digits :: "string \<Rightarrow> bool" where
  "digits s \<longleftrightarrow> s \<noteq> [] \<and> list_all is_ascii_digit s"

definition pad2 :: "nat \<Rightarrow> string" where
  "pad2 n = [dec_digit (n div 10), dec_digit (n mod 10)]"

datatype zone = Unmarked | Utc | East nat nat | West nat nat

fun zone_string :: "zone \<Rightarrow> string" where
  "zone_string Unmarked = []"
| "zone_string Utc = ''Z''"
| "zone_string (East h m) = CHR ''+'' # pad2 h @ CHR '':'' # pad2 m"
| "zone_string (West h m) = CHR ''-'' # pad2 h @ CHR '':'' # pad2 m"

fun zone_minutes :: "zone \<Rightarrow> int" where
  "zone_minutes Unmarked = 0"
| "zone_minutes Utc = 0"
| "zone_minutes (East h m) = int (h * 60 + m)"
| "zone_minutes (West h m) = - int (h * 60 + m)"

fun two_digit_zone :: "zone \<Rightarrow> bool" where
  "two_digit_zone (East h m) = (h < 100 \<and> m < 100)"
| "two_digit_zone (West h m) = (h < 100 \<and> m < 100)"
| "two_digit_zone _ = True"

fun valid_zone :: "zone \<Rightarrow> bool" where
  "valid_zone (East h m) = (h \<le> 23 \<and> m \<le> 59)"
| "valid_zone (West h m) = (h \<le> 23 \<and> m \<le> 59)"
| "valid_zone _ = True"

text \<open>The fraction of a second, and the whole milliseconds in it.\<close>

fun fraction_string :: "string option \<Rightarrow> string" where
  "fraction_string None = []"
| "fraction_string (Some f) = CHR ''.'' # f"

fun fraction_ok :: "string option \<Rightarrow> bool" where
  "fraction_ok None = True"
| "fraction_ok (Some f) = digits f"

fun fraction_millis :: "string option \<Rightarrow> nat" where
  "fraction_millis None = 0"
| "fraction_millis (Some f) = dec_value f * 1000 div 10 ^ length f"

definition iso_date :: "string \<Rightarrow> nat \<Rightarrow> nat \<Rightarrow> string" where
  "iso_date y mo d = y @ CHR ''-'' # pad2 mo @ CHR ''-'' # pad2 d"

definition iso_time :: "nat \<Rightarrow> nat \<Rightarrow> nat \<Rightarrow> string option \<Rightarrow> string" where
  "iso_time h mi s f = pad2 h @ CHR '':'' # pad2 mi @ CHR '':'' # pad2 s @ fraction_string f"

definition iso_timestamp ::
    "string \<Rightarrow> nat \<Rightarrow> nat \<Rightarrow> nat \<Rightarrow> nat \<Rightarrow> nat \<Rightarrow> string option \<Rightarrow> zone \<Rightarrow> string" where
  "iso_timestamp y mo d h mi s f z = iso_date y mo d @ CHR ''T'' # iso_time h mi s f @ zone_string z"

lemma digits_exclude: "list_all is_ascii_digit s \<Longrightarrow> \<not> is_ascii_digit c \<Longrightarrow> c \<notin> set s"
  by (auto simp: list_all_iff)

lemma not_digits [simp]:
  "\<not> is_ascii_digit (CHR ''T'')" "\<not> is_ascii_digit (CHR '':'')" "\<not> is_ascii_digit (CHR ''.'')"
  "\<not> is_ascii_digit (CHR ''Z'')"
  by (simp_all add: is_ascii_digit_def)

lemma pad_digits: "n < 100 \<Longrightarrow> list_all is_ascii_digit (pad2 n)"
  by (simp add: pad2_def is_ascii_digit_dec_digit)

lemma pad_lengths [simp]: "length (pad2 n) = 2" "pad2 n \<noteq> []"
  by (simp_all add: pad2_def)

lemma digits_excluded [simp]:
  "\<not> is_ascii_digit c \<Longrightarrow> n < 100 \<Longrightarrow> c \<notin> set (pad2 n)"
  "\<not> is_ascii_digit c \<Longrightarrow> digits s \<Longrightarrow> c \<notin> set s"
  using pad_digits digits_exclude unfolding digits_def by blast+

lemma fraction_excluded [simp]:
  "\<not> is_ascii_digit c \<Longrightarrow> c \<noteq> CHR ''.'' \<Longrightarrow> fraction_ok f \<Longrightarrow> c \<notin> set (fraction_string f)"
  by (cases f) simp_all

lemma pad_value: "n < 100 \<Longrightarrow> dec_value (pad2 n) = n"
  by (simp add: pad2_def dec_value_def dec_digit_value)

lemma dec_value_snoc: "dec_value (s @ [c]) = 10 * dec_value s + (of_char c - 48)"
  by (simp add: dec_value_def)

lemma dec_value_append: "dec_value (s @ t) = dec_value s * 10 ^ length t + dec_value t"
proof (induction t rule: rev_induct)
  case (snoc c t)
  then show ?case using dec_value_snoc [of "s @ t" c] dec_value_snoc [of t c] by simp
qed (simp add: dec_value_def)

lemma dec_value_bound: "list_all is_ascii_digit s \<Longrightarrow> dec_value s < 10 ^ length s"
proof (induction s rule: rev_induct)
  case (snoc c s)
  then have "of_char c - 48 < (10::nat)" by (auto simp: is_ascii_digit_def)
  with snoc show ?case by (simp add: dec_value_snoc)
qed (simp add: dec_value_def)

lemma digits_unsigned:
  assumes "list_all is_ascii_digit s" "s \<noteq> []" "dec_value s < bound"
  shows "parse_unsigned bound s = Some (dec_value s)"
  using assms plus_not_digit by (cases s) (auto simp: parse_unsigned_def parse_magnitude_def)

lemma digits_signed:
  assumes "list_all is_ascii_digit s" "s \<noteq> []" "int (dec_value s) < bound"
  shows "parse_signed bound s = Some (int (dec_value s))"
  using assms plus_not_digit by (cases s) (auto simp: parse_signed_def parse_magnitude_def)

lemma parse_pad [simp]:
  "n < 100 \<Longrightarrow> parse_u32 (pad2 n) = Some n" "n < 100 \<Longrightarrow> parse_signed 2147483648 (pad2 n) = Some (int n)"
  using digits_unsigned [OF pad_digits, of n "2 ^ 32"] digits_signed [OF pad_digits, of n 2147483648]
  by (simp_all add: parse_u32_def pad_value)

text \<open>Cutting the fraction at three digits, filled up with zeros, gives its whole milliseconds.\<close>

lemma fraction_cut:
  assumes "digits f"
  shows "dec_value (take 3 (take 3 f @ ''000'')) = dec_value f * 1000 div 10 ^ length f"
proof (cases "length f \<le> 3")
  case True
  then have "length f = 0 \<or> length f = 1 \<or> length f = 2 \<or> length f = 3" by linarith
  moreover have "dec_value [] = 0" "dec_value ''0'' = 0" "dec_value ''00'' = 0" "dec_value ''000'' = 0"
    by (simp_all add: dec_value_def)
  ultimately show ?thesis by (auto simp: dec_value_append)
next
  case False
  define k :: nat where "k = 10 ^ length (drop 3 f)"
  have "10 ^ length f = 1000 * k"
    using False power_add [of "10 :: nat" 3 "length f - 3"] by (simp add: k_def)
  then have "dec_value f * 1000 div 10 ^ length f = (1000 * dec_value f) div (1000 * k)"
    by (simp only: mult.commute)
  then have "dec_value f * 1000 div 10 ^ length f = dec_value f div k"
    by (simp only: div_mult_mult1 [of 1000 "dec_value f" k])
  moreover have "dec_value f = dec_value (take 3 f) * k + dec_value (drop 3 f)"
    using dec_value_append [of "take 3 f" "drop 3 f"] by (simp add: k_def)
  moreover have "dec_value (drop 3 f) < k"
    unfolding k_def using assms
    by (intro dec_value_bound) (auto simp: digits_def list_all_iff dest: in_set_dropD)
  ultimately have "dec_value f * 1000 div 10 ^ length f = dec_value (take 3 f)" by simp
  with False show ?thesis by simp
qed

lemma parse_cut:
  assumes "digits f"
  shows "parse_u32 (take 3 (take 3 f @ ''000'')) = Some (dec_value f * 1000 div 10 ^ length f)"
proof -
  obtain c where c: "c = take 3 (take 3 f @ ''000'')" by simp
  have "set c \<subseteq> set (take 3 f @ ''000'')" unfolding c by (rule set_take_subset)
  moreover have "set (take 3 f) \<subseteq> set f" by (rule set_take_subset)
  ultimately have "set c \<subseteq> insert (CHR ''0'') (set f)" by auto
  moreover have "is_ascii_digit (CHR ''0'')" by (simp add: is_ascii_digit_def)
  ultimately have ds: "list_all is_ascii_digit c"
    using assms unfolding digits_def list_all_iff by blast
  have len: "length c \<le> 3" and ne: "c \<noteq> []" by (simp_all add: c)
  from ds have "dec_value c < 10 ^ length c" by (rule dec_value_bound)
  also have "(10 :: nat) ^ length c \<le> 10 ^ 3" using len by (intro power_increasing) simp_all
  finally have "dec_value c < 2 ^ 32" by simp
  then show ?thesis
    unfolding parse_u32_def fraction_cut [OF assms, symmetric] c [symmetric]
    by (intro digits_unsigned ds ne)
qed

lemma parse_seconds_iso:
  "s < 100 \<Longrightarrow> fraction_ok f \<Longrightarrow> parse_seconds (pad2 s @ fraction_string f) = Some (s, fraction_millis f)"
proof (cases f)
  case (Some g)
  moreover assume "s < 100" "fraction_ok f"
  moreover from this Some have "split_once (CHR ''.'') (pad2 s @ CHR ''.'' # g) = Some (pad2 s, g)"
    by (intro split_once_append) simp
  ultimately show ?thesis
    by (simp add: parse_seconds_def digits_def parse_cut [unfolded digits_def] del: take_append)
qed (simp add: parse_seconds_def split_once_none)

lemma split_last_sign:
  assumes "c = CHR ''+'' \<or> c = CHR ''-''" "CHR ''+'' \<notin> set r" "CHR ''-'' \<notin> set r"
  shows "split_at_last_sign (t @ c # r) = Some (t, c # r)"
proof -
  have "takeWhile (\<lambda>x. \<not> (x = CHR ''+'' \<or> x = CHR ''-'')) (rev (t @ c # r)) = rev r"
    using assms by (simp add: takeWhile_append takeWhile_eq_all_conv) auto
  then show ?thesis by (simp add: split_at_last_sign_def)
qed

lemma dec_digit_not_Z: "d < 10 \<Longrightarrow> dec_digit d \<noteq> CHR ''Z''"
  using is_ascii_digit_dec_digit not_digits(4) by metis

lemma offset_tail:
  assumes "c = CHR ''+'' \<or> c = CHR ''-''" "h < 100" "m < 100"
  shows "parse_time_and_offset (t @ c # pad2 h @ CHR '':'' # pad2 m)
         = (if h \<le> 23 \<and> m \<le> 59 then Some (t, (if c = CHR ''+'' then 1 else -1) * (int h * 60 + int m)) else None)"
proof -
  have "strip_suffix ''Z'' (t @ c # pad2 h @ CHR '':'' # pad2 m) = None"
    using dec_digit_not_Z [of "m mod 10"] by (auto simp: strip_suffix_def strip_prefix_def pad2_def)
  moreover have "split_at_last_sign (t @ c # (pad2 h @ CHR '':'' # pad2 m)) = Some (t, c # pad2 h @ CHR '':'' # pad2 m)"
    using assms by (intro split_last_sign) simp_all
  moreover have "split_once (CHR '':'') (pad2 h @ CHR '':'' # pad2 m) = Some (pad2 h, pad2 m)"
    using assms by (intro split_once_append) simp
  ultimately show ?thesis
    using assms by (auto simp: parse_time_and_offset_def)
qed

lemma unmarked_tail:
  assumes "CHR ''+'' \<notin> set t" "CHR ''-'' \<notin> set t" "CHR ''Z'' \<notin> set t"
  shows "parse_time_and_offset t = Some (t, 0)"
proof -
  have "strip_suffix ''Z'' t = None"
  proof (cases t rule: rev_cases)
    case (snoc u c)
    with assms(3) show ?thesis by (auto simp: strip_suffix_def strip_prefix_def)
  qed (simp add: strip_suffix_def strip_prefix_def)
  moreover have "takeWhile (\<lambda>x. \<not> (x = CHR ''+'' \<or> x = CHR ''-'')) (rev t) = rev t"
    using assms unfolding takeWhile_eq_all_conv by auto
  then have "split_at_last_sign t = None"
    unfolding split_at_last_sign_def Let_def by (simp only: length_rev diff_self_eq_0 if_True simp_thms)
  ultimately show ?thesis by (simp add: parse_time_and_offset_def)
qed

lemma zone_tail:
  assumes "two_digit_zone z" "CHR ''+'' \<notin> set t" "CHR ''-'' \<notin> set t" "CHR ''Z'' \<notin> set t"
  shows "parse_time_and_offset (t @ zone_string z) = (if valid_zone z then Some (t, zone_minutes z) else None)"
proof (cases z)
  case Utc
  then show ?thesis by (simp add: parse_time_and_offset_def)
qed (use assms in \<open>simp_all add: offset_tail unmarked_tail\<close>)

lemma split_iso_time:
  assumes "h < 100" "mi < 100" "s < 100" "fraction_ok f"
  shows "split_on (CHR '':'') (iso_time h mi s f) = [pad2 h, pad2 mi, pad2 s @ fraction_string f]"
  using assms unfolding iso_time_def
  by (simp add: split_on_append split_on_none)

lemma iso_time_tail:
  assumes "h < 100" "mi < 100" "s < 100" "fraction_ok f" "two_digit_zone z"
  shows "parse_time_and_offset (iso_time h mi s f @ zone_string z)
         = (if valid_zone z then Some (iso_time h mi s f, zone_minutes z) else None)"
  using assms by (intro zone_tail) (simp_all add: iso_time_def)

lemma split_iso_date:
  assumes "digits y" "mo < 100" "d < 100"
  shows "split_on (CHR ''-'') (iso_date y mo d) = [y, pad2 mo, pad2 d]"
  using assms unfolding iso_date_def
  by (simp add: split_on_append split_on_none)

lemma ascii_front: "33 \<le> b \<Longrightarrow> b < 128 \<Longrightarrow> ws_len (b # bs) = 0"
  by (cases bs) (simp_all split: list.split)

lemma ascii_back: "33 \<le> b \<Longrightarrow> b < 128 \<Longrightarrow> ws_len_rev (b # bs) = 0"
  by (cases bs) (simp_all split: list.split)

lemma digit_front: "list_all is_ascii_digit s \<Longrightarrow> s \<noteq> [] \<Longrightarrow> ws_len (bytes_of (s @ t)) = 0"
proof (cases s)
  case (Cons c cs)
  moreover assume "list_all is_ascii_digit s"
  ultimately have "33 \<le> (of_char c :: nat)" "(of_char c :: nat) < 128" by (simp_all add: is_ascii_digit_def)
  with Cons show ?thesis by (simp add: ascii_front del: ws_len.simps)
qed simp

lemma of_char_dec_digit: "d < 10 \<Longrightarrow> of_char (dec_digit d) = (48 + d :: nat)"
  by (simp add: dec_digit_def)

lemma digit_back: "list_all is_ascii_digit s \<Longrightarrow> s \<noteq> [] \<Longrightarrow> ws_len_rev (bytes_of (rev (t @ s))) = 0"
proof (cases s rule: rev_cases)
  case (snoc u c)
  moreover assume "list_all is_ascii_digit s"
  ultimately have "33 \<le> (of_char c :: nat)" "(of_char c :: nat) < 128" by (simp_all add: is_ascii_digit_def)
  with snoc show ?thesis by (simp add: ascii_back del: ws_len_rev.simps)
qed simp

lemma iso_back:
  assumes "s < 100" "fraction_ok f" "two_digit_zone z"
  shows "ws_len_rev (bytes_of (rev (t @ pad2 s @ fraction_string f @ zone_string z))) = 0"
proof (cases z)
  case Utc
  then show ?thesis by (simp add: ascii_back del: ws_len_rev.simps)
next
  case Unmarked
  show ?thesis
  proof (cases f)
    case None
    with Unmarked show ?thesis using digit_back [OF pad_digits [OF assms(1)], of t] by simp
  next
    case (Some g)
    with Unmarked assms show ?thesis
      using digit_back [of g "t @ pad2 s @ ''.''"] by (simp add: digits_def)
  qed
next
  case (East h m)
  with assms show ?thesis
    using digit_back [OF pad_digits [of m], of "t @ pad2 s @ fraction_string f @ CHR ''+'' # pad2 h @ '':''"] by simp
next
  case (West h m)
  with assms show ?thesis
    using digit_back [OF pad_digits [of m], of "t @ pad2 s @ fraction_string f @ CHR ''-'' # pad2 h @ '':''"] by simp
qed

lemma trim_iso:
  assumes "digits y" "s < 100" "fraction_ok f" "two_digit_zone z"
  shows "trim_string (iso_timestamp y mo d h mi s f z) = iso_timestamp y mo d h mi s f z"
proof -
  let ?s = "iso_timestamp y mo d h mi s f z"
  have "trim_start ?s = ?s"
    using assms(1) unfolding iso_timestamp_def iso_date_def append_assoc digits_def
    by (intro trim_start_fixed digit_front) simp_all
  moreover have "trim_back (rev ?s) = rev ?s"
    using iso_back [OF assms(2-4), of "iso_date y mo d @ CHR ''T'' # pad2 h @ CHR '':'' # pad2 mi @ '':''"]
    by (intro trim_back_fixed) (simp add: iso_timestamp_def iso_time_def)
  ultimately show ?thesis by (simp add: trim_string_def trim_end_def)
qed

lemma split_iso_moment:
  assumes "digits y" "mo < 100" "d < 100"
  shows "split_once (CHR ''T'') (iso_date y mo d @ CHR ''T'' # t) = Some (iso_date y mo d, t)"
  using assms
  by (intro split_once_append) (simp add: iso_date_def)

lemma parse_iso_written:
  assumes "digits y" "dec_value y < 2 ^ 31" "mo < 100" "d < 100" "h < 100" "mi < 100" "s < 100"
    and "fraction_ok f" "two_digit_zone z"
  shows "activity_millis (iso_timestamp y mo d h mi s f z)
         = (if valid_zone z
            then civil_millis (int (dec_value y)) mo d h mi s (fraction_millis f) (zone_minutes z) else None)"
proof -
  have "parse_signed 2147483648 y = Some (int (dec_value y))"
    using assms by (intro digits_signed) (simp_all add: digits_def)
  then have "parse_iso_utc_millis (iso_timestamp y mo d h mi s f z)
      = (if valid_zone z
         then civil_millis (int (dec_value y)) mo d h mi s (fraction_millis f) (zone_minutes z) else None)"
    using assms unfolding parse_iso_utc_millis_def iso_timestamp_def
    by (simp add: split_iso_moment split_iso_date split_iso_time iso_time_tail parse_seconds_iso)
  moreover have "\<not> list_all is_ascii_digit (iso_timestamp y mo d h mi s f z)"
    "iso_timestamp y mo d h mi s f z \<noteq> []"
    by (simp_all add: iso_timestamp_def)
  ultimately show ?thesis using assms by (simp add: activity_millis_def trim_iso Let_def)
qed

text \<open>
  C24: a timestamp with two-digit fields, a year of any number of digits, a fraction of any length or none
  and \<open>Z\<close>, an offset or no zone is read as the exact number of whole milliseconds between that moment and
  the first of January 1970, with the days counted one by one and the rest of the fraction cut off; a
  timestamp with a field or an offset out of its range is refused.
\<close>

theorem iso_timestamp_read_exactly:
  assumes "digits y" and "dec_value y < 2 ^ 31" and "mo < 100" and "d < 100" and "h < 100" and "mi < 100"
    and "s < 100" and "fraction_ok f" and "two_digit_zone z"
  shows "activity_millis (iso_timestamp y mo d h mi s f z)
         = (if valid_date (int (dec_value y)) mo d \<and> h \<le> 23 \<and> mi \<le> 59 \<and> s \<le> 59 \<and> valid_zone z
            then Some (((epoch_day (int (dec_value y)) mo d * 24 + int h) * 60 + int mi - zone_minutes z) * 60000
                       + int s * 1000 + int (fraction_millis f))
            else None)"
proof -
  have "days_from_civil (int (dec_value y)) mo d = epoch_day (int (dec_value y)) mo d"
    if "1 \<le> mo" "mo \<le> 12"
    using civil_in_year [OF that] civil_january_counts by (simp add: epoch_day_def)
  then show ?thesis
    unfolding parse_iso_written [OF assms] civil_millis_def valid_date_def
    by (auto simp: algebra_simps)
qed

text \<open>
  Half past one at offset +01:30 on New Year's Day 2026 is midnight UTC; a fraction of one digit is tenths
  of a second, one of nine digits is cut, a year is read with its zeros, and there is no hour 24.
\<close>

theorem iso_timestamp_read_exactly_witness:
  "activity_millis ''2026-01-01T01:30:00+01:30'' = Some (epoch_day 2026 1 1 * 86400000)
   \<and> activity_millis ''2026-01-01T00:00:07.5'' = Some (epoch_day 2026 1 1 * 86400000 + 7500)
   \<and> activity_millis ''0970-12-31T23:59:59.123999999Z'' = Some (epoch_day 970 12 31 * 86400000 + 86399123)
   \<and> activity_millis ''2026-01-01T24:00:00Z'' = None"
proof -
  have written: "digits ''2026''" "digits ''0970''" "digits ''5''" "digits ''123999999''" by code_simp+
  have vals: "dec_value ''2026'' = 2026" "dec_value ''0970'' = 970" "dec_value ''5'' = 5"
    "dec_value ''123999999'' = 123999999"
    by (simp_all add: dec_value_def)
  note read = iso_timestamp_read_exactly
  note checks = written vals valid_date_def days_in_month_def
  have "activity_millis (iso_timestamp ''2026'' 1 1 1 30 0 None (East 1 30)) = Some (epoch_day 2026 1 1 * 86400000)"
    by (subst read) (simp_all add: checks del: One_nat_def)
  moreover have "activity_millis (iso_timestamp ''2026'' 1 1 0 0 7 (Some ''5'') Unmarked)
      = Some (epoch_day 2026 1 1 * 86400000 + 7500)"
    by (subst read) (simp_all add: checks del: One_nat_def)
  moreover have "activity_millis (iso_timestamp ''0970'' 12 31 23 59 59 (Some ''123999999'') Utc)
      = Some (epoch_day 970 12 31 * 86400000 + 86399123)"
    by (subst read) (simp_all add: checks del: One_nat_def)
  moreover have "activity_millis (iso_timestamp ''2026'' 1 1 24 0 0 None Utc) = None"
    by (subst read) (simp_all add: checks del: One_nat_def)
  moreover have "iso_timestamp ''2026'' 1 1 1 30 0 None (East 1 30) = ''2026-01-01T01:30:00+01:30''"
    "iso_timestamp ''2026'' 1 1 0 0 7 (Some ''5'') Unmarked = ''2026-01-01T00:00:07.5''"
    "iso_timestamp ''0970'' 12 31 23 59 59 (Some ''123999999'') Utc = ''0970-12-31T23:59:59.123999999Z''"
    "iso_timestamp ''2026'' 1 1 24 0 0 None Utc = ''2026-01-01T24:00:00Z''"
    by code_simp+
  ultimately show ?thesis by (simp only: simp_thms)
qed

end
