(* ===== verification/Chat_Model.thy ===== *)
theory Chat_Model
  imports Json_Value
begin

text \<open>
  The Chat of a Task: the normalized messages a Task stores and shows
  (\<open>src/openaide-rs/app-server/src/protocol/model/activity.rs\<close> and \<open>chat.rs\<close>), and the normalized
  question forms of the wire protocol that a question message carries
  (\<open>src/openaide-rs/app-server-protocol/src/server_requests.rs\<close>). A variant with named fields is a
  constructor whose arguments are those fields in the order of the source; the variants whose fields
  are updated in place are records. An \<open>f64\<close> is its bit pattern, since nothing here computes with it.
\<close>

type_synonym f64 = "64 word"

section \<open>Question forms\<close>

datatype question_string_format = FormatEmail | FormatUri | FormatDate | FormatDateTime

record question_option =
  option_value :: string
  option_label :: string
  option_description :: "string option"

record question_field_head =
  field_key :: string
  field_title :: string
  field_description :: "string option"
  field_required :: bool

datatype question_field =
    StringField question_field_head "string option" "nat option" "nat option" "string option"
      "question_string_format option"
  | NumberField question_field_head "f64 option" "f64 option" "f64 option"
  | IntegerField question_field_head "int option" "int option" "int option"
  | BooleanField question_field_head "bool option"
  | SingleSelectField question_field_head "string option" "question_option list"
  | MultiSelectField question_field_head "string list" "nat option" "nat option" "question_option list"

fun field_head :: "question_field \<Rightarrow> question_field_head" where
  "field_head (StringField h _ _ _ _ _) = h"
| "field_head (NumberField h _ _ _) = h"
| "field_head (IntegerField h _ _ _) = h"
| "field_head (BooleanField h _) = h"
| "field_head (SingleSelectField h _ _) = h"
| "field_head (MultiSelectField h _ _ _ _) = h"

definition question_field_key :: "question_field \<Rightarrow> string" where
  "question_field_key f = field_key (field_head f)"

definition question_field_required :: "question_field \<Rightarrow> bool" where
  "question_field_required f = field_required (field_head f)"

datatype question_value =
    StringValue string
  | IntegerValue int
  | NumberValue f64
  | BooleanValue bool
  | StringArrayValue "string list"

section \<open>Activities\<close>

datatype activity_status = ActivityRunning | ActivityCompleted | ActivityInterrupted | ActivityError

datatype subagent_activity =
    SubagentDelegated | SubagentInteracted | SubagentRunning | SubagentCompleted | SubagentFailed | SubagentStopped

datatype tool_search_target = SearchContents | SearchPaths

datatype tool_presentation_kind = SkillKind | ReadKind | ViewKind | ListKind | SearchKind

datatype tool_presentation_action =
    SkillAction "string list"
  | ReadAction "string list"
  | ViewAction "string list"
  | ListAction "string list"
  | SearchAction string "string list" tool_search_target

text \<open>\<open>ToolPresentation\<close> is its list of actions.\<close>

type_synonym tool_presentation = "tool_presentation_action list"

text \<open>\<open>single\<close> reaches \<open>unreachable!\<close> for a search, where it is \<open>None\<close>.\<close>

fun single_presentation :: "tool_presentation_kind \<Rightarrow> string list \<Rightarrow> tool_presentation option" where
  "single_presentation SkillKind subjects = Some [SkillAction subjects]"
| "single_presentation ReadKind subjects = Some [ReadAction subjects]"
| "single_presentation ViewKind subjects = Some [ViewAction subjects]"
| "single_presentation ListKind subjects = Some [ListAction subjects]"
| "single_presentation SearchKind subjects = None"

fun presentation_kind :: "tool_presentation_action \<Rightarrow> tool_presentation_kind" where
  "presentation_kind (SkillAction _) = SkillKind"
| "presentation_kind (ReadAction _) = ReadKind"
| "presentation_kind (ViewAction _) = ViewKind"
| "presentation_kind (ListAction _) = ListKind"
| "presentation_kind (SearchAction _ _ _) = SearchKind"

fun presentation_subjects :: "tool_presentation_action \<Rightarrow> string list option" where
  "presentation_subjects (SkillAction subjects) = Some subjects"
| "presentation_subjects (ReadAction subjects) = Some subjects"
| "presentation_subjects (ViewAction subjects) = Some subjects"
| "presentation_subjects (ListAction subjects) = Some subjects"
| "presentation_subjects (SearchAction _ _ _) = None"

record activity_tool_location =
  location_path :: string
  location_line :: "nat option"

datatype activity_tool_content =
    ContentText string
  | ContentDiff string "string option" string
  | ContentTerminal string
  | ContentImage string string "string option"
  | ContentAudio string string
  | ContentResource string "string option" "string option" "string option" "string option" "int option" "string option"
  | ContentUnsupported string "string option" "string option"

text \<open>\<open>ActivityToolField\<close> is a pair of a name and a value, nested in \<open>ActivityToolValue\<close>.\<close>

datatype activity_tool_value =
    ToolNull
  | ToolBoolean bool
  | ToolNumber string
  | ToolString string
  | ToolArray "activity_tool_value list"
  | ToolObject "(string \<times> activity_tool_value) list"
  | ToolRedacted

type_synonym activity_tool_field = "string \<times> activity_tool_value"

record activity_tool_input =
  input_command :: "string list"
  input_cwd :: "string option"
  input_query :: "string option"
  input_queries :: "string list"
  input_url :: "string option"
  input_path :: "string option"
  input_fields :: "activity_tool_field list"

record activity_tool_output =
  stdout :: "string option"
  stderr :: "string option"
  formatted_output :: "string option"
  aggregated_output :: "string option"
  exit_code :: "int option"
  success :: "bool option"
  output_fields :: "activity_tool_field list"

record activity_tool_details =
  details_locations :: "activity_tool_location list"
  details_content :: "activity_tool_content list"
  details_input :: "activity_tool_input option"
  details_output :: "activity_tool_output option"

datatype tool_permission_decision = PermissionApproved | PermissionRejected | PermissionCancelled

record tool_permission_outcome =
  outcome_request_id :: string
  outcome_decision :: tool_permission_decision
  outcome_option_id :: "string option"
  outcome_option_label :: "string option"
  outcome_resolved_at :: string

datatype background_command_outcome = BackgroundCompleted | BackgroundFailed | BackgroundStopped

record tool_step =
  tool_call_id :: "string option"
  tool_name :: string
  tool_status :: activity_status
  presentation :: "tool_presentation option"
  tool_description :: "string option"
  input_summary :: "string option"
  output_preview :: "string option"
  detail_artifact_id :: "string option"
  tool_details :: "activity_tool_details option"
  permission_outcomes :: "tool_permission_outcome list"
  background_outcome :: "background_command_outcome option"
  tool_pending :: bool

record subagent_step =
  step_subagent_id :: "string option"
  step_tool_call_id :: "string option"
  step_title :: "string option"
  step_thread_id :: "string option"
  step_raw_path :: "string option"
  step_activity :: "string option"
  step_name :: string
  step_path :: "string list"
  step_status :: activity_status
  step_events :: "subagent_activity list"

datatype activity_step =
    TextStep string "string option"
  | ToolStep tool_step
  | CommandStep string activity_status "int option" "string option"
  | SubagentStep subagent_step

section \<open>Messages\<close>

datatype plan_priority = PlanHigh | PlanMedium | PlanLow

datatype plan_status = PlanPending | PlanInProgress | PlanCompleted

record agent_plan_entry =
  plan_content :: string
  plan_priority_of :: plan_priority
  plan_status_of :: plan_status

datatype agent_message_role = AgentRole | ThoughtRole

record image_part =
  image_media_type :: string
  image_data :: string
  image_id :: "string option"
  image_size_bytes :: "nat option"
  image_width :: "nat option"
  image_height :: "nat option"
  image_uri :: "string option"

datatype agent_message_part =
    TextPart string
  | ImagePart image_part
  | ResourcePart string "string option" "string option" "string option" "string option" "nat option" "string option"
  | UnsupportedPart string "string option" "string option"

datatype question_state = QuestionPending | QuestionResolved | QuestionCancelled | QuestionError

datatype question_action = QuestionSubmit | QuestionCancel

record attachment =
  attachment_kind :: string
  attachment_label :: string
  attachment_path :: "string option"
  attachment_payload :: "json option"

datatype interruption_reason = ReasonCanceled | ReasonFailed | ReasonBackendUnavailable

datatype compaction_status =
    CompactionInProgress | CompactionCompleted | CompactionFailed | CompactionCancelled | CompactionUnknown

record question_message =
  question_request_id :: string
  question_text :: string
  question_fields :: "question_field list"
  question_state_of :: question_state
  question_action_of :: "question_action option"
  question_content :: "(string \<times> question_value) list option"
  question_error :: "string option"
  resolution_message :: "string option"

text \<open>
  Every variant starts with its \<open>id\<close> and ends with its \<open>created_at\<close>, the two fields all of them
  share.
\<close>

datatype normalized_message =
    User string string "attachment list" string
  | AgentMessage string agent_message_role "agent_message_part list" string
  | Activity string string activity_status bool "activity_step list" string
  | CompletedPlan string "agent_plan_entry list" string
  | ClosedPlan string "agent_plan_entry list" string
  | Question string question_message string
  | Interruption string interruption_reason string bool string
  | Compaction string compaction_status "string option" "string option" string

record observed_span =
  started_at :: string
  ended_at :: "string option"

record chat_timing =
  sent_at :: "string option"
  run_span :: "observed_span option"
  closed_turn :: "observed_span option"

definition timing_is_empty :: "chat_timing \<Rightarrow> bool" where
  "timing_is_empty t \<longleftrightarrow> sent_at t = None \<and> run_span t = None \<and> closed_turn t = None"

definition no_timing :: chat_timing where
  "no_timing = \<lparr>sent_at = None, run_span = None, closed_turn = None\<rparr>"

record chat_message =
  cursor :: string
  chat_identity :: string
  chat_message_type :: string
  chat_message_id :: string
  chat_message_of :: normalized_message
  timing :: chat_timing

record message_page =
  page_task_id :: string
  page_items :: "chat_message list"
  has_before :: bool
  total_count :: nat
  page_version :: nat
  start_cursor :: "string option"
  end_cursor :: "string option"

fun message_type :: "normalized_message \<Rightarrow> string" where
  "message_type (User _ _ _ _) = ''user''"
| "message_type (AgentMessage _ AgentRole _ _) = ''agent_message''"
| "message_type (AgentMessage _ ThoughtRole _ _) = ''thought_message''"
| "message_type (Activity _ _ _ _ _ _) = ''activity''"
| "message_type (CompletedPlan _ _ _) = ''completed_plan''"
| "message_type (ClosedPlan _ _ _) = ''closed_plan''"
| "message_type (Question _ _ _) = ''question''"
| "message_type (Interruption _ _ _ _ _) = ''interruption''"
| "message_type (Compaction _ _ _ _ _) = ''compaction''"

fun message_identity :: "normalized_message \<Rightarrow> string" where
  "message_identity (User i _ _ _) = i"
| "message_identity (AgentMessage i _ _ _) = i"
| "message_identity (Activity i _ _ _ _ _) = i"
| "message_identity (CompletedPlan i _ _) = i"
| "message_identity (ClosedPlan i _ _) = i"
| "message_identity (Question i _ _) = i"
| "message_identity (Interruption i _ _ _ _) = i"
| "message_identity (Compaction i _ _ _ _) = i"

fun is_in_progress :: "normalized_message \<Rightarrow> bool" where
  "is_in_progress (Activity _ _ st _ _ _) = (st = ActivityRunning)"
| "is_in_progress (Compaction _ st _ _ _) = (st = CompactionInProgress)"
| "is_in_progress _ = False"

fun is_pending_tool :: "activity_step \<Rightarrow> bool" where
  "is_pending_tool (ToolStep t) = tool_pending t"
| "is_pending_tool _ = False"

fun is_awaiting_start :: "normalized_message \<Rightarrow> bool" where
  "is_awaiting_start (Activity _ _ st _ steps _) =
     (st = ActivityRunning \<and> steps \<noteq> [] \<and> list_all is_pending_tool steps)"
| "is_awaiting_start _ = False"

fun message_created_at :: "normalized_message \<Rightarrow> string" where
  "message_created_at (User _ _ _ t) = t"
| "message_created_at (AgentMessage _ _ _ t) = t"
| "message_created_at (Activity _ _ _ _ _ t) = t"
| "message_created_at (CompletedPlan _ _ t) = t"
| "message_created_at (ClosedPlan _ _ t) = t"
| "message_created_at (Question _ _ t) = t"
| "message_created_at (Interruption _ _ _ _ t) = t"
| "message_created_at (Compaction _ _ _ _ t) = t"

fun with_created_at :: "string \<Rightarrow> normalized_message \<Rightarrow> normalized_message" where
  "with_created_at t (User i x a _) = User i x a t"
| "with_created_at t (AgentMessage i r p _) = AgentMessage i r p t"
| "with_created_at t (Activity i x s c st _) = Activity i x s c st t"
| "with_created_at t (CompletedPlan i es _) = CompletedPlan i es t"
| "with_created_at t (ClosedPlan i es _) = ClosedPlan i es t"
| "with_created_at t (Question i q _) = Question i q t"
| "with_created_at t (Interruption i r m rec _) = Interruption i r m rec t"
| "with_created_at t (Compaction i s su e _) = Compaction i s su e t"

definition preserve_created_at_from :: "normalized_message \<Rightarrow> normalized_message \<Rightarrow> normalized_message" where
  "preserve_created_at_from existing m = with_created_at (message_created_at existing) m"

text \<open>The first existing Tool step with the same \<open>tool_call_id\<close>.\<close>

fun find_tool :: "string option \<Rightarrow> activity_step list \<Rightarrow> tool_step option" where
  "find_tool i [] = None"
| "find_tool i (ToolStep t # steps) = (if tool_call_id t = i then Some t else find_tool i steps)"
| "find_tool i (_ # steps) = find_tool i steps"

fun preserve_step :: "activity_step list \<Rightarrow> activity_step \<Rightarrow> activity_step" where
  "preserve_step existing (ToolStep t) =
     (case find_tool (tool_call_id t) existing of
        None \<Rightarrow> ToolStep t
      | Some e \<Rightarrow> ToolStep (t\<lparr>permission_outcomes := permission_outcomes e,
                             background_outcome := background_outcome e\<rparr>))"
| "preserve_step existing s = s"

fun preserve_tool_permission_outcomes_from :: "normalized_message \<Rightarrow> normalized_message \<Rightarrow> normalized_message" where
  "preserve_tool_permission_outcomes_from (Activity _ _ _ _ existing _) (Activity i x st c steps t) =
     Activity i x st c (map (preserve_step existing) steps) t"
| "preserve_tool_permission_outcomes_from _ m = m"

lemma with_created_at_keeps [simp]:
  "message_identity (with_created_at t m) = message_identity m"
  "message_type (with_created_at t m) = message_type m"
  "message_created_at (with_created_at t m) = t"
  by (cases "(t, m)" rule: with_created_at.cases; simp, (metis (full_types) agent_message_role.exhaust message_type.simps(2,3))?)+

lemma preserve_tool_keeps [simp]:
  "message_identity (preserve_tool_permission_outcomes_from e m) = message_identity m"
  "message_created_at (preserve_tool_permission_outcomes_from e m) = message_created_at m"
  by (cases "(e, m)" rule: preserve_tool_permission_outcomes_from.cases; simp)+

end
