(* ===== verification/Task_Record.thy ===== *)
theory Task_Record
  imports Task_Title Time_Stamps Chat_Model Runtime_Error
begin

text \<open>
  The durable records of a Task (\<open>src/openaide-rs/app-server/src/storage/records.rs\<close>,
  \<open>config_state.rs\<close>, \<open>native_session_sync.rs\<close>, \<open>composer_history.rs\<close>, \<open>cursor.rs\<close>, \<open>id.rs\<close>) and the
  data they hold (\<open>protocol/model/task.rs\<close>, \<open>protocol/model/agent.rs\<close>). A method on \<open>&mut self\<close> that
  returns whether it changed anything returns that flag with the record.
\<close>

section \<open>Agent data\<close>

datatype config_options_status = OptionsReady | OptionsEmpty

datatype config_option_category = ModeCategory | ModelCategory | ThoughtLevelCategory | OtherCategory

datatype config_option_kind = SelectOption | BooleanOption

datatype config_value = IdValue string | BoolValue bool

fun as_id :: "config_value \<Rightarrow> string option" where
  "as_id (IdValue v) = Some v"
| "as_id (BoolValue _) = None"

fun as_bool :: "config_value \<Rightarrow> bool option" where
  "as_bool (IdValue _) = None"
| "as_bool (BoolValue b) = Some b"

record config_option_value =
  value_id :: string
  value_label :: string
  value_description :: "string option"
  group_id :: "string option"
  group_label :: "string option"

record config_option =
  config_id :: string
  config_label :: string
  config_description :: "string option"
  config_category :: "config_option_category option"
  config_kind :: config_option_kind
  current_value :: config_value
  config_values :: "config_option_value list"

record config_options_catalog =
  catalog_agent_id :: string
  catalog_status :: config_options_status
  catalog_options :: "config_option list"

definition empty_catalog :: "string \<Rightarrow> config_options_catalog" where
  "empty_catalog agent = \<lparr>catalog_agent_id = agent, catalog_status = OptionsEmpty, catalog_options = []\<rparr>"

definition catalog_model_id :: "config_options_catalog \<Rightarrow> string option" where
  "catalog_model_id c =
     Option.bind (find (\<lambda>opt. config_category opt = Some ModelCategory) (catalog_options c)) (as_id \<circ> current_value)"

record agent_command =
  command_name :: string
  command_description :: string
  input_hint :: "string option"

text \<open>\<open>AgentCommandsCatalog\<close> is its list of commands, \<open>AgentPlan\<close> its list of entries.\<close>

type_synonym agent_commands_catalog = "agent_command list"
type_synonym agent_plan = "agent_plan_entry list"

record agent_config_preference =
  preference_id :: string
  preference_value :: config_value

text \<open>\<open>AgentConfigPreference::all_from\<close>.\<close>

definition preferences_from :: "config_options_catalog \<Rightarrow> agent_config_preference list" where
  "preferences_from c =
     map (\<lambda>opt. \<lparr>preference_id = config_id opt, preference_value = current_value opt\<rparr>) (catalog_options c)"

datatype preferences_state = PreferencesApplying | PreferencesFailed | PreferencesSettled

record preferences_snapshot =
  preferences_state_of :: preferences_state
  skipped_count :: nat

section \<open>Task state\<close>

datatype task_status =
    TaskStarting | TaskActive | TaskStopping | TaskInactive | TaskFailed | TaskCompleted | TaskWaiting

datatype isolation_kind = IsolationLocal | IsolationGitWorktree | IsolationDocker

record background_command =
  command_id :: string
  background_description :: string
  kind_label :: "string option"
  background_started_at :: string
  background_paused :: bool
  can_stop :: bool
  stop_failed :: bool
  background_tool_call_id :: "string option"

record task_background_work =
  held :: bool
  commands :: "background_command list"

record usage_cost =
  cost_amount :: string
  cost_currency :: string

record task_turn_usage =
  total_tokens :: nat
  input_tokens :: nat
  output_tokens :: nat
  reasoning_tokens :: "nat option"
  cached_read_tokens :: "nat option"
  cached_write_tokens :: "nat option"

record task_context_usage =
  used_tokens :: nat
  capacity_tokens :: nat
  usage_cost_of :: "usage_cost option"
  usage_last_turn :: "task_turn_usage option"

datatype preparation_blocker = BlockedAuthRequired | BlockedSetupRequired | BlockedNodeJsRequired

datatype task_preparation =
    PreparationNeeded
  | Preparing
  | PreparationReady
  | PreparationBlocked preparation_blocker string
  | PreparationFailed string bool

datatype catalog_freshness = CatalogFresh | CatalogRecovering | CatalogStale

record data_freshness =
  config_freshness :: catalog_freshness
  commands_freshness :: catalog_freshness

definition is_fresh :: "data_freshness \<Rightarrow> bool" where
  "is_fresh f \<longleftrightarrow> config_freshness f = CatalogFresh \<and> commands_freshness f = CatalogFresh"

definition is_recovering :: "data_freshness \<Rightarrow> bool" where
  "is_recovering f \<longleftrightarrow> config_freshness f = CatalogRecovering \<or> commands_freshness f = CatalogRecovering"

definition is_fully_recovering :: "data_freshness \<Rightarrow> bool" where
  "is_fully_recovering f \<longleftrightarrow> config_freshness f = CatalogRecovering \<and> commands_freshness f = CatalogRecovering"

definition is_stale :: "data_freshness \<Rightarrow> bool" where
  "is_stale f \<longleftrightarrow> config_freshness f = CatalogStale \<and> commands_freshness f = CatalogStale"

definition mark_recovering :: "data_freshness \<Rightarrow> bool \<times> data_freshness" where
  "mark_recovering f =
     (if is_fully_recovering f then (False, f)
      else (True, f\<lparr>config_freshness := CatalogRecovering, commands_freshness := CatalogRecovering\<rparr>))"

definition mark_stale :: "data_freshness \<Rightarrow> bool \<times> data_freshness" where
  "mark_stale f =
     (if is_stale f then (False, f)
      else (True, f\<lparr>config_freshness := CatalogStale, commands_freshness := CatalogStale\<rparr>))"

definition mark_config_fresh :: "data_freshness \<Rightarrow> data_freshness" where
  "mark_config_fresh f = f\<lparr>config_freshness := CatalogFresh\<rparr>"

definition mark_commands_fresh :: "data_freshness \<Rightarrow> data_freshness" where
  "mark_commands_fresh f = f\<lparr>commands_freshness := CatalogFresh\<rparr>"

datatype task_lifecycle = LifecyclePrepared "string option" | LifecycleOpen | LifecycleArchived

fun is_open :: "task_lifecycle \<Rightarrow> bool" where
  "is_open LifecycleOpen = True"
| "is_open _ = False"

fun is_archived :: "task_lifecycle \<Rightarrow> bool" where
  "is_archived LifecycleArchived = True"
| "is_archived _ = False"

definition is_listed :: "task_lifecycle \<Rightarrow> bool" where
  "is_listed l \<longleftrightarrow> l = LifecycleOpen \<or> l = LifecycleArchived"

text \<open>
  The lifecycle read from a record: records written before archiving became a lifecycle carry a
  separate flag.
\<close>

definition stored_lifecycle :: "bool \<Rightarrow> task_lifecycle \<Rightarrow> task_lifecycle" where
  "stored_lifecycle archived l = (if archived \<and> l = LifecycleOpen then LifecycleArchived else l)"

datatype attention_reason =
    AttentionFinished | AttentionNeedsPermission | AttentionNeedsAnswer | AttentionStopped | AttentionFailed

record task_attention_event =
  attention_event_id :: string
  attention_reason_of :: attention_reason
  occurred_at :: string

datatype permission_policy = AskEveryTime | AutoApprove

record queued_message =
  queued_message_id :: string
  not_before :: "string option"
  queued_text :: string
  queued_created_at :: string
  chat_attachments :: "attachment list"
  agent_attachments :: "attachment list"

datatype queue_pause = PauseRestarted | PauseUnsuccessfulTurn | PauseAttachmentUnavailable

record message_queue =
  queue_revision :: nat
  queue_pause_of :: "queue_pause option"
  queue_items :: "queued_message list"

definition queue_is_initial :: "message_queue \<Rightarrow> bool" where
  "queue_is_initial q \<longleftrightarrow> queue_revision q = 0 \<and> queue_pause_of q = None \<and> queue_items q = []"

record pending_config_change =
  pending_sequence :: nat
  client_mutation_id :: string
  pending_config_id :: string
  requested_value :: config_value

record config_mutation_state =
  mutation_sequence :: nat
  mutation_pending :: "pending_config_change option"
  mutation_preferences :: "preferences_snapshot option"
  mutation_chosen :: "agent_config_preference list"

definition mutation_is_empty :: "config_mutation_state \<Rightarrow> bool" where
  "mutation_is_empty m \<longleftrightarrow>
     mutation_sequence m = 0 \<and> mutation_pending m = None \<and> mutation_preferences m = None \<and> mutation_chosen m = []"

section \<open>Composer history\<close>

record history_entry =
  entry_id :: string
  entry_project_id :: string
  entry_text :: string
  accepted_at :: string

definition HISTORY_LIMIT :: nat where
  "HISTORY_LIMIT = 50"

text \<open>\<open>position\<close> and \<open>remove\<close>: the first entry with the text, and the list without it.\<close>

fun take_entry :: "string \<Rightarrow> history_entry list \<Rightarrow> (history_entry \<times> history_entry list) option" where
  "take_entry txt [] = None"
| "take_entry txt (e # es) =
     (if entry_text e = txt then Some (e, es)
      else map_option (\<lambda>(x, xs). (x, e # xs)) (take_entry txt es))"

definition record_history :: "history_entry \<Rightarrow> history_entry list \<Rightarrow> history_entry list" where
  "record_history incoming es =
     (case take_entry (entry_text incoming) es of
        Some (existing, rest) \<Rightarrow>
          existing\<lparr>entry_project_id := entry_project_id incoming, accepted_at := accepted_at incoming\<rparr> # rest
      | None \<Rightarrow> take HISTORY_LIMIT (incoming # es))"

section \<open>The Task record\<close>

record task_record =
  task_id :: string
  task_title_of :: task_title_state
  task_status_of :: task_status
  task_version :: nat
  message_history_version :: nat
  unread :: bool
  pinned :: bool
  attention :: "task_attention_event option"
  task_created_at :: string
  updated_at :: string
  last_activity :: string
  permission_policy_of :: permission_policy
  composer_history :: "history_entry list"
  message_queue_of :: message_queue
  agent_id :: string
  agent_name :: string
  isolation :: isolation_kind
  workspace_root :: string
  project_root :: "string option"
  worktree_id :: "string option"
  lifecycle :: task_lifecycle
  agent_session_id :: "string option"
  active_turn_id :: "string option"
  active_turn_started_at :: "string option"
  background_work :: "task_background_work option"
  tombstoned :: bool
  task_revision :: nat
  config_options_catalog_of :: "config_options_catalog option"
  native_session_data_freshness :: data_freshness
  native_session_reload_requirement :: "string option"
  native_session_own_activity_at :: "string option"
  config_mutation :: config_mutation_state
  agent_commands_catalog_of :: "agent_commands_catalog option"
  context_usage :: "task_context_usage option"
  current_plan :: "agent_plan option"
  completed_plan_message_id :: "string option"
  last_turn_usage :: "task_turn_usage option"
  model_id :: "string option"
  supports_image_input :: bool
  preparation :: task_preparation

definition mark_native_session_data_recovering :: "task_record \<Rightarrow> bool \<times> task_record" where
  "mark_native_session_data_recovering t =
     (let (changed, f) = mark_recovering (native_session_data_freshness t)
      in (changed, t\<lparr>native_session_data_freshness := f\<rparr>))"

definition mark_native_session_data_stale :: "task_record \<Rightarrow> bool \<times> task_record" where
  "mark_native_session_data_stale t =
     (let (changed, f) = mark_stale (native_session_data_freshness t)
      in (changed, t\<lparr>native_session_data_freshness := f\<rparr>))"

definition clear_process_local_agent_state :: "task_record \<Rightarrow> bool \<times> task_record" where
  "clear_process_local_agent_state t =
     (let became_stale = (config_options_catalog_of t \<noteq> None \<or> agent_commands_catalog_of t \<noteq> None)
                         \<and> \<not> is_stale (native_session_data_freshness t);
          had_catalog = (config_options_catalog_of t \<noteq> None);
          had_preferences = (mutation_preferences (config_mutation t) \<noteq> None);
          had_pending_mutation = (mutation_pending (config_mutation t) \<noteq> None);
          had_context_usage = (context_usage t \<noteq> None);
          had_turn_usage = (last_turn_usage t \<noteq> None);
          t1 = t\<lparr>config_options_catalog_of := None,
                config_mutation := (config_mutation t)\<lparr>mutation_preferences := None, mutation_pending := None\<rparr>,
                context_usage := None,
                last_turn_usage := None\<rparr>;
          t2 = (if became_stale then snd (mark_native_session_data_stale t1) else t1)
      in (became_stale \<or> had_catalog \<or> had_preferences \<or> had_pending_mutation \<or> had_context_usage \<or> had_turn_usage,
          t2))"

definition live_background_work :: "task_record \<Rightarrow> task_background_work option" where
  "live_background_work t =
     (if task_status_of t = TaskActive \<and> active_turn_id t \<noteq> None then background_work t else None)"

definition background_only :: "task_record \<Rightarrow> bool" where
  "background_only t = (case live_background_work t of None \<Rightarrow> False | Some w \<Rightarrow> held w)"

record task_summary =
  summary_task_id :: string
  summary_title :: "task_title option"
  summary_status :: task_status
  summary_task_version :: nat
  summary_message_history_version :: nat
  summary_unread :: bool
  summary_pinned :: bool
  summary_attention :: "task_attention_event option"
  summary_created_at :: string
  summary_updated_at :: string
  summary_last_activity :: string
  summary_agent_id :: string
  summary_agent_name :: string
  summary_isolation :: isolation_kind
  summary_workspace_root :: string
  summary_project_root :: "string option"
  summary_worktree_id :: "string option"
  summary_background_work :: "task_background_work option"

definition summary :: "task_record \<Rightarrow> task_summary" where
  "summary t =
     \<lparr>summary_task_id = task_id t, summary_title = effective (task_title_of t), summary_status = task_status_of t,
      summary_task_version = task_version t, summary_message_history_version = message_history_version t,
      summary_unread = unread t, summary_pinned = pinned t, summary_attention = attention t,
      summary_created_at = task_created_at t, summary_updated_at = updated_at t,
      summary_last_activity = last_activity t, summary_agent_id = agent_id t, summary_agent_name = agent_name t,
      summary_isolation = isolation t, summary_workspace_root = workspace_root t,
      summary_project_root = project_root t, summary_worktree_id = worktree_id t,
      summary_background_work = live_background_work t\<rparr>"

section \<open>Evidence of external changes\<close>

definition mark_native_session_reload_required :: "string \<Rightarrow> task_record \<Rightarrow> bool \<times> task_record" where
  "mark_native_session_reload_required observed t =
     (case activity_millis observed of
        None \<Rightarrow> (False, t)
      | Some observed_time \<Rightarrow>
          (case Option.bind (native_session_reload_requirement t) activity_millis of
             Some current_time \<Rightarrow>
               if observed_time \<le> current_time then (False, t)
               else (True, t\<lparr>native_session_reload_requirement := Some observed\<rparr>)
           | None \<Rightarrow> (True, t\<lparr>native_session_reload_requirement := Some observed\<rparr>)))"

definition clear_native_session_reload_requirement_through :: "string \<Rightarrow> task_record \<Rightarrow> bool \<times> task_record" where
  "clear_native_session_reload_requirement_through captured t =
     (case activity_millis captured of
        None \<Rightarrow> (False, t)
      | Some captured_time \<Rightarrow>
          (case Option.bind (native_session_reload_requirement t) activity_millis of
             Some current_time \<Rightarrow>
               if current_time \<le> captured_time then (True, t\<lparr>native_session_reload_requirement := None\<rparr>)
               else (False, t)
           | None \<Rightarrow> (False, t)))"

definition record_own_native_session_activity :: "string \<Rightarrow> task_record \<Rightarrow> bool \<times> task_record" where
  "record_own_native_session_activity at t =
     (case activity_millis at of
        None \<Rightarrow> (False, t)
      | Some time \<Rightarrow>
          (case Option.bind (native_session_own_activity_at t) activity_millis of
             Some current \<Rightarrow>
               if time \<le> current then (False, t)
               else (True, t\<lparr>native_session_own_activity_at := Some at\<rparr>)
           | None \<Rightarrow> (True, t\<lparr>native_session_own_activity_at := Some at\<rparr>)))"

section \<open>Stored Chat\<close>

record stored_message =
  message_sequence :: nat
  chat :: chat_message

record message_meta =
  meta_task_id :: string
  meta_version :: nat
  message_count :: nat
  local_history_updated_at :: string
  first_cursor :: "string option"
  last_cursor :: "string option"

definition cursor_from_sequence :: "nat \<Rightarrow> string" where
  "cursor_from_sequence n = ''m:'' @ dec_string n"

definition cursor_to_sequence :: "string \<Rightarrow> runtime_error + nat" where
  "cursor_to_sequence c =
     and_then (ok_or (strip_prefix ''m:'' c) (InvalidParams ''before_cursor''))
       (\<lambda>digits. ok_or (parse_unsigned two64 digits) (InvalidParams ''before_cursor''))"

definition id_byte :: "char \<Rightarrow> bool" where
  "id_byte c \<longleftrightarrow> is_ascii_alphanumeric c \<or> c = CHR ''_'' \<or> c = CHR ''-''"

definition validate_task_id :: "string \<Rightarrow> runtime_error + unit" where
  "validate_task_id i =
     (if i \<noteq> [] \<and> length i \<le> 96 \<and> list_all id_byte i then Inr () else Inl (InvalidParams ''task_id''))"

end
