(* ===== verification/Task_Record_Facts.thy ===== *)
theory Task_Record_Facts
  imports Task_Record
begin

text \<open>
  What the records of a Task guarantee: the composer history is a bounded list of distinct texts with
  the newest first, cursors of Chat pages name their sequence, the hint that an Agent's session changed
  elsewhere is the newest observation no replay has covered, and a new process never shows the Agent
  data of an earlier one as live.
\<close>

section \<open>Composer history\<close>

definition history_ok :: "history_entry list \<Rightarrow> bool" where
  "history_ok es \<longleftrightarrow> length es \<le> HISTORY_LIMIT \<and> distinct (map entry_text es)"

lemma take_entry_None: "take_entry txt es = None \<longleftrightarrow> txt \<notin> entry_text ` set es"
  by (induction es) auto

lemma take_entry_Some:
  "take_entry txt es = Some (e, rest) \<Longrightarrow>
     \<exists>xs ys. es = xs @ e # ys \<and> rest = xs @ ys \<and> entry_text e = txt \<and> txt \<notin> entry_text ` set xs"
proof (induction es arbitrary: e rest)
  case (Cons x es)
  show ?case
  proof (cases "entry_text x = txt")
    case True
    with Cons.prems show ?thesis by (intro exI [of _ "[]"] exI [of _ es]) auto
  next
    case False
    with Cons.prems obtain r where r: "take_entry txt es = Some (e, r)" "rest = x # r" by auto
    from Cons.IH [OF r(1)] obtain xs ys where "es = xs @ e # ys" "r = xs @ ys" "entry_text e = txt"
      "txt \<notin> entry_text ` set xs" by blast
    with r(2) False show ?thesis by (intro exI [of _ "x # xs"] exI [of _ ys]) auto
  qed
qed simp

text \<open>The texts after recording one: it moves to the front, and only an overflow drops the oldest.\<close>

lemma record_history_texts:
  assumes "history_ok es"
  shows "map entry_text (record_history e es)
         = take HISTORY_LIMIT (entry_text e # filter (\<lambda>txt. txt \<noteq> entry_text e) (map entry_text es))"
proof (cases "take_entry (entry_text e) es")
  case None
  then have "entry_text e \<notin> set (map entry_text es)" by (simp add: take_entry_None)
  then have "filter (\<lambda>txt. txt \<noteq> entry_text e) (map entry_text es) = map entry_text es"
    by (intro filter_True) metis
  with None show ?thesis by (simp add: record_history_def take_map [symmetric] take_Cons' del: take_map)
next
  case (Some p)
  then obtain x rest where p: "take_entry (entry_text e) es = Some (x, rest)" by (cases p) auto
  from take_entry_Some [OF p] obtain xs ys where xy: "es = xs @ x # ys" "rest = xs @ ys"
    "entry_text x = entry_text e" by blast
  with assms have "entry_text e \<notin> entry_text ` set xs" "entry_text e \<notin> entry_text ` set ys"
    by (auto simp: history_ok_def)
  then have "filter (\<lambda>txt. txt \<noteq> entry_text e) (map entry_text es) = map entry_text xs @ map entry_text ys"
    using xy by (simp, intro arg_cong2 [where f = append] filter_True; force)
  moreover have "length (map entry_text xs @ map entry_text ys) < HISTORY_LIMIT"
    using assms xy by (simp add: history_ok_def)
  ultimately show ?thesis using p xy by (simp add: record_history_def)
qed

lemma record_history_ok: "history_ok es \<Longrightarrow> history_ok (record_history e es)"
proof -
  assume ok: "history_ok es"
  have "distinct (entry_text e # filter (\<lambda>txt. txt \<noteq> entry_text e) (map entry_text es))"
    using ok by (simp add: history_ok_def)
  then have "distinct (map entry_text (record_history e es))"
    using record_history_texts [OF ok] distinct_take by metis
  moreover have "length (record_history e es) \<le> HISTORY_LIMIT"
    using record_history_texts [OF ok] by (metis length_map length_take min.cobounded2)
  ultimately show ?thesis by (simp add: history_ok_def)
qed

interpretation recall: invariant_machine "\<lambda>es e. record_history e es" history_ok
  by unfold_locales (rule record_history_ok)

lemma empty_history_ok: "history_ok []"
  by (simp add: history_ok_def)

text \<open>
  C29: after any sequence of accepted texts the composer history holds at most fifty entries, no text
  twice, and its order is the order of last acceptance with the newest first: recording a text puts it
  in front of the others, and the oldest entry leaves only when the limit is exceeded.
\<close>

theorem composer_history_is_recent_texts:
  "history_ok (foldl (\<lambda>es e. record_history e es) [] hs)
   \<and> map entry_text (foldl (\<lambda>es e. record_history e es) [] (hs @ [e]))
     = take HISTORY_LIMIT (entry_text e #
         filter (\<lambda>txt. txt \<noteq> entry_text e) (map entry_text (foldl (\<lambda>es e. record_history e es) [] hs)))"
  using recall.run_keeps [OF empty_history_ok] record_history_texts by simp

section \<open>Cursors\<close>

text \<open>
  C33: the cursor handed out for a message is read back as the sequence of that message, for every 64-bit
  sequence; what does not start with the cursor prefix is an invalid parameter.
\<close>

theorem cursor_names_sequence:
  assumes "n < two64"
  shows "cursor_to_sequence (cursor_from_sequence n) = Inr n
    \<and> (take 2 c \<noteq> ''m:'' \<longrightarrow> cursor_to_sequence c = Inl (InvalidParams ''before_cursor''))"
proof -
  have "cursor_to_sequence (cursor_from_sequence n) = Inr n"
    using assms parse_unsigned_dec_string [of n two64]
    unfolding cursor_to_sequence_def cursor_from_sequence_def strip_prefix_append by simp
  moreover have "strip_prefix ''m:'' c = None" if "take 2 c \<noteq> ''m:''"
    using that by (auto simp: strip_prefix_def numeral_2_eq_2)
  ultimately show ?thesis by (auto simp: cursor_to_sequence_def ok_or_def)
qed

theorem cursor_names_sequence_witness:
  "cursor_from_sequence 42 = ''m:42'' \<and> cursor_to_sequence ''m:42'' = Inr 42
   \<and> cursor_to_sequence ''42'' = Inl (InvalidParams ''before_cursor'')"
proof -
  have "cursor_from_sequence 42 = ''m:42''" by code_simp
  moreover have "cursor_to_sequence (cursor_from_sequence 42) = Inr 42"
    "cursor_to_sequence ''42'' = Inl (InvalidParams ''before_cursor'')"
    using cursor_names_sequence [of 42 "''42''"] by simp_all
  ultimately show ?thesis by simp
qed

section \<open>External changes of a native session\<close>

datatype session_evidence = ActivityObserved string | ReplayCovered string

fun evidence_step :: "task_record \<Rightarrow> session_evidence \<Rightarrow> task_record" where
  "evidence_step t (ActivityObserved at) = snd (mark_native_session_reload_required at t)"
| "evidence_step t (ReplayCovered at) = snd (clear_native_session_reload_requirement_through at t)"

text \<open>The specification: the set of moments at which activity was seen that no replay has covered.\<close>

fun uncovered_step :: "int set \<Rightarrow> session_evidence \<Rightarrow> int set" where
  "uncovered_step P (ActivityObserved at) = (case activity_millis at of None \<Rightarrow> P | Some m \<Rightarrow> insert m P)"
| "uncovered_step P (ReplayCovered at) = (case activity_millis at of None \<Rightarrow> P | Some c \<Rightarrow> {m \<in> P. c < m})"

definition shows_newest :: "task_record \<Rightarrow> int set \<Rightarrow> bool" where
  "shows_newest t P \<longleftrightarrow> finite P \<and>
     (if P = {} then native_session_reload_requirement t = None
      else Option.bind (native_session_reload_requirement t) activity_millis = Some (Max P))"

lemma evidence_refines: "shows_newest t P \<Longrightarrow> shows_newest (evidence_step t e) (uncovered_step P e)"
proof (cases e)
  case (ActivityObserved at)
  assume sim: "shows_newest t P"
  show ?thesis
  proof (cases "activity_millis at")
    case (Some m)
    have "Max (insert m P) = (if P = {} \<or> Max P < m then m else Max P)" if "finite P"
      using that by (cases "P = {}") (simp_all add: max_def del: Max_less_iff)
    with Some sim ActivityObserved show ?thesis
      by (cases "P = {}") (simp_all add: shows_newest_def mark_native_session_reload_required_def del: Max_less_iff)
  qed (use sim ActivityObserved in \<open>simp add: shows_newest_def mark_native_session_reload_required_def\<close>)
next
  case (ReplayCovered at)
  assume sim: "shows_newest t P"
  then have fin: "finite P" by (simp add: shows_newest_def)
  show ?thesis
  proof (cases "activity_millis at")
    case (Some c)
    have "{m \<in> P. c < m} = {} \<longleftrightarrow> P = {} \<or> Max P \<le> c"
      using fin by (cases "P = {}") (auto simp: not_less)
    moreover have "Max {m \<in> P. c < m} = Max P" if "P \<noteq> {}" "c < Max P"
      using fin that by (intro Max_eqI) auto
    ultimately show ?thesis
      using sim fin Some ReplayCovered
      by (cases "P = {}"; cases "Max P \<le> c")
        (simp_all add: shows_newest_def clear_native_session_reload_requirement_through_def del: Max_le_iff, blast?)
  qed (use sim ReplayCovered in \<open>simp add: shows_newest_def clear_native_session_reload_requirement_through_def\<close>)
qed

lemma evidence_run_refines:
  "shows_newest t P \<Longrightarrow> shows_newest (foldl evidence_step t es) (foldl uncovered_step P es)"
  by (induction es arbitrary: t P) (simp_all add: evidence_refines)

text \<open>
  C27: the reload requirement of a Task is exactly the newest activity observed on its native session
  that no replay has covered since: it appears with the first such observation, repeated or older
  listings do not change it, and a replay clears it only when it covered all of them.
\<close>

theorem reload_hint_is_newest_uncovered:
  "shows_newest (foldl evidence_step (t\<lparr>native_session_reload_requirement := None\<rparr>) es) (foldl uncovered_step {} es)"
  by (intro evidence_run_refines) (simp add: shows_newest_def)

section \<open>A new process\<close>

text \<open>
  A process that starts with stored Tasks shows no option catalog, usage or half-done option change of
  an earlier process and marks remaining commands stale; it keeps the user's chosen options, reports
  whether it changed the record, and doing it twice changes nothing more.
\<close>

lemma restart_forgets_live_agent_state:
  assumes "clear_process_local_agent_state t = (changed, t')"
  shows "config_options_catalog_of t' = None" and "context_usage t' = None" and "last_turn_usage t' = None"
    and "mutation_pending (config_mutation t') = None" and "mutation_preferences (config_mutation t') = None"
    and "mutation_chosen (config_mutation t') = mutation_chosen (config_mutation t)"
    and "agent_commands_catalog_of t' = agent_commands_catalog_of t"
    and "agent_commands_catalog_of t' = None \<or> is_stale (native_session_data_freshness t')"
  using assms
  by (auto simp: clear_process_local_agent_state_def mark_native_session_data_stale_def mark_stale_def is_stale_def
      Let_def split: if_splits)

lemma restart_idempotent:
  assumes "clear_process_local_agent_state t = (changed, t')"
  shows "fst (clear_process_local_agent_state t') = False"
  using restart_forgets_live_agent_state [OF assms]
  by (simp add: clear_process_local_agent_state_def Let_def)

end
