(* ===== verification/Journal_Model.thy ===== *)
theory Journal_Model
  imports Task_Record
begin

text \<open>
  The operations a Task journal records and the writes that carry them
  (\<open>src/openaide-rs/app-server/src/storage/task_journal/model.rs\<close>). The encoded sizes the estimates ask
  \<open>serde_json\<close> for are a record of functions; a Subagent write is a value of a type variable, with
  its estimate. A \<open>usize\<close> sum wraps as in a release build.
\<close>

section \<open>Projections and operations\<close>

record task_projection =
  projected_task :: task_record
  messages :: "stored_message list"
  message_meta_of :: message_meta
  artifact_heads :: "string \<Rightarrow> nat option"

datatype recovered_task = Available task_projection nat | UnavailableTask string

datatype task_operation =
    Create task_projection
  | ReplaceTask task_record
  | ReplaceProjection task_projection
  | AppendText string string string "string option"
  | AppendMessage stored_message
  | UpsertMessage stored_message
  | ReplaceMessages "stored_message list" message_meta
  | ReplaceMessageMeta message_meta
  | CommitArtifact string nat

datatype artifact_operation = ReplaceDetails activity_tool_details | AppendTerminal string string

type_synonym artifact_write = "string \<times> artifact_operation"

record tool_terminal_append =
  append_artifact_id :: string
  append_terminal_id :: string
  append_data :: string

datatype commit_boundary = Stream | TextStream | TextBarrier | Barrier

datatype compaction_mode = CompactionNone | CompactionIfWorthwhile | CompactionForce

record 's task_write =
  write_task_id :: string
  boundary :: commit_boundary
  operations :: "task_operation list"
  artifacts :: "artifact_write list"
  compaction :: compaction_mode
  subagent :: "'s option"

section \<open>Estimates\<close>

text \<open>The lengths of encoded values; \<open>None\<close> is a failed encoding.\<close>

record 's journal_sizes =
  projection_len :: "task_projection \<Rightarrow> nat option"
  message_len :: "stored_message \<Rightarrow> nat option"
  messages_len :: "stored_message list \<Rightarrow> nat option"
  details_len :: "activity_tool_details \<Rightarrow> nat option"
  subagent_len :: "'s \<Rightarrow> nat"

definition len_or_max :: "nat option \<Rightarrow> nat" where
  "len_or_max n = (case n of None \<Rightarrow> u64_max | Some k \<Rightarrow> k)"

fun operation_estimate :: "'s journal_sizes \<Rightarrow> task_operation \<Rightarrow> nat" where
  "operation_estimate sz (Create p) = u64_add (sat_mul64 (length (messages p)) 128) 2048"
| "operation_estimate sz (ReplaceTask _) = 2048"
| "operation_estimate sz (ReplaceProjection p) = len_or_max (projection_len sz p)"
| "operation_estimate sz (AppendText _ txt _ _) = length txt + 96"
| "operation_estimate sz (AppendMessage m) = len_or_max (message_len sz m)"
| "operation_estimate sz (UpsertMessage m) = len_or_max (message_len sz m)"
| "operation_estimate sz (ReplaceMessages ms _) = len_or_max (messages_len sz ms)"
| "operation_estimate sz (ReplaceMessageMeta _) = 256"
| "operation_estimate sz (CommitArtifact i _) = length i + 64"

fun artifact_estimate :: "'s journal_sizes \<Rightarrow> artifact_operation \<Rightarrow> nat" where
  "artifact_estimate sz (ReplaceDetails d) = len_or_max (details_len sz d)"
| "artifact_estimate sz (AppendTerminal i txt) = length i + length txt + 64"

definition artifact_write_estimate :: "'s journal_sizes \<Rightarrow> artifact_write \<Rightarrow> nat" where
  "artifact_write_estimate sz w = u64_add (length (fst w)) (artifact_estimate sz (snd w))"

definition usize_sum :: "nat list \<Rightarrow> nat" where
  "usize_sum xs = fold u64_add xs 0"

definition operation_bytes :: "'s journal_sizes \<Rightarrow> 's task_write \<Rightarrow> nat" where
  "operation_bytes sz w =
     sat_add64 (usize_sum (map (operation_estimate sz) (operations w)))
       (usize_sum (map (artifact_write_estimate sz) (artifacts w)))"

definition estimated_bytes :: "'s journal_sizes \<Rightarrow> 's task_write \<Rightarrow> nat" where
  "estimated_bytes sz w =
     sat_add64 (case subagent w of None \<Rightarrow> 0 | Some s \<Rightarrow> subagent_len sz s) (operation_bytes sz w)"

definition is_subagent :: "'s task_write \<Rightarrow> bool" where
  "is_subagent w = (subagent w \<noteq> None)"

definition operation_count :: "'s task_write \<Rightarrow> nat" where
  "operation_count w = length (operations w) + length (artifacts w) + (if is_subagent w then 1 else 0)"

section \<open>Writes\<close>

definition PER_TASK_STREAM_BYTE_CAPACITY :: nat where
  "PER_TASK_STREAM_BYTE_CAPACITY = 2097152"

definition replacement_writes :: "(string \<times> activity_tool_details) list \<Rightarrow> artifact_write list" where
  "replacement_writes rs = map (\<lambda>(i, d). (i, ReplaceDetails d)) rs"

definition terminal_writes :: "tool_terminal_append list \<Rightarrow> artifact_write list" where
  "terminal_writes as =
     map (\<lambda>a. (append_artifact_id a, AppendTerminal (append_terminal_id a) (append_data a))) as"

definition plain_write ::
  "string \<Rightarrow> commit_boundary \<Rightarrow> task_operation list \<Rightarrow> artifact_write list \<Rightarrow> compaction_mode \<Rightarrow> 's task_write" where
  "plain_write t b ops as mode =
     \<lparr>write_task_id = t, boundary = b, operations = ops, artifacts = as, compaction = mode, subagent = None\<rparr>"

definition barrier_create_with_artifacts ::
  "task_projection \<Rightarrow> (string \<times> activity_tool_details) list \<Rightarrow> 's task_write" where
  "barrier_create_with_artifacts p rs =
     plain_write (task_id (projected_task p)) Barrier [Create p] (replacement_writes rs) CompactionNone"

definition barrier_replace_task :: "task_record \<Rightarrow> 's task_write" where
  "barrier_replace_task t = plain_write (task_id t) Barrier [ReplaceTask t] [] CompactionNone"

definition barrier_replace_projection_with_terminal ::
  "task_projection \<Rightarrow> (string \<times> activity_tool_details) list \<Rightarrow> tool_terminal_append list \<Rightarrow> 's task_write" where
  "barrier_replace_projection_with_terminal p rs ts =
     plain_write (task_id (projected_task p)) Barrier [ReplaceProjection p]
       (replacement_writes rs @ terminal_writes ts) CompactionNone"

definition barrier_operations_with_artifacts ::
  "string \<Rightarrow> task_operation list \<Rightarrow> (string \<times> activity_tool_details) list \<Rightarrow> tool_terminal_append list \<Rightarrow> 's task_write" where
  "barrier_operations_with_artifacts t ops rs ts =
     plain_write t Barrier ops (replacement_writes rs @ terminal_writes ts) CompactionNone"

definition stream_append_terminals :: "string \<Rightarrow> tool_terminal_append list \<Rightarrow> 's task_write" where
  "stream_append_terminals t ts = plain_write t Stream [] (terminal_writes ts) CompactionNone"

definition stream_append_text_with_metadata ::
  "string \<Rightarrow> string \<Rightarrow> string \<Rightarrow> string \<Rightarrow> string option \<Rightarrow> 's task_write" where
  "stream_append_text_with_metadata t ident txt at task_at =
     plain_write t TextStream [AppendText ident txt at task_at] [] CompactionNone"

definition barrier_streamed_text :: "string \<Rightarrow> 's task_write" where
  "barrier_streamed_text t = plain_write t TextBarrier [] [] CompactionNone"

definition stream_append_terminal :: "string \<Rightarrow> string \<Rightarrow> string \<Rightarrow> string \<Rightarrow> 's task_write" where
  "stream_append_terminal t artifact terminal txt =
     plain_write t Stream [] [(artifact, AppendTerminal terminal txt)] CompactionNone"

definition barrier_write :: "string \<Rightarrow> 's task_write" where
  "barrier_write t = plain_write t Barrier [] [] CompactionNone"

definition compaction_barrier :: "string \<Rightarrow> 's task_write" where
  "compaction_barrier t = plain_write t Barrier [] [] CompactionForce"

definition compaction_if_worthwhile_barrier :: "string \<Rightarrow> 's task_write" where
  "compaction_if_worthwhile_barrier t = plain_write t Barrier [] [] CompactionIfWorthwhile"

definition subagent_write :: "string \<Rightarrow> commit_boundary \<Rightarrow> 's \<Rightarrow> 's task_write" where
  "subagent_write t b s = (plain_write t b [] [] CompactionNone)\<lparr>subagent := Some s\<rparr>"

definition stream_subagent :: "'s journal_sizes \<Rightarrow> string \<Rightarrow> 's \<Rightarrow> 's task_write" where
  "stream_subagent sz t s =
     subagent_write t (if PER_TASK_STREAM_BYTE_CAPACITY < subagent_len sz s then Barrier else Stream) s"

definition barrier_subagent :: "string \<Rightarrow> 's \<Rightarrow> 's task_write" where
  "barrier_subagent t s = subagent_write t Barrier s"

section \<open>Committed results\<close>

record committed_chat_text_append =
  committed_message_id :: string
  committed_text :: string

record committed_artifact_change =
  change_artifact_id :: string
  change_artifact_sequence :: nat
  change_terminal_appends :: "(string \<times> string) list"

text \<open>What a write's receipt reports, for the writes that concern the Task itself.\<close>

record committed_task_batch =
  batch_task_id :: string
  batch_journal_sequence :: nat
  batch_task_revision :: nat
  task_snapshot_changed :: bool
  chat_text_appends :: "committed_chat_text_append list"
  streamed_text_write_count :: nat
  replaced_artifact_ids :: "string list"
  artifact_changes :: "committed_artifact_change list"

end
