(* ===== verification/Journal_Projection.thy ===== *)
theory Journal_Projection
  imports Journal_Model
begin

text \<open>
  How journal operations change a Task
  (\<open>src/openaide-rs/app-server/src/storage/task_journal/projection.rs\<close>): the check of a batch against a
  private copy, its application to the recovered state, and the replay of a journal; and what the
  writer does with a batch before it is written: coalescing (\<open>store/reduce.rs\<close>), removal of operations
  without effect (\<open>store/semantic_noops.rs\<close>) and the published text deltas (\<open>store/chat_changes.rs\<close>).
  The state of a call that fails is dropped by every caller, so an error carries no state.
\<close>

section \<open>Chat edits\<close>

definition has_identity :: "string \<Rightarrow> stored_message \<Rightarrow> bool" where
  "has_identity i m \<longleftrightarrow> chat_identity (chat m) = i"

fun ends_with_text :: "agent_message_part list \<Rightarrow> bool" where
  "ends_with_text parts = (case rev parts of TextPart _ # _ \<Rightarrow> True | _ \<Rightarrow> False)"

definition validate_text_target :: "stored_message list \<Rightarrow> string \<Rightarrow> runtime_error + unit" where
  "validate_text_target ms i =
     (case find (has_identity i) ms of
        None \<Rightarrow> Inl (Conflict ''Agent text target is missing'')
      | Some m \<Rightarrow>
          (case chat_message_of (chat m) of
             AgentMessage _ _ parts _ \<Rightarrow>
               if ends_with_text parts then Inr ()
               else Inl (Conflict ''Agent text target has no trailing text part'')
           | _ \<Rightarrow> Inl (Conflict ''Agent text target changed content channel'')))"

fun extend_last_text :: "string \<Rightarrow> agent_message_part list \<Rightarrow> agent_message_part list" where
  "extend_last_text chunk parts =
     (case rev parts of TextPart txt # before \<Rightarrow> rev (TextPart (txt @ chunk) # before) | _ \<Rightarrow> parts)"

fun extend_message :: "string \<Rightarrow> normalized_message \<Rightarrow> normalized_message" where
  "extend_message chunk (AgentMessage i r parts t) = AgentMessage i r (extend_last_text chunk parts) t"
| "extend_message chunk m = m"

definition extend_stored :: "string \<Rightarrow> stored_message \<Rightarrow> stored_message" where
  "extend_stored chunk m = m\<lparr>chat := (chat m)\<lparr>chat_message_of := extend_message chunk (chat_message_of (chat m))\<rparr>\<rparr>"

text \<open>\<open>iter_mut().find(p)\<close> and an update of what it finds.\<close>

fun update_first :: "('a \<Rightarrow> bool) \<Rightarrow> ('a \<Rightarrow> 'a) \<Rightarrow> 'a list \<Rightarrow> 'a list" where
  "update_first p f [] = []"
| "update_first p f (x # xs) = (if p x then f x # xs else x # update_first p f xs)"

definition append_text :: "stored_message list \<Rightarrow> string \<Rightarrow> string \<Rightarrow> runtime_error + stored_message list" where
  "append_text ms i chunk =
     and_then (validate_text_target ms i) (\<lambda>_. Inr (update_first (has_identity i) (extend_stored chunk) ms))"

definition validate_message_meta :: "string \<Rightarrow> message_meta \<Rightarrow> runtime_error + unit" where
  "validate_message_meta t meta =
     (if meta_task_id meta \<noteq> t then Inl (Storage ''Task journal message metadata identity does not match'') else Inr ())"

definition duplicate_identity :: runtime_error where
  "duplicate_identity = Conflict ''Task journal message append duplicates durable identity''"

fun message_set_distinct :: "nat set \<Rightarrow> string set \<Rightarrow> string set \<Rightarrow> stored_message list \<Rightarrow> bool" where
  "message_set_distinct seqs ids mids [] = True"
| "message_set_distinct seqs ids mids (m # ms) =
     (message_sequence m \<notin> seqs \<and> chat_identity (chat m) \<notin> ids \<and> chat_message_id (chat m) \<notin> mids
      \<and> message_set_distinct (insert (message_sequence m) seqs) (insert (chat_identity (chat m)) ids)
          (insert (chat_message_id (chat m)) mids) ms)"

definition validate_message_set :: "stored_message list \<Rightarrow> runtime_error + unit" where
  "validate_message_set ms = (if message_set_distinct {} {} {} ms then Inr () else Inl duplicate_identity)"

definition validate_message_append :: "stored_message list \<Rightarrow> stored_message \<Rightarrow> runtime_error + unit" where
  "validate_message_append ms m =
     (if list_ex (\<lambda>s. message_sequence s = message_sequence m
                      \<or> chat_identity (chat s) = chat_identity (chat m)
                      \<or> chat_message_id (chat s) = chat_message_id (chat m)) ms
      then Inl duplicate_identity else Inr ())"

text \<open>\<open>position\<close>: the messages before and after the first one with the identity.\<close>

fun split_at_identity :: "string \<Rightarrow> stored_message list \<Rightarrow> (stored_message list \<times> stored_message list) option" where
  "split_at_identity i [] = None"
| "split_at_identity i (m # ms) =
     (if has_identity i m then Some ([], ms)
      else map_option (\<lambda>(a, b). (m # a, b)) (split_at_identity i ms))"

definition upsert_message :: "stored_message list \<Rightarrow> stored_message \<Rightarrow> runtime_error + stored_message list" where
  "upsert_message ms m =
     (case split_at_identity (chat_identity (chat m)) ms of
        Some (before, after) \<Rightarrow>
          if list_ex (\<lambda>s. message_sequence s = message_sequence m \<or> chat_message_id (chat s) = chat_message_id (chat m))
               (before @ after)
          then Inl (Conflict ''Task journal message upsert collides with durable identity'')
          else Inr (before @ m # after)
      | None \<Rightarrow> and_then (validate_message_append ms m) (\<lambda>_. Inr (ms @ [m])))"

definition validate_artifact_id :: "string \<Rightarrow> runtime_error + unit" where
  "validate_artifact_id i =
     (if i = [] \<or> \<not> list_all id_byte i then Inl (Storage ''Invalid Tool artifact id'') else Inr ())"

section \<open>Checking a batch\<close>

definition expected_artifact_head :: "task_projection \<Rightarrow> string \<Rightarrow> runtime_error + nat" where
  "expected_artifact_head p i =
     ok_or (checked_add64 (case artifact_heads p i of None \<Rightarrow> 0 | Some n \<Rightarrow> n) 1)
       (Storage ''Tool artifact sequence overflow'')"

fun validate_operation :: "string \<Rightarrow> task_operation \<Rightarrow> task_projection option \<Rightarrow> runtime_error + task_projection option" where
  "validate_operation t (Create created) shadow =
     (if shadow \<noteq> None then Inl (Conflict (''Task already exists: '' @ t))
      else if task_id (projected_task created) \<noteq> t \<or> meta_task_id (message_meta_of created) \<noteq> t
      then Inl (Storage ''Task journal create identities do not match'')
      else Inr (Some created))"
| "validate_operation t (ReplaceTask task) shadow =
     and_then (ok_or shadow (TaskNotFound t)) (\<lambda>p.
       if task_id task \<noteq> t then Inl (Storage ''Task journal replacement identity does not match'')
       else Inr (Some (p\<lparr>projected_task := task\<rparr>)))"
| "validate_operation t (ReplaceProjection replacement) shadow =
     (if shadow = None then Inl (TaskNotFound t)
      else if task_id (projected_task replacement) \<noteq> t \<or> meta_task_id (message_meta_of replacement) \<noteq> t
      then Inl (Storage ''Task journal replacement identities do not match'')
      else Inr (Some replacement))"
| "validate_operation t (AppendText i _ _ _) shadow =
     and_then (ok_or shadow (TaskNotFound t)) (\<lambda>p.
       and_then (validate_text_target (messages p) i) (\<lambda>_. Inr (Some p)))"
| "validate_operation t (AppendMessage m) shadow =
     and_then (ok_or shadow (TaskNotFound t)) (\<lambda>p.
       and_then (validate_message_append (messages p) m) (\<lambda>_. Inr (Some (p\<lparr>messages := messages p @ [m]\<rparr>))))"
| "validate_operation t (UpsertMessage m) shadow =
     and_then (ok_or shadow (TaskNotFound t)) (\<lambda>p.
       and_then (upsert_message (messages p) m) (\<lambda>ms. Inr (Some (p\<lparr>messages := ms\<rparr>))))"
| "validate_operation t (ReplaceMessages ms meta) shadow =
     and_then (ok_or shadow (TaskNotFound t)) (\<lambda>p.
       and_then (validate_message_meta t meta) (\<lambda>_.
         and_then (validate_message_set ms) (\<lambda>_.
           Inr (Some (p\<lparr>messages := ms, message_meta_of := meta\<rparr>)))))"
| "validate_operation t (ReplaceMessageMeta meta) shadow =
     and_then (ok_or shadow (TaskNotFound t)) (\<lambda>p.
       and_then (validate_message_meta t meta) (\<lambda>_. Inr (Some (p\<lparr>message_meta_of := meta\<rparr>))))"
| "validate_operation t (CommitArtifact i n) shadow =
     and_then (ok_or shadow (TaskNotFound t)) (\<lambda>p.
       and_then (validate_artifact_id i) (\<lambda>_.
         and_then (expected_artifact_head p i) (\<lambda>expected.
           if n \<noteq> expected
           then Inl (Storage (''Tool artifact sequence gap: expected '' @ dec_string expected @ '', found '' @ dec_string n))
           else Inr (Some (p\<lparr>artifact_heads := (artifact_heads p)(i := Some n)\<rparr>)))))"

text \<open>A loop whose body may leave with \<open>?\<close>.\<close>

fun try_fold :: "('x \<Rightarrow> 's \<Rightarrow> 'e + 's) \<Rightarrow> 'x list \<Rightarrow> 's \<Rightarrow> 'e + 's" where
  "try_fold f [] s = Inr s"
| "try_fold f (x # xs) s = and_then (f x s) (try_fold f xs)"

definition initial_shadow :: "recovered_task option \<Rightarrow> runtime_error + task_projection option" where
  "initial_shadow current =
     (case current of
        Some (Available p _) \<Rightarrow> Inr (Some p)
      | Some (UnavailableTask e) \<Rightarrow> Inl (Storage e)
      | None \<Rightarrow> Inr None)"

definition validate_operations :: "recovered_task option \<Rightarrow> string \<Rightarrow> task_operation list \<Rightarrow> runtime_error + unit" where
  "validate_operations current t ops =
     and_then (initial_shadow current) (\<lambda>shadow.
       and_then (try_fold (validate_operation t) ops shadow) (\<lambda>_. Inr ()))"

section \<open>Applying a batch\<close>

type_synonym recovered_state = "string \<Rightarrow> recovered_task option"

record apply_state =
  recovered :: recovered_state
  history_changed :: bool
  message_meta_replaced :: bool

definition available_projection :: "string \<Rightarrow> recovered_state \<Rightarrow> runtime_error + task_projection" where
  "available_projection t st =
     (case st t of
        Some (Available p _) \<Rightarrow> Inr p
      | Some (UnavailableTask e) \<Rightarrow> Inl (Storage e)
      | None \<Rightarrow> Inl (TaskNotFound t))"

text \<open>Writing through the reference \<open>available_projection_mut\<close> returns.\<close>

definition put_projection :: "string \<Rightarrow> task_projection \<Rightarrow> recovered_state \<Rightarrow> recovered_state" where
  "put_projection t p st = (case st t of Some (Available _ n) \<Rightarrow> st(t := Some (Available p n)) | _ \<Rightarrow> st)"

definition align_history :: "task_projection \<Rightarrow> task_projection" where
  "align_history p =
     p\<lparr>projected_task := (projected_task p)\<lparr>message_history_version := meta_version (message_meta_of p)\<rparr>\<rparr>"

fun apply_operation :: "string \<Rightarrow> nat \<Rightarrow> task_operation \<Rightarrow> apply_state \<Rightarrow> runtime_error + apply_state" where
  "apply_operation t n (Create p) s = Inr (s\<lparr>recovered := (recovered s)(t := Some (Available p n))\<rparr>)"
| "apply_operation t n (ReplaceTask task) s =
     and_then (available_projection t (recovered s)) (\<lambda>p.
       Inr (s\<lparr>recovered := put_projection t (p\<lparr>projected_task := task\<rparr>) (recovered s)\<rparr>))"
| "apply_operation t n (ReplaceProjection p) s =
     (case recovered s t of
        None \<Rightarrow> Inl (TaskNotFound t)
      | Some (UnavailableTask _) \<Rightarrow> Inl (Storage ''Task is unavailable'')
      | Some (Available _ _) \<Rightarrow> Inr (s\<lparr>recovered := put_projection t p (recovered s)\<rparr>))"
| "apply_operation t n (AppendText i chunk at _) s =
     and_then (available_projection t (recovered s)) (\<lambda>p.
       and_then (append_text (messages p) i chunk) (\<lambda>ms.
         Inr (s\<lparr>recovered := put_projection t
                   (p\<lparr>messages := ms, message_meta_of := (message_meta_of p)\<lparr>local_history_updated_at := at\<rparr>\<rparr>)
                   (recovered s),
                history_changed := True\<rparr>)))"
| "apply_operation t n (AppendMessage m) s =
     and_then (available_projection t (recovered s)) (\<lambda>p.
       and_then (validate_message_append (messages p) m) (\<lambda>_.
         Inr (s\<lparr>recovered := put_projection t (p\<lparr>messages := messages p @ [m]\<rparr>) (recovered s),
                history_changed := True\<rparr>)))"
| "apply_operation t n (UpsertMessage m) s =
     and_then (available_projection t (recovered s)) (\<lambda>p.
       and_then (upsert_message (messages p) m) (\<lambda>ms.
         Inr (s\<lparr>recovered := put_projection t (p\<lparr>messages := ms\<rparr>) (recovered s),
                history_changed := True\<rparr>)))"
| "apply_operation t n (ReplaceMessages ms meta) s =
     and_then (validate_message_set ms) (\<lambda>_.
       and_then (validate_message_meta t meta) (\<lambda>_.
         and_then (available_projection t (recovered s)) (\<lambda>p.
           Inr (s\<lparr>recovered := put_projection t (align_history (p\<lparr>messages := ms, message_meta_of := meta\<rparr>)) (recovered s),
                  message_meta_replaced := True\<rparr>))))"
| "apply_operation t n (ReplaceMessageMeta meta) s =
     and_then (validate_message_meta t meta) (\<lambda>_.
       and_then (available_projection t (recovered s)) (\<lambda>p.
         Inr (s\<lparr>recovered := put_projection t (align_history (p\<lparr>message_meta_of := meta\<rparr>)) (recovered s),
                message_meta_replaced := True\<rparr>)))"
| "apply_operation t n (CommitArtifact i k) s =
     and_then (available_projection t (recovered s)) (\<lambda>p.
       Inr (s\<lparr>recovered := put_projection t (p\<lparr>artifact_heads := (artifact_heads p)(i := Some k)\<rparr>) (recovered s)\<rparr>))"

text \<open>The history version of a batch that changed the history without replacing its metadata.\<close>

definition advance_history :: "string \<Rightarrow> apply_state \<Rightarrow> runtime_error + apply_state" where
  "advance_history t s =
     (if history_changed s \<and> \<not> message_meta_replaced s then
        and_then (available_projection t (recovered s)) (\<lambda>p.
          and_then (ok_or (checked_add64 (meta_version (message_meta_of p)) 1) (Storage ''Message history version overflow'')) (\<lambda>v.
            Inr (s\<lparr>recovered := put_projection t
                      (align_history (p\<lparr>message_meta_of := (message_meta_of p)\<lparr>meta_version := v\<rparr>\<rparr>)) (recovered s)\<rparr>)))
      else Inr s)"

definition stamp_sequence :: "string \<Rightarrow> nat \<Rightarrow> apply_state \<Rightarrow> runtime_error + recovered_state" where
  "stamp_sequence t n s =
     (case recovered s t of
        None \<Rightarrow> Inl (TaskNotFound t)
      | Some (UnavailableTask _) \<Rightarrow> Inl (Storage (''Task is unavailable: '' @ t))
      | Some (Available p _) \<Rightarrow> Inr ((recovered s)(t := Some (Available p n))))"

definition apply_operations :: "string \<Rightarrow> task_operation list \<Rightarrow> nat \<Rightarrow> recovered_state \<Rightarrow> runtime_error + recovered_state" where
  "apply_operations t ops n st =
     and_then (try_fold (apply_operation t n) ops
                 \<lparr>recovered = st, history_changed = False, message_meta_replaced = False\<rparr>)
       (\<lambda>s. and_then (advance_history t s) (stamp_sequence t n))"

section \<open>Replaying a journal\<close>

definition replay_frame :: "string \<Rightarrow> nat \<times> task_operation list \<Rightarrow> recovered_state \<Rightarrow> runtime_error + recovered_state" where
  "replay_frame t f st =
     and_then (validate_operations (st t) t (snd f)) (\<lambda>_. apply_operations t (snd f) (fst f) st)"

text \<open>
  The status file of a Task: absent, or its content, or an error reading it. Only the exact healthy byte
  is loadable.
\<close>

definition is_quarantined :: "(runtime_error + string option) \<Rightarrow> runtime_error + bool" where
  "is_quarantined status =
     and_then status (\<lambda>content. Inr (case content of None \<Rightarrow> False | Some bytes \<Rightarrow> take 1 bytes \<noteq> ''H''))"

text \<open>
  \<open>replay_task\<close>: the Task named by its directory, its status file, and its journal file: absent,
  unreadable, or the frames read from it.
\<close>

definition replay_task ::
  "string \<Rightarrow> (runtime_error + string option) \<Rightarrow> (runtime_error + (nat \<times> task_operation list) list) option
   \<Rightarrow> runtime_error + (string \<times> recovered_task) option" where
  "replay_task t status journal =
     and_then (validate_task_id t) (\<lambda>_. and_then (is_quarantined status) (\<lambda>quarantined.
       if quarantined
       then Inr (Some (t, UnavailableTask ''Task storage is quarantined after a durability failure''))
       else case journal of
         None \<Rightarrow> Inr None
       | Some (Inl e) \<Rightarrow> Inr (Some (t, UnavailableTask (error_message e)))
       | Some (Inr frames) \<Rightarrow>
           (case try_fold (replay_frame t) frames (\<lambda>_. None) of
              Inl e \<Rightarrow> Inr (Some (t, UnavailableTask (error_message e)))
            | Inr st \<Rightarrow> Inr (map_option (\<lambda>task. (t, task)) (st t)))))"

section \<open>Preparing a batch\<close>

text \<open>
  Coalescing of adjacent text deltas for one message. A reference to an artifact never comes from a
  caller: the source panics there, which is \<open>None\<close>.
\<close>

fun reduce_operation :: "task_operation \<Rightarrow> task_operation list \<Rightarrow> task_operation list option" where
  "reduce_operation (AppendText i txt at task_at) acc =
     (case rev acc of
        AppendText i0 txt0 _ task_at0 # before \<Rightarrow>
          if i0 = i
          then Some (rev (AppendText i0 (txt0 @ txt) at (if task_at \<noteq> None then task_at else task_at0) # before))
          else Some (acc @ [AppendText i txt at task_at])
      | _ \<Rightarrow> Some (acc @ [AppendText i txt at task_at]))"
| "reduce_operation (CommitArtifact _ _) acc = None"
| "reduce_operation op acc = Some (acc @ [op])"

fun reduce_operations :: "task_operation list \<Rightarrow> task_operation list \<Rightarrow> task_operation list option" where
  "reduce_operations [] acc = Some acc"
| "reduce_operations (op # ops) acc = Option.bind (reduce_operation op acc) (reduce_operations ops)"

text \<open>The operations of each artifact; empty terminal output is skipped, adjacent output is joined.\<close>

fun push_artifact_operation :: "artifact_operation \<Rightarrow> artifact_operation list \<Rightarrow> artifact_operation list" where
  "push_artifact_operation (ReplaceDetails d) ops = ops @ [ReplaceDetails d]"
| "push_artifact_operation (AppendTerminal i txt) ops =
     (case rev ops of
        AppendTerminal i0 txt0 # before \<Rightarrow>
          if i0 = i then rev (AppendTerminal i0 (txt0 @ txt) # before) else ops @ [AppendTerminal i txt]
      | _ \<Rightarrow> ops @ [AppendTerminal i txt])"

fun is_empty_output :: "artifact_operation \<Rightarrow> bool" where
  "is_empty_output (AppendTerminal _ txt) = (txt = [])"
| "is_empty_output (ReplaceDetails _) = False"

type_synonym artifact_batch = "(string \<times> artifact_operation list) list"

definition reduce_artifact :: "artifact_write \<Rightarrow> artifact_batch \<Rightarrow> artifact_batch" where
  "reduce_artifact w m =
     (if is_empty_output (snd w) then m
      else AList.update (fst w)
             (push_artifact_operation (snd w) (case map_of m (fst w) of None \<Rightarrow> [] | Some ops \<Rightarrow> ops)) m)"

definition reduce_batch :: "'s task_write list \<Rightarrow> (task_operation list \<times> artifact_batch) option" where
  "reduce_batch ws =
     map_option (\<lambda>ops. (ops, fold reduce_artifact (concat (map artifacts ws)) []))
       (reduce_operations (concat (map operations ws)) [])"

text \<open>Two values are equal when their encodings are; an encoding that fails is \<open>None\<close>.\<close>

record journal_encoders =
  encode_task :: "task_record \<Rightarrow> nat list option"
  encode_projection :: "task_projection \<Rightarrow> nat list option"
  encode_meta :: "message_meta \<Rightarrow> nat list option"

fun is_effective :: "journal_encoders \<Rightarrow> task_projection option \<Rightarrow> task_operation \<Rightarrow> bool" where
  "is_effective enc current (AppendText _ txt _ _) = (txt \<noteq> [])"
| "is_effective enc current (ReplaceTask task) =
     (case current of None \<Rightarrow> True | Some p \<Rightarrow> encode_task enc (projected_task p) \<noteq> encode_task enc task)"
| "is_effective enc current (ReplaceProjection q) =
     (case current of None \<Rightarrow> True | Some p \<Rightarrow> encode_projection enc p \<noteq> encode_projection enc q)"
| "is_effective enc current (ReplaceMessageMeta meta) =
     (case current of None \<Rightarrow> True | Some p \<Rightarrow> encode_meta enc (message_meta_of p) \<noteq> encode_meta enc meta)"
| "is_effective enc current _ = True"

definition remove_noops ::
  "journal_encoders \<Rightarrow> recovered_task option \<Rightarrow> task_operation list \<Rightarrow> runtime_error + task_operation list" where
  "remove_noops enc task ops =
     and_then (initial_shadow task) (\<lambda>current. Inr (filter (is_effective enc current) ops))"

definition committed_chat_text_appends ::
  "task_projection \<Rightarrow> task_operation list \<Rightarrow> runtime_error + committed_chat_text_append list" where
  "committed_chat_text_appends p ops =
     try_fold (\<lambda>(i, txt) acc.
         and_then (ok_or (find (has_identity i) (messages p))
                    (Internal ''Committed streamed Chat change is missing from its projection''))
           (\<lambda>m. Inr (acc @ [\<lparr>committed_message_id = chat_message_id (chat m), committed_text = txt\<rparr>])))
       (List.map_filter (\<lambda>op. case op of AppendText i txt _ (Some _) \<Rightarrow> Some (i, txt) | _ \<Rightarrow> None) ops)
       []"

end
