(* ===== verification/Journal_Projection_Facts.thy ===== *)
theory Journal_Projection_Facts
  imports Journal_Projection
begin

text \<open>
  What the operations of a journal do: coalescing a batch changes nothing, a batch that passes the
  check applies, and the messages of a Chat keep distinct sequences, identities and ids.
\<close>

lemma try_fold_append: "try_fold f (xs @ ys) s = and_then (try_fold f xs s) (try_fold f ys)"
proof (induction xs arbitrary: s)
  case (Cons x xs)
  then show ?case by (cases "f x s") simp_all
qed simp

lemma and_then_try_fold [simp]:
  "and_then r (try_fold f (x # xs)) = and_then (and_then r (f x)) (try_fold f xs)"
  "and_then r (try_fold f []) = r"
  by (cases r; simp)+

lemma and_then_assoc: "and_then (and_then r f) g = and_then r (\<lambda>x. and_then (f x) g)"
  by (cases r) simp_all

section \<open>Text deltas\<close>

lemma extend_last_text_twice: "extend_last_text b (extend_last_text a parts) = extend_last_text (a @ b) parts"
  by (auto split: list.splits agent_message_part.splits)

lemma extend_message_twice: "extend_message b (extend_message a m) = extend_message (a @ b) m"
  by (cases m) (simp_all add: extend_last_text_twice del: extend_last_text.simps)

lemma extend_stored_twice: "extend_stored b (extend_stored a m) = extend_stored (a @ b) m"
  by (simp add: extend_stored_def extend_message_twice)

lemma has_identity_extend [simp]: "has_identity i (extend_stored a m) = has_identity i m"
  by (simp add: has_identity_def extend_stored_def)

lemma update_first_twice:
  "(\<And>x. p (f x) = p x) \<Longrightarrow> update_first p g (update_first p f xs) = update_first p (g \<circ> f) xs"
  by (induction xs) simp_all

lemma ends_with_text_extend [simp]: "ends_with_text (extend_last_text a parts) = ends_with_text parts"
  by (auto split: list.splits agent_message_part.splits)

text \<open>The part of a message that the checks of a batch look at.\<close>

fun takes_text :: "normalized_message \<Rightarrow> bool option" where
  "takes_text (AgentMessage _ _ parts _) = Some (ends_with_text parts)"
| "takes_text _ = None"

definition shape :: "stored_message \<Rightarrow> nat \<times> string \<times> string \<times> bool option" where
  "shape m = (message_sequence m, chat_identity (chat m), chat_message_id (chat m), takes_text (chat_message_of (chat m)))"

lemma takes_text_extend [simp]: "takes_text (extend_message a m) = takes_text m"
  by (cases m) (simp_all del: extend_last_text.simps ends_with_text.simps)

lemma shape_extend [simp]: "shape (extend_stored a m) = shape m"
  by (simp add: shape_def extend_stored_def)

lemma shapes_update_first:
  "(\<And>m. shape (f m) = shape m) \<Longrightarrow> map shape (update_first p f ms) = map shape ms"
  by (induction ms) simp_all

lemma text_target_shape:
  "validate_text_target ms i =
     (case find (\<lambda>(_, j, _, _). j = i) (map shape ms) of
        None \<Rightarrow> Inl (Conflict ''Agent text target is missing'')
      | Some (_, _, _, Some True) \<Rightarrow> Inr ()
      | Some (_, _, _, Some False) \<Rightarrow> Inl (Conflict ''Agent text target has no trailing text part'')
      | Some (_, _, _, None) \<Rightarrow> Inl (Conflict ''Agent text target changed content channel''))"
proof (induction ms)
  case (Cons m ms)
  then show ?case
    by (cases "chat_message_of (chat m)")
      (auto simp: validate_text_target_def shape_def has_identity_def simp del: ends_with_text.simps
        split: bool.split)
qed (simp add: validate_text_target_def)

lemma text_target_cong: "map shape ms = map shape ms' \<Longrightarrow> validate_text_target ms i = validate_text_target ms' i"
  by (simp only: text_target_shape)

lemma append_text_twice:
  "and_then (append_text ms i a) (\<lambda>ms. append_text ms i b) = append_text ms i (a @ b)"
proof (cases "validate_text_target ms i")
  case (Inr u)
  have "map shape (update_first (has_identity i) (extend_stored a) ms) = map shape ms"
    by (rule shapes_update_first) simp
  then have "validate_text_target (update_first (has_identity i) (extend_stored a) ms) i = Inr u"
    using Inr text_target_cong by metis
  moreover have "extend_stored b \<circ> extend_stored a = extend_stored (a @ b)"
    by (simp add: fun_eq_iff extend_stored_twice)
  ultimately show ?thesis
    using Inr by (simp add: append_text_def update_first_twice)
qed (simp add: append_text_def)

section \<open>Coalescing\<close>

lemma put_projection_get: "available_projection t st = Inr p \<Longrightarrow> available_projection t (put_projection t q st) = Inr q"
  by (auto simp: available_projection_def put_projection_def split: option.splits recovered_task.splits)

lemma put_projection_twice: "put_projection t q (put_projection t p st) = put_projection t q st"
  by (auto simp: put_projection_def split: option.splits recovered_task.splits)

lemma apply_text_twice:
  "and_then (apply_operation t n (AppendText i a at u) s) (apply_operation t n (AppendText i b at' u'))
   = apply_operation t n (AppendText i (a @ b) at' u'') s"
proof (cases "available_projection t (recovered s)")
  case (Inr p)
  show ?thesis
  proof (cases "append_text (messages p) i a")
    case (Inl e)
    then show ?thesis using Inr append_text_twice [of "messages p" i a b, symmetric] by simp
  next
    case (Inr ms)
    then have "append_text (messages p) i (a @ b) = append_text ms i b"
      using append_text_twice [of "messages p" i a b, symmetric] by simp
    then show ?thesis
      using \<open>available_projection t (recovered s) = Inr p\<close> Inr
      by (simp add: put_projection_get put_projection_twice)
  qed
qed simp

lemma validate_text_twice:
  "and_then (validate_operation t (AppendText i a at u) s) (validate_operation t (AppendText i b at' u'))
   = validate_operation t (AppendText i c at'' u'') s"
proof (cases s)
  case (Some p)
  then show ?thesis by (cases "validate_text_target (messages p) i") simp_all
qed simp

text \<open>Any interpretation of operations that cannot tell two adjacent deltas from one.\<close>

lemma reduce_operation_folds:
  assumes "reduce_operation op acc = Some acc'"
    and join: "\<And>i a at u b at' u' u'' s. and_then (f (AppendText i a at u) s) (f (AppendText i b at' u'))
                 = f (AppendText i (a @ b) at' u'') s"
  shows "try_fold f acc' s = and_then (try_fold f acc s) (f op)"
proof (cases "\<exists>i x0 m0 u0 ys x m u. rev acc = AppendText i x0 m0 u0 # ys \<and> op = AppendText i x m u")
  case True
  then obtain i x0 m0 u0 ys x m u
    where acc: "acc = rev ys @ [AppendText i x0 m0 u0]" and op: "op = AppendText i x m u"
    by (metis rev.simps(2) rev_rev_ident)
  with assms(1) have "acc' = rev ys @ [AppendText i (x0 @ x) m (if u \<noteq> None then u else u0)]" by auto
  then show ?thesis
    using acc op join [of i x0 m0 u0 _ x m u "if u \<noteq> None then u else u0"]
    by (simp only: try_fold_append and_then_try_fold and_then_assoc)
next
  case False
  then have "acc' = acc @ [op]"
    using assms(1) by (cases op) (auto split: list.splits task_operation.splits if_splits)
  then show ?thesis by (simp add: try_fold_append)
qed

lemma reduce_operations_folds:
  assumes "reduce_operations ops acc = Some ops'"
    and "\<And>i a at u b at' u' u'' s. and_then (f (AppendText i a at u) s) (f (AppendText i b at' u'))
           = f (AppendText i (a @ b) at' u'') s"
  shows "try_fold f ops' s = try_fold f (acc @ ops) s"
  using assms(1)
proof (induction ops arbitrary: acc)
  case (Cons op ops)
  then obtain acc' where acc': "reduce_operation op acc = Some acc'" "reduce_operations ops acc' = Some ops'"
    by (auto simp: bind_eq_Some_conv)
  from Cons.IH [OF acc'(2)] reduce_operation_folds [OF acc'(1) assms(2)] show ?case
    by (simp add: try_fold_append)
qed simp

lemma reduce_operations_total:
  "(\<forall>op \<in> set ops. \<forall>i k. op \<noteq> CommitArtifact i k) \<Longrightarrow> reduce_operations ops acc \<noteq> None"
proof (induction ops arbitrary: acc)
  case (Cons op ops)
  then have "\<exists>acc'. reduce_operation op acc = Some acc'"
    by (cases op) (auto split: list.splits task_operation.splits)
  with Cons show ?case by (auto simp del: reduce_operation.simps)
qed simp

text \<open>
  C5: coalescing a batch of admitted writes, in which adjacent text deltas of a message become one, is
  invisible: the coalesced operations pass the check exactly when the original ones do, with the same
  error otherwise, and they take every recovered state to the same state or to the same error. It
  succeeds for every batch without artifact references, which callers cannot submit.
\<close>

theorem coalescing_is_invisible:
  assumes "\<forall>w \<in> set ws. \<forall>op \<in> set (operations w). \<forall>i k. op \<noteq> CommitArtifact i k"
  shows "\<exists>ops arts. reduce_batch ws = Some (ops, arts)
           \<and> (\<forall>current. validate_operations current t ops = validate_operations current t (concat (map operations ws)))
           \<and> (\<forall>st. apply_operations t ops n st = apply_operations t (concat (map operations ws)) n st)"
proof -
  let ?all = "concat (map operations ws)"
  obtain ops where ops: "reduce_operations ?all [] = Some ops"
    using assms reduce_operations_total [of ?all "[]"] by auto
  have "try_fold (apply_operation t n) ops s = try_fold (apply_operation t n) ([] @ ?all) s" for s
    using ops apply_text_twice by (rule reduce_operations_folds)
  moreover have "try_fold (validate_operation t) ops s = try_fold (validate_operation t) ([] @ ?all) s" for s
    using ops validate_text_twice by (rule reduce_operations_folds)
  ultimately show ?thesis
    using ops by (simp add: reduce_batch_def apply_operations_def validate_operations_def)
qed

text \<open>Two deltas of one message are written as one.\<close>

theorem coalescing_is_invisible_witness:
  "(let ws = [stream_append_text_with_metadata ''t'' ''m'' ''Hel'' ''1'' None,
              stream_append_text_with_metadata ''t'' ''m'' ''lo'' ''2'' (Some ''2'')] :: unit task_write list
    in reduce_batch ws = Some ([AppendText ''m'' ''Hello'' ''2'' (Some ''2'')], [])
       \<and> (\<forall>st. apply_operations ''t'' [AppendText ''m'' ''Hello'' ''2'' (Some ''2'')] 7 st
               = apply_operations ''t'' (concat (map operations ws)) 7 st))"
proof -
  let ?ws = "[stream_append_text_with_metadata ''t'' ''m'' ''Hel'' ''1'' None,
              stream_append_text_with_metadata ''t'' ''m'' ''lo'' ''2'' (Some ''2'')] :: unit task_write list"
  have "reduce_batch ?ws = Some ([AppendText ''m'' ''Hello'' ''2'' (Some ''2'')], [])"
    by (simp add: reduce_batch_def stream_append_text_with_metadata_def plain_write_def)
  moreover have "\<forall>w \<in> set ?ws. \<forall>op \<in> set (operations w). \<forall>i k. op \<noteq> CommitArtifact i k"
    by (simp add: stream_append_text_with_metadata_def plain_write_def)
  note coalescing_is_invisible [OF this, of "''t''" 7]
  ultimately show ?thesis unfolding Let_def by auto
qed

section \<open>An example\<close>

text \<open>A fresh Task with one Agent message, for the concrete instances below.\<close>

definition example_task :: "string \<Rightarrow> task_record" where
  "example_task t =
     \<lparr>task_id = t, task_title_of = default_title_state, task_status_of = TaskInactive, task_version = 1,
      message_history_version = 1, unread = False, pinned = False, attention = None, task_created_at = ''0'',
      updated_at = ''0'', last_activity = ''0'', permission_policy_of = AskEveryTime, composer_history = [],
      message_queue_of = \<lparr>queue_revision = 0, queue_pause_of = None, queue_items = []\<rparr>, agent_id = ''agent'',
      agent_name = ''Agent'', isolation = IsolationLocal, workspace_root = ''/w'', project_root = None,
      worktree_id = None, lifecycle = LifecycleOpen, agent_session_id = None, active_turn_id = None,
      active_turn_started_at = None, background_work = None, tombstoned = False, task_revision = 1,
      config_options_catalog_of = None,
      native_session_data_freshness = \<lparr>config_freshness = CatalogFresh, commands_freshness = CatalogFresh\<rparr>,
      native_session_reload_requirement = None, native_session_own_activity_at = None,
      config_mutation = \<lparr>mutation_sequence = 0, mutation_pending = None, mutation_preferences = None, mutation_chosen = []\<rparr>,
      agent_commands_catalog_of = None, context_usage = None, current_plan = None, completed_plan_message_id = None,
      last_turn_usage = None, model_id = None, supports_image_input = False, preparation = PreparationReady\<rparr>"

definition example_message :: "string \<Rightarrow> stored_message" where
  "example_message txt =
     \<lparr>message_sequence = 1,
      chat = \<lparr>cursor = ''m:1'', chat_identity = ''m'', chat_message_type = ''agent_message'', chat_message_id = ''m'',
              chat_message_of = AgentMessage ''m'' AgentRole [TextPart txt] ''0'', timing = no_timing\<rparr>\<rparr>"

definition example_projection :: "string \<Rightarrow> string \<Rightarrow> task_projection" where
  "example_projection t txt =
     \<lparr>projected_task = example_task t, messages = [example_message txt],
      message_meta_of = \<lparr>meta_task_id = t, meta_version = 1, message_count = 1, local_history_updated_at = ''0'',
                        first_cursor = Some ''m:1'', last_cursor = Some ''m:1''\<rparr>,
      artifact_heads = (\<lambda>_. None)\<rparr>"

lemmas example_simps = example_projection_def example_message_def example_task_def

section \<open>A checked batch applies\<close>

lemma message_append_shape:
  "map shape ms = map shape ms' \<Longrightarrow> validate_message_append ms m = validate_message_append ms' m"
proof -
  assume eq: "map shape ms = map shape ms'"
  have "list_ex (\<lambda>s. message_sequence s = message_sequence m \<or> chat_identity (chat s) = chat_identity (chat m)
            \<or> chat_message_id (chat s) = chat_message_id (chat m)) xs
        = list_ex (\<lambda>(a, b, c, _). a = message_sequence m \<or> b = chat_identity (chat m) \<or> c = chat_message_id (chat m))
            (map shape xs)" for xs
    by (induction xs) (simp_all add: shape_def)
  with eq show ?thesis by (simp add: validate_message_append_def)
qed

lemma split_at_identity_shape:
  "map shape ms = map shape ms' \<Longrightarrow>
     rel_option (\<lambda>(a, b) (a', b'). map shape a = map shape a' \<and> map shape b = map shape b')
       (split_at_identity i ms) (split_at_identity i ms')"
proof (induction ms arbitrary: ms')
  case (Cons m ms)
  then obtain m' ms1 where ms': "ms' = m' # ms1" "shape m' = shape m" "map shape ms1 = map shape ms" by auto
  then have "has_identity i m' = has_identity i m" by (simp add: has_identity_def shape_def)
  moreover have "rel_option (\<lambda>(a, b) (a', b'). map shape a = map shape a' \<and> map shape b = map shape b')
      (split_at_identity i ms) (split_at_identity i ms1)"
    using Cons.IH [of ms1] ms' by simp
  ultimately show ?case
    using ms' by (auto simp: option_rel_Some1 option.rel_map split_def elim!: option.rel_mono_strong)
qed simp

lemma upsert_shape:
  assumes "map shape ms = map shape ms'"
  shows "rel_sum (=) (\<lambda>a b. map shape a = map shape b) (upsert_message ms m) (upsert_message ms' m)"
proof -
  have col: "list_ex (\<lambda>s. message_sequence s = message_sequence m \<or> chat_message_id (chat s) = chat_message_id (chat m)) xs
        = list_ex (\<lambda>(a, _, c, _). a = message_sequence m \<or> c = chat_message_id (chat m)) (map shape xs)" for xs
    by (induction xs) (simp_all add: shape_def)
  show ?thesis
    using split_at_identity_shape [OF assms, of "chat_identity (chat m)"] message_append_shape [OF assms, of m] assms
    unfolding upsert_message_def col
    by (auto simp: option_rel_Some1 split: option.splits if_splits)
      (cases "validate_message_append ms' m"; simp)+
qed

text \<open>The private copy of the check and the state of the application agree in shape.\<close>

fun shadows :: "string \<Rightarrow> task_projection option \<Rightarrow> recovered_state \<Rightarrow> bool" where
  "shadows t None st = (st t = None)"
| "shadows t (Some p) st =
     (\<exists>q k. st t = Some (Available q k) \<and> map shape (messages p) = map shape (messages q))"

lemma checked_operation_applies:
  assumes "validate_operation t op shadow = Inr shadow'" and "shadows t shadow (recovered s)"
  shows "\<exists>s'. apply_operation t n op s = Inr s' \<and> shadows t shadow' (recovered s')
           \<and> (\<forall>u. u \<noteq> t \<longrightarrow> recovered s' u = recovered s u)"
proof (cases shadow)
  case None
  with assms show ?thesis by (cases op) (auto split: if_splits)
next
  case (Some p)
  with assms(2) obtain q k where q: "recovered s t = Some (Available q k)" "map shape (messages p) = map shape (messages q)"
    by auto
  then have av: "available_projection t (recovered s) = Inr q" by (simp add: available_projection_def)
  have put: "put_projection t r (recovered s) = (recovered s)(t := Some (Available r k))" for r
    using q(1) by (simp add: put_projection_def)
  show ?thesis
  proof (cases op)
    case (AppendText i a m u)
    with assms(1) Some have "validate_text_target (messages q) i = Inr ()" "shadow' = Some p"
      using text_target_cong [OF q(2)] by (auto simp: and_then_eq_Inr)
    moreover have "map shape (update_first (has_identity i) (extend_stored a) (messages q)) = map shape (messages q)"
      by (rule shapes_update_first) simp
    ultimately show ?thesis using AppendText av put q(2) by (simp add: append_text_def)
  next
    case (AppendMessage m)
    with assms(1) Some have "validate_message_append (messages q) m = Inr ()" "shadow' = Some (p\<lparr>messages := messages p @ [m]\<rparr>)"
      using message_append_shape [OF q(2)] by (auto simp: and_then_eq_Inr)
    then show ?thesis using AppendMessage av put q(2) by simp
  next
    case (UpsertMessage m)
    with assms(1) Some obtain ms where ms: "upsert_message (messages p) m = Inr ms" "shadow' = Some (p\<lparr>messages := ms\<rparr>)"
      by (auto simp: and_then_eq_Inr)
    with upsert_shape [OF q(2), of m] obtain ms' where "upsert_message (messages q) m = Inr ms'" "map shape ms = map shape ms'"
      by (auto simp: rel_sum_simps elim: rel_sum.cases)
    then show ?thesis using UpsertMessage av put ms(2) by simp
  qed (use assms(1) Some av put q in \<open>auto simp: and_then_eq_Inr align_history_def split: if_splits\<close>)
qed

lemma checked_operations_apply:
  assumes "try_fold (validate_operation t) ops shadow = Inr shadow'" and "shadows t shadow (recovered s)"
  shows "\<exists>s'. try_fold (apply_operation t n) ops s = Inr s' \<and> shadows t shadow' (recovered s')
           \<and> (\<forall>u. u \<noteq> t \<longrightarrow> recovered s' u = recovered s u)"
  using assms
proof (induction ops arbitrary: shadow s)
  case (Cons op ops)
  then obtain shadow1 where v: "validate_operation t op shadow = Inr shadow1"
    "try_fold (validate_operation t) ops shadow1 = Inr shadow'"
    by (auto simp: and_then_eq_Inr)
  from checked_operation_applies [OF v(1) Cons.prems(2)] obtain s1 where s1:
    "apply_operation t n op s = Inr s1" "shadows t shadow1 (recovered s1)"
    "\<forall>u. u \<noteq> t \<longrightarrow> recovered s1 u = recovered s u"
    by blast
  from Cons.IH [OF v(2) s1(2)] s1 show ?case by auto
qed auto

fun operation_versions :: "task_operation \<Rightarrow> nat set" where
  "operation_versions (Create p) = {meta_version (message_meta_of p)}"
| "operation_versions (ReplaceProjection p) = {meta_version (message_meta_of p)}"
| "operation_versions (ReplaceMessages _ meta) = {meta_version meta}"
| "operation_versions (ReplaceMessageMeta meta) = {meta_version meta}"
| "operation_versions _ = {}"

definition versions_within :: "nat set \<Rightarrow> string \<Rightarrow> recovered_state \<Rightarrow> bool" where
  "versions_within V t st \<longleftrightarrow> (\<forall>p k. st t = Some (Available p k) \<longrightarrow> meta_version (message_meta_of p) \<in> V)"

lemma available_eq: "available_projection t st = Inr p \<longleftrightarrow> (\<exists>k. st t = Some (Available p k))"
  by (auto simp: available_projection_def split: option.splits recovered_task.splits)

lemma put_available: "st t = Some (Available p k) \<Longrightarrow> put_projection t q st = st(t := Some (Available q k))"
  by (simp add: put_projection_def)

lemma apply_operation_versions:
  assumes "apply_operation t n op s = Inr s'" and "versions_within V t (recovered s)" and "operation_versions op \<subseteq> V"
  shows "versions_within V t (recovered s')"
  using assms
  by (cases op)
    (auto simp: versions_within_def and_then_eq_Inr available_eq put_available align_history_def
      split: option.splits recovered_task.splits)

lemma apply_operations_versions:
  assumes "try_fold (apply_operation t n) ops s = Inr s'" and "versions_within V t (recovered s)"
    and "\<forall>op \<in> set ops. operation_versions op \<subseteq> V"
  shows "versions_within V t (recovered s')"
  using assms
proof (induction ops arbitrary: s)
  case (Cons op ops)
  then show ?case by (auto simp: and_then_eq_Inr dest: apply_operation_versions)
qed simp

text \<open>The versions a batch may leave a history at before it advances it.\<close>

definition batch_versions :: "recovered_task option \<Rightarrow> task_operation list \<Rightarrow> nat set" where
  "batch_versions current ops =
     (case current of Some (Available p _) \<Rightarrow> {meta_version (message_meta_of p)} | _ \<Rightarrow> {})
     \<union> (\<Union>op \<in> set ops. operation_versions op)"

lemma checked_nonempty_creates:
  "try_fold (validate_operation t) ops None = Inr shadow \<Longrightarrow> ops \<noteq> [] \<Longrightarrow> \<exists>p. shadow = Some p"
proof (induction ops arbitrary: shadow rule: rev_induct)
  case (snoc op ops)
  then obtain sh where sh: "try_fold (validate_operation t) ops None = Inr sh" "validate_operation t op sh = Inr shadow"
    by (auto simp: try_fold_append and_then_eq_Inr)
  then show ?case by (cases op) (auto simp: and_then_eq_Inr split: if_splits)
qed simp

lemma checked_keeps_some:
  "try_fold (validate_operation t) ops (Some p) = Inr shadow \<Longrightarrow> \<exists>q. shadow = Some q"
proof (induction ops arbitrary: p)
  case (Cons op ops)
  then obtain sh where sh: "validate_operation t op (Some p) = Inr sh" "try_fold (validate_operation t) ops sh = Inr shadow"
    by (auto simp: and_then_eq_Inr)
  moreover from sh(1) obtain q where "sh = Some q" by (cases op) (auto simp: and_then_eq_Inr split: if_splits)
  ultimately show ?case using Cons.IH by blast
qed auto

lemma advance_history_total:
  assumes "recovered s t = Some (Available p k)" and "meta_version (message_meta_of p) < u64_max"
  shows "\<exists>q. advance_history t s = Inr (s\<lparr>recovered := (recovered s)(t := Some (Available q k))\<rparr>)"
proof (cases "history_changed s \<and> \<not> message_meta_replaced s")
  case True
  with assms show ?thesis
    by (auto simp: advance_history_def available_projection_def put_available checked_add64_def u64_max_def)
next
  case False
  with assms(1) have "advance_history t s = Inr (s\<lparr>recovered := (recovered s)(t := Some (Available p k))\<rparr>)"
    by (auto simp: advance_history_def fun_upd_idem)
  then show ?thesis by blast
qed

text \<open>
  C6: a batch that passes the check never fails when it is applied, whatever its operations depend on of
  one another: it takes the recovered state to the same state with the Task available at the new
  sequence and every other Task untouched. The one limit is a history version at the largest 64-bit
  number.
\<close>

theorem checked_batch_applies:
  assumes "validate_operations (st t) t ops = Inr ()" and "st t \<noteq> None \<or> ops \<noteq> []"
    and "\<forall>v \<in> batch_versions (st t) ops. v < u64_max"
  shows "\<exists>p. apply_operations t ops n st = Inr (st(t := Some (Available p n)))"
proof -
  let ?s = "\<lparr>recovered = st, history_changed = False, message_meta_replaced = False\<rparr>"
  from assms(1) obtain shadow shadow' where sh: "initial_shadow (st t) = Inr shadow"
    "try_fold (validate_operation t) ops shadow = Inr shadow'"
    by (auto simp: validate_operations_def and_then_eq_Inr)
  then have "shadows t shadow st"
    by (auto simp: initial_shadow_def split: option.splits recovered_task.splits)
  with checked_operations_apply [OF sh(2), of ?s n] obtain s' where s': "try_fold (apply_operation t n) ops ?s = Inr s'"
    "shadows t shadow' (recovered s')" "\<forall>u. u \<noteq> t \<longrightarrow> recovered s' u = st u"
    by auto
  have "\<exists>p. shadow' = Some p"
  proof (cases shadow)
    case None
    then have "st t = None" using sh(1) by (auto simp: initial_shadow_def split: option.splits recovered_task.splits)
    with assms(2) None sh(2) checked_nonempty_creates show ?thesis by blast
  qed (use sh(2) checked_keeps_some in blast)
  with s'(2) obtain q k where q: "recovered s' t = Some (Available q k)" by auto
  have "versions_within (batch_versions (st t) ops) t (recovered s')"
    using s'(1) by (rule apply_operations_versions) (auto simp: versions_within_def batch_versions_def)
  with q assms(3) have "meta_version (message_meta_of q) < u64_max" by (auto simp: versions_within_def)
  from advance_history_total [OF q this] obtain r where
    "advance_history t s' = Inr (s'\<lparr>recovered := (recovered s')(t := Some (Available r k))\<rparr>)" by blast
  moreover have "(recovered s')(t := x) = st(t := x)" for x using s'(3) by auto
  ultimately have "apply_operations t ops n st = Inr (st(t := Some (Available r n)))"
    using s'(1) by (simp add: apply_operations_def stamp_sequence_def)
  then show ?thesis by blast
qed

text \<open>A Task is created and its message extended in one batch.\<close>

theorem checked_batch_applies_witness:
  "(let ops = [Create (example_projection ''t'' ''Hel''), AppendText ''m'' ''lo'' ''1'' None]
    in validate_operations None ''t'' ops = Inr ()
       \<and> (\<exists>p. apply_operations ''t'' ops 1 (\<lambda>_. None) = Inr ((\<lambda>_. None)(''t'' := Some (Available p 1)))))"
proof -
  let ?ops = "[Create (example_projection ''t'' ''Hel''), AppendText ''m'' ''lo'' ''1'' None]"
  have "validate_operations None ''t'' ?ops = Inr ()"
    by (simp add: validate_operations_def initial_shadow_def validate_text_target_def has_identity_def example_simps)
  moreover have "\<exists>p. apply_operations ''t'' ?ops 1 (\<lambda>_. None) = Inr ((\<lambda>_. None)(''t'' := Some (Available p 1)))"
    by (rule checked_batch_applies) (use calculation in \<open>simp_all add: batch_versions_def example_simps u64_max_def\<close>)
  ultimately show ?thesis by (simp add: Let_def)
qed

section \<open>Identities of messages\<close>

definition chat_unique :: "stored_message list \<Rightarrow> bool" where
  "chat_unique ms \<longleftrightarrow> distinct (map message_sequence ms) \<and> distinct (map (chat_identity \<circ> chat) ms)
     \<and> distinct (map (chat_message_id \<circ> chat) ms)"

lemma message_set_distinct_unique:
  "message_set_distinct A B C ms \<longleftrightarrow> chat_unique ms \<and> message_sequence ` set ms \<inter> A = {}
     \<and> (chat_identity \<circ> chat) ` set ms \<inter> B = {} \<and> (chat_message_id \<circ> chat) ` set ms \<inter> C = {}"
  by (induction ms arbitrary: A B C) (auto simp: chat_unique_def)

lemma validate_message_set_unique: "validate_message_set ms = Inr () \<longleftrightarrow> chat_unique ms"
  by (simp add: validate_message_set_def message_set_distinct_unique)

lemma chat_unique_shape: "map shape ms = map shape ms' \<Longrightarrow> chat_unique ms = chat_unique ms'"
proof -
  have "map message_sequence xs = map fst (map shape xs)"
    "map (chat_identity \<circ> chat) xs = map (fst \<circ> snd) (map shape xs)"
    "map (chat_message_id \<circ> chat) xs = map (fst \<circ> snd \<circ> snd) (map shape xs)" for xs
    by (simp_all add: shape_def comp_def)
  then show "map shape ms = map shape ms' \<Longrightarrow> chat_unique ms = chat_unique ms'"
    by (metis chat_unique_def)
qed

lemma append_unique: "validate_message_append ms m = Inr () \<Longrightarrow> chat_unique ms \<Longrightarrow> chat_unique (ms @ [m])"
  by (auto simp: validate_message_append_def chat_unique_def list_ex_iff split: if_splits)

lemma split_at_identity_Some:
  "split_at_identity i ms = Some (a, b) \<Longrightarrow> \<exists>x. ms = a @ x # b \<and> chat_identity (chat x) = i"
  by (induction ms arbitrary: a) (auto simp: has_identity_def split: if_splits)

lemma upsert_unique: "upsert_message ms m = Inr ms' \<Longrightarrow> chat_unique ms \<Longrightarrow> chat_unique ms'"
proof (cases "split_at_identity (chat_identity (chat m)) ms")
  case None
  assume "upsert_message ms m = Inr ms'" "chat_unique ms"
  with None show ?thesis by (auto simp: upsert_message_def and_then_eq_Inr intro: append_unique)
next
  case (Some ab)
  obtain a b where ab: "ab = (a, b)" by (cases ab) auto
  assume up: "upsert_message ms m = Inr ms'" and uni: "chat_unique ms"
  from split_at_identity_Some [OF Some [unfolded ab]] obtain x where x: "ms = a @ x # b"
    "chat_identity (chat x) = chat_identity (chat m)" by blast
  from up Some ab have "ms' = a @ m # b"
    "\<forall>s \<in> set (a @ b). message_sequence s \<noteq> message_sequence m \<and> chat_message_id (chat s) \<noteq> chat_message_id (chat m)"
    by (auto simp: upsert_message_def list_ex_iff split: if_splits)
  with uni x show ?thesis by (auto simp: chat_unique_def)
qed

fun carries_unique :: "task_operation \<Rightarrow> bool" where
  "carries_unique (Create p) = chat_unique (messages p)"
| "carries_unique (ReplaceProjection p) = chat_unique (messages p)"
| "carries_unique _ = True"

definition unique_at :: "string \<Rightarrow> recovered_state \<Rightarrow> bool" where
  "unique_at t st \<longleftrightarrow> (\<forall>p k. st t = Some (Available p k) \<longrightarrow> chat_unique (messages p))"

lemma apply_operation_unique:
  assumes "apply_operation t n op s = Inr s'" and "unique_at t (recovered s)" and "carries_unique op"
  shows "unique_at t (recovered s')"
proof (cases op)
  case (AppendText i a m u)
  have "chat_unique (update_first (has_identity i) (extend_stored a) xs) = chat_unique xs" for xs
    by (intro chat_unique_shape shapes_update_first) simp
  with assms AppendText show ?thesis
    by (auto simp: unique_at_def and_then_eq_Inr available_eq put_available append_text_def)
next
  case (AppendMessage m)
  with assms append_unique show ?thesis
    by (auto simp: unique_at_def and_then_eq_Inr available_eq put_available)
next
  case (UpsertMessage m)
  with assms upsert_unique show ?thesis
    by (auto simp: unique_at_def and_then_eq_Inr available_eq put_available)
qed (use assms in \<open>auto simp: unique_at_def and_then_eq_Inr available_eq put_available align_history_def
      validate_message_set_unique split: option.splits recovered_task.splits\<close>)

lemma apply_operations_unique:
  assumes "apply_operations t ops n st = Inr st'" and "unique_at t st" and "\<forall>op \<in> set ops. carries_unique op"
  shows "unique_at t st'"
proof -
  have fold: "unique_at t (recovered s')"
    if "try_fold (apply_operation t n) ops s = Inr s'" "unique_at t (recovered s)" for s s'
    using that assms(3)
    by (induction ops arbitrary: s) (auto simp: and_then_eq_Inr dest: apply_operation_unique)
  from assms(1) obtain s1 s2 where s12:
    "try_fold (apply_operation t n) ops \<lparr>recovered = st, history_changed = False, message_meta_replaced = False\<rparr> = Inr s1"
    "advance_history t s1 = Inr s2" "stamp_sequence t n s2 = Inr st'"
    by (auto simp: apply_operations_def and_then_eq_Inr)
  from fold [OF s12(1)] assms(2) have "unique_at t (recovered s1)" by simp
  then have "unique_at t (recovered s2)"
    using s12(2) by (auto simp: advance_history_def unique_at_def and_then_eq_Inr available_eq put_available
        align_history_def split: if_splits)
  then show ?thesis
    using s12(3) by (auto simp: stamp_sequence_def unique_at_def split: option.splits recovered_task.splits)
qed

text \<open>
  C19: appended, upserted and replaced messages never make a Chat ambiguous. Whatever journal is replayed,
  when every projection that one of its operations stores as a whole holds distinct messages, the
  recovered Chat never has two messages with the same sequence, identity or message id. Projections stored
  as a whole are not checked by the replay, so the condition is needed.
\<close>

theorem replayed_chat_is_unique:
  assumes "replay_task t status (Some (Inr frames)) = Inr (Some (t', Available p n))"
    and "\<forall>f \<in> set frames. \<forall>op \<in> set (snd f). carries_unique op"
  shows "chat_unique (messages p)"
proof -
  from assms(1) obtain st where st: "try_fold (replay_frame t) frames (\<lambda>_. None) = Inr st" "st t = Some (Available p n)"
    by (auto simp: replay_task_def and_then_eq_Inr split: if_splits sum.splits)
  have "unique_at t st'" if "try_fold (replay_frame t) frames st0 = Inr st'" "unique_at t st0" for st0 st'
    using that assms(2)
  proof (induction frames arbitrary: st0)
    case (Cons f fs)
    then show ?case
      by (auto simp: and_then_eq_Inr replay_frame_def dest: apply_operations_unique)
  qed simp
  with st show ?thesis by (auto simp: unique_at_def)
qed

theorem replayed_chat_is_unique_witness:
  "(let frames = [(1, [Create (example_projection ''t'' ''Hel'')]), (2, [AppendText ''m'' ''lo'' ''1'' None])]
    in \<exists>p. replay_task ''t'' (Inr (Some ''H'')) (Some (Inr frames)) = Inr (Some (''t'', Available p 2)) \<and> chat_unique (messages p))"
proof -
  let ?frames = "[(1, [Create (example_projection ''t'' ''Hel'')]), (2, [AppendText ''m'' ''lo'' ''1'' None])]"
  have "validate_task_id ''t'' = Inr ()" by code_simp
  then have r: "\<exists>p. replay_task ''t'' (Inr (Some ''H'')) (Some (Inr ?frames)) = Inr (Some (''t'', Available p 2))"
    by (simp add: replay_task_def is_quarantined_def replay_frame_def validate_operations_def initial_shadow_def validate_text_target_def
        has_identity_def apply_operations_def advance_history_def stamp_sequence_def available_projection_def
        put_projection_def append_text_def checked_add64_def align_history_def example_simps)
  have "\<forall>f \<in> set ?frames. \<forall>op \<in> set (snd f). carries_unique op"
    by (simp add: chat_unique_def example_simps)
  with r replayed_chat_is_unique show ?thesis unfolding Let_def by blast
qed

end
