(* ===== verification/Journal_Scheduler.thy ===== *)
theory Journal_Scheduler
  imports Journal_Model
begin

text \<open>
  The bounded, fair admission of writes to the one storage worker
  (\<open>src/openaide-rs/app-server/src/storage/task_journal/scheduler.rs\<close>). Every method holds the mutex for
  its whole body except where it waits on the condition variable: a waiting loop is one step per
  iteration, whose outcome says that it waits. A reply channel is a number; what is sent on it is
  returned. Times are milliseconds, and the end of a timed wait is an argument of the step.
  The table of pending Tasks is iterated by \<open>fail_all\<close> and is an association list.
\<close>

definition GLOBAL_STREAM_BYTE_CAPACITY :: nat where
  "GLOBAL_STREAM_BYTE_CAPACITY = 8388608"

definition CONTROL_CAPACITY :: nat where
  "CONTROL_CAPACITY = 64"

definition MAX_BATCH_AGE :: nat where
  "MAX_BATCH_AGE = 32"

definition MAX_BATCH_BYTES :: nat where
  "MAX_BATCH_BYTES = 65536"

definition MAX_BATCH_OPERATIONS :: nat where
  "MAX_BATCH_OPERATIONS = 256"

record 's queued_write =
  queued :: "'s task_write"
  reply :: nat
  admitted_at :: nat

record 's pending_task =
  writes :: "'s queued_write list"
  queued_bytes :: nat
  queued_operations :: nat
  stream_bytes :: nat
  control_writes :: nat

definition no_pending :: "'s pending_task" where
  "no_pending = \<lparr>writes = [], queued_bytes = 0, queued_operations = 0, stream_bytes = 0, control_writes = 0\<rparr>"

record 's scheduler_state =
  pending :: "(string \<times> 's pending_task) list"
  ready :: "string list"
  global_stream_bytes :: nat
  global_control_writes :: nat
  peak_global_stream_bytes :: nat
  peak_task_stream_bytes :: nat
  reset_reply :: "nat option"
  resetting :: bool
  purge_reply :: "(string \<times> nat) option"
  purging :: bool
  shutdown_reply :: "nat option"
  closed :: bool

definition new_scheduler :: "'s scheduler_state" where
  "new_scheduler =
     \<lparr>pending = [], ready = [], global_stream_bytes = 0, global_control_writes = 0, peak_global_stream_bytes = 0,
      peak_task_stream_bytes = 0, reset_reply = None, resetting = False, purge_reply = None, purging = False,
      shutdown_reply = None, closed = False\<rparr>"

definition worker_unavailable :: runtime_error where
  "worker_unavailable = Storage ''Task journal worker is unavailable''"

definition is_stream :: "commit_boundary \<Rightarrow> bool" where
  "is_stream b \<longleftrightarrow> b = Stream \<or> b = TextStream"

section \<open>Admission\<close>

definition has_pending_exclusive_control :: "'s scheduler_state \<Rightarrow> bool" where
  "has_pending_exclusive_control st \<longleftrightarrow> reset_reply st \<noteq> None \<or> resetting st \<or> purge_reply st \<noteq> None \<or> purging st"

definition validate_write_size :: "'s journal_sizes \<Rightarrow> 's task_write \<Rightarrow> runtime_error + unit" where
  "validate_write_size sz w =
     (if is_stream (boundary w) \<and> PER_TASK_STREAM_BYTE_CAPACITY < estimated_bytes sz w
      then Inl (Storage ''Task journal stream write exceeds admission capacity'') else Inr ())"

definition task_stream_bytes :: "string \<Rightarrow> 's scheduler_state \<Rightarrow> nat" where
  "task_stream_bytes t st = (case map_of (pending st) t of None \<Rightarrow> 0 | Some p \<Rightarrow> stream_bytes p)"

definition has_capacity :: "'s journal_sizes \<Rightarrow> 's task_write \<Rightarrow> 's scheduler_state \<Rightarrow> bool" where
  "has_capacity sz w st =
     (if is_stream (boundary w)
      then estimated_bytes sz w \<le> GLOBAL_STREAM_BYTE_CAPACITY - global_stream_bytes st
           \<and> estimated_bytes sz w \<le> PER_TASK_STREAM_BYTE_CAPACITY - task_stream_bytes (write_task_id w) st
      else global_control_writes st < CONTROL_CAPACITY)"

definition enqueue :: "'s journal_sizes \<Rightarrow> nat \<Rightarrow> 's task_write \<Rightarrow> nat \<Rightarrow> 's scheduler_state \<Rightarrow> 's scheduler_state" where
  "enqueue sz now w r st =
     (let t = write_task_id w;
          is_new = (map_of (pending st) t = None);
          bytes = estimated_bytes sz w;
          entry = (case map_of (pending st) t of None \<Rightarrow> no_pending | Some p \<Rightarrow> p);
          entry1 = entry\<lparr>queued_bytes := sat_add64 (queued_bytes entry) bytes,
                         queued_operations := sat_add64 (queued_operations entry) (operation_count w),
                         writes := writes entry @ [\<lparr>queued = w, reply = r, admitted_at = now\<rparr>]\<rparr>;
          st1 = (if is_new then st\<lparr>ready := ready st @ [t]\<rparr> else st)
      in if is_stream (boundary w)
         then (let entry2 = entry1\<lparr>stream_bytes := u64_add (stream_bytes entry) bytes\<rparr>;
                   global = u64_add (global_stream_bytes st) bytes
               in st1\<lparr>pending := AList.update t entry2 (pending st),
                      global_stream_bytes := global,
                      peak_global_stream_bytes := max (peak_global_stream_bytes st) global,
                      peak_task_stream_bytes := max (peak_task_stream_bytes st) (stream_bytes entry2)\<rparr>)
         else (let entry2 = entry1\<lparr>control_writes := u64_add (control_writes entry) 1\<rparr>
               in st1\<lparr>pending := AList.update t entry2 (pending st),
                      global_control_writes := u64_add (global_control_writes st) 1\<rparr>))"

datatype admission = Admitted | AdmissionWaits | AdmissionFails runtime_error

text \<open>One iteration of \<open>admit\<close>, and \<open>try_admit\<close>, which gives the write back instead of waiting.\<close>

definition admit :: "'s journal_sizes \<Rightarrow> nat \<Rightarrow> 's task_write \<Rightarrow> nat \<Rightarrow> 's scheduler_state \<Rightarrow> admission \<times> 's scheduler_state" where
  "admit sz now w r st =
     (case validate_write_size sz w of
        Inl e \<Rightarrow> (AdmissionFails e, st)
      | Inr _ \<Rightarrow>
          if \<not> closed st \<and> shutdown_reply st = None \<and> (has_pending_exclusive_control st \<or> \<not> has_capacity sz w st)
          then (AdmissionWaits, st)
          else if closed st \<or> shutdown_reply st \<noteq> None then (AdmissionFails worker_unavailable, st)
          else (Admitted, enqueue sz now w r st))"

definition try_admit ::
  "'s journal_sizes \<Rightarrow> nat \<Rightarrow> 's task_write \<Rightarrow> nat \<Rightarrow> 's scheduler_state
   \<Rightarrow> (runtime_error + 's task_write option) \<times> 's scheduler_state" where
  "try_admit sz now w r st =
     (case validate_write_size sz w of
        Inl e \<Rightarrow> (Inl e, st)
      | Inr _ \<Rightarrow>
          if closed st \<or> shutdown_reply st \<noteq> None then (Inl worker_unavailable, st)
          else if has_pending_exclusive_control st \<or> \<not> has_capacity sz w st then (Inr (Some w), st)
          else (Inr None, enqueue sz now w r st))"

definition wait_for_capacity :: "'s journal_sizes \<Rightarrow> 's task_write \<Rightarrow> 's scheduler_state \<Rightarrow> admission" where
  "wait_for_capacity sz w st =
     (if \<not> closed st \<and> shutdown_reply st = None \<and> (has_pending_exclusive_control st \<or> \<not> has_capacity sz w st)
      then AdmissionWaits
      else if closed st \<or> shutdown_reply st \<noteq> None then AdmissionFails worker_unavailable
      else Admitted)"

section \<open>Control\<close>

definition request_shutdown :: "nat \<Rightarrow> 's scheduler_state \<Rightarrow> runtime_error + 's scheduler_state" where
  "request_shutdown r st =
     (if closed st \<or> shutdown_reply st \<noteq> None then Inl worker_unavailable
      else Inr (st\<lparr>shutdown_reply := Some r\<rparr>))"

definition exclusive_refused :: "'s scheduler_state \<Rightarrow> bool" where
  "exclusive_refused st \<longleftrightarrow>
     closed st \<or> shutdown_reply st \<noteq> None \<or> reset_reply st \<noteq> None \<or> resetting st \<or> purge_reply st \<noteq> None \<or> purging st"

definition request_reset :: "nat \<Rightarrow> 's scheduler_state \<Rightarrow> runtime_error + 's scheduler_state" where
  "request_reset r st =
     (if exclusive_refused st then Inl worker_unavailable else Inr (st\<lparr>reset_reply := Some r\<rparr>))"

definition finish_reset :: "'s scheduler_state \<Rightarrow> 's scheduler_state" where
  "finish_reset st = st\<lparr>resetting := False\<rparr>"

definition request_purge :: "string \<Rightarrow> nat \<Rightarrow> 's scheduler_state \<Rightarrow> runtime_error + 's scheduler_state" where
  "request_purge t r st =
     (if exclusive_refused st then Inl worker_unavailable else Inr (st\<lparr>purge_reply := Some (t, r)\<rparr>))"

definition finish_purge :: "'s scheduler_state \<Rightarrow> 's scheduler_state" where
  "finish_purge st = st\<lparr>purging := False\<rparr>"

definition close :: "'s scheduler_state \<Rightarrow> 's scheduler_state" where
  "close st = st\<lparr>closed := True\<rparr>"

datatype resolution = WriteFailed nat string | ShutdownResolved nat | ControlFailed nat string

definition fail_all :: "string \<Rightarrow> 's scheduler_state \<Rightarrow> resolution list \<times> 's scheduler_state" where
  "fail_all message st =
     (map (\<lambda>q. WriteFailed (reply q) message) (concat (map (writes \<circ> snd) (pending st)))
        @ (case shutdown_reply st of None \<Rightarrow> [] | Some r \<Rightarrow> [ShutdownResolved r])
        @ (case reset_reply st of None \<Rightarrow> [] | Some r \<Rightarrow> [ControlFailed r message])
        @ (case purge_reply st of None \<Rightarrow> [] | Some (_, r) \<Rightarrow> [ControlFailed r message]),
      st\<lparr>closed := True, pending := [], ready := [], global_stream_bytes := 0, global_control_writes := 0,
         shutdown_reply := None, reset_reply := None, purge_reply := None\<rparr>)"

record scheduler_metrics =
  metrics_peak_global :: nat
  metrics_peak_task :: nat

definition metrics :: "'s scheduler_state \<Rightarrow> scheduler_metrics" where
  "metrics st = \<lparr>metrics_peak_global = peak_global_stream_bytes st, metrics_peak_task = peak_task_stream_bytes st\<rparr>"

section \<open>Batches\<close>

fun first_control_boundary :: "'s queued_write list \<Rightarrow> commit_boundary option" where
  "first_control_boundary [] = None"
| "first_control_boundary (q # qs) =
     (if is_stream (boundary (queued q)) then first_control_boundary qs else Some (boundary (queued q)))"

text \<open>The counters of the Task and of the scheduler: stream bytes and control writes.\<close>

record counters =
  queue_bytes :: nat
  queue_operations :: nat
  lane_bytes :: nat
  lane_controls :: nat
  total_bytes :: nat
  total_controls :: nat

definition release :: "'s journal_sizes \<Rightarrow> 's queued_write \<Rightarrow> counters \<Rightarrow> counters" where
  "release sz q c =
     (let bytes = estimated_bytes sz (queued q);
          c1 = c\<lparr>queue_bytes := queue_bytes c - bytes,
                 queue_operations := queue_operations c - operation_count (queued q)\<rparr>
      in if is_stream (boundary (queued q))
         then c1\<lparr>lane_bytes := u64_sub (lane_bytes c) bytes, total_bytes := u64_sub (total_bytes c) bytes\<rparr>
         else c1\<lparr>lane_controls := u64_sub (lane_controls c) 1, total_controls := u64_sub (total_controls c) 1\<rparr>)"

text \<open>The loop of \<open>take_batch\<close>: batch, its bytes and operations, the queue, the counters.\<close>

fun take_loop ::
  "'s journal_sizes \<Rightarrow> 's queued_write list \<Rightarrow> nat \<Rightarrow> nat \<Rightarrow> 's queued_write list \<Rightarrow> counters
   \<Rightarrow> 's queued_write list \<times> 's queued_write list \<times> counters" where
  "take_loop sz batch bytes ops [] c = (batch, [], c)"
| "take_loop sz batch bytes ops (q # qs) c =
     (let next_bytes = estimated_bytes sz (queued q);
          next_operations = operation_count (queued q)
      in if batch \<noteq> [] \<and> is_subagent (queued (hd batch)) \<noteq> is_subagent (queued q) then (batch, q # qs, c)
         else if batch \<noteq> [] \<and> (MAX_BATCH_BYTES < u64_add bytes next_bytes
                               \<or> MAX_BATCH_OPERATIONS < u64_add ops next_operations) then (batch, q # qs, c)
         else if is_stream (boundary (queued q))
         then take_loop sz (batch @ [q]) (u64_add bytes next_bytes) (u64_add ops next_operations) qs (release sz q c)
         else (batch @ [q], qs, release sz q c))"

text \<open>The loop of \<open>take_text_barrier_batch\<close>: what is selected and what is retained.\<close>

fun text_loop ::
  "'s journal_sizes \<Rightarrow> 's queued_write list \<Rightarrow> 's queued_write list \<Rightarrow> nat \<Rightarrow> nat \<Rightarrow> 's queued_write list
   \<Rightarrow> 's queued_write list \<times> 's queued_write list" where
  "text_loop sz selected retained bytes ops [] = (selected, retained)"
| "text_loop sz selected retained bytes ops (q # qs) =
     (case boundary (queued q) of
        TextStream \<Rightarrow>
          (let next_bytes = estimated_bytes sz (queued q);
               next_operations = operation_count (queued q)
           in if selected \<noteq> [] \<and> (MAX_BATCH_BYTES < u64_add bytes next_bytes
                                  \<or> MAX_BATCH_OPERATIONS < u64_add ops next_operations)
              then (selected, retained @ q # qs)
              else text_loop sz (selected @ [q]) retained (u64_add bytes next_bytes) (u64_add ops next_operations) qs)
      | TextBarrier \<Rightarrow> (selected @ [q], retained @ qs)
      | _ \<Rightarrow> text_loop sz selected (retained @ [q]) bytes ops qs)"

text \<open>The accounting of selected writes, which saturates instead of wrapping.\<close>

definition release_saturating :: "'s journal_sizes \<Rightarrow> 's queued_write \<Rightarrow> counters \<Rightarrow> counters" where
  "release_saturating sz q c =
     (let bytes = estimated_bytes sz (queued q);
          c1 = c\<lparr>queue_bytes := queue_bytes c - bytes,
                 queue_operations := queue_operations c - operation_count (queued q)\<rparr>
      in if is_stream (boundary (queued q))
         then c1\<lparr>lane_bytes := lane_bytes c - bytes, total_bytes := total_bytes c - bytes\<rparr>
         else c1\<lparr>lane_controls := lane_controls c - 1, total_controls := total_controls c - 1\<rparr>)"

definition counters_of :: "'s pending_task \<Rightarrow> 's scheduler_state \<Rightarrow> counters" where
  "counters_of p st =
     \<lparr>queue_bytes = queued_bytes p, queue_operations = queued_operations p, lane_bytes = stream_bytes p,
      lane_controls = control_writes p, total_bytes = global_stream_bytes st, total_controls = global_control_writes st\<rparr>"

text \<open>Storing the rest of the queue: an empty one leaves the table, another goes to the back of \<open>ready\<close>.\<close>

definition put_back :: "string \<Rightarrow> 's queued_write list \<Rightarrow> counters \<Rightarrow> 's scheduler_state \<Rightarrow> 's scheduler_state" where
  "put_back t rest c st =
     (let p = \<lparr>writes = rest, queued_bytes = queue_bytes c, queued_operations = queue_operations c,
               stream_bytes = lane_bytes c, control_writes = lane_controls c\<rparr>;
          st1 = st\<lparr>global_stream_bytes := total_bytes c, global_control_writes := total_controls c\<rparr>
      in if rest = [] then st1\<lparr>pending := AList.delete t (pending st)\<rparr>
         else st1\<lparr>pending := AList.update t p (pending st), ready := ready st @ [t]\<rparr>)"

text \<open>\<open>None\<close> is the panic of a ready Task without a queue.\<close>

definition take_batch ::
  "'s journal_sizes \<Rightarrow> string \<Rightarrow> 's scheduler_state \<Rightarrow> ('s queued_write list \<times> 's scheduler_state) option" where
  "take_batch sz t st =
     (case map_of (pending st) t of
        None \<Rightarrow> None
      | Some p \<Rightarrow>
          if first_control_boundary (writes p) = Some TextBarrier
          then (let (selected, retained) = text_loop sz [] [] 0 0 (writes p);
                    c = fold (release_saturating sz) selected (counters_of p st)
                in Some (selected, put_back t retained c st))
          else (let (batch, rest, c) = take_loop sz [] 0 0 (writes p) (counters_of p st)
                in Some (batch, put_back t rest c st)))"

definition should_wait_for_batch :: "'s pending_task \<Rightarrow> 's scheduler_state \<Rightarrow> bool" where
  "should_wait_for_batch p st \<longleftrightarrow>
     length (ready st) = 1 \<and> shutdown_reply st = None \<and> control_writes p = 0
     \<and> queued_bytes p < MAX_BATCH_BYTES \<and> queued_operations p < MAX_BATCH_OPERATIONS"

section \<open>The worker's next piece of work\<close>

datatype 's next_work =
    NextBatch string "'s queued_write list"
  | NextReset nat
  | NextPurge string nat
  | NextShutdown nat
  | NextClosed
  | NextWaits
  | NextPanics

text \<open>The front of \<open>ready\<close> and its batch; an empty \<open>ready\<close> or a missing queue is a panic.\<close>

definition take_ready :: "'s journal_sizes \<Rightarrow> 's scheduler_state \<Rightarrow> 's next_work \<times> 's scheduler_state" where
  "take_ready sz st =
     (case ready st of
        [] \<Rightarrow> (NextPanics, st)
      | t # rest \<Rightarrow>
          (case take_batch sz t (st\<lparr>ready := rest\<rparr>) of
             None \<Rightarrow> (NextPanics, st)
           | Some (batch, st') \<Rightarrow> (NextBatch t batch, st')))"

text \<open>
  One iteration of \<open>next\<close>: \<open>timed_out\<close> when it resumes from a timed wait that ended by itself, which
  takes the batch without looking at the state again.
\<close>

definition next_iteration :: "'s journal_sizes \<Rightarrow> nat \<Rightarrow> bool \<Rightarrow> 's scheduler_state \<Rightarrow> 's next_work \<times> 's scheduler_state" where
  "next_iteration sz now timed_out st =
     (if timed_out then take_ready sz st
      else (case ready st of
        t # _ \<Rightarrow>
          (case map_of (pending st) t of
             None \<Rightarrow> (NextPanics, st)
           | Some p \<Rightarrow>
               if should_wait_for_batch p st
               then (case writes p of
                       [] \<Rightarrow> (NextPanics, st)
                     | q # _ \<Rightarrow> if 0 < MAX_BATCH_AGE - (now - admitted_at q) then (NextWaits, st) else take_ready sz st)
               else take_ready sz st)
      | [] \<Rightarrow>
          (case reset_reply st of
             Some r \<Rightarrow> (NextReset r, st\<lparr>reset_reply := None, resetting := True\<rparr>)
           | None \<Rightarrow>
               (case purge_reply st of
                  Some (t, r) \<Rightarrow> (NextPurge t r, st\<lparr>purge_reply := None, purging := True\<rparr>)
                | None \<Rightarrow>
                    (case (if \<not> resetting st \<and> \<not> purging st then shutdown_reply st else None) of
                       Some r \<Rightarrow> (NextShutdown r, st\<lparr>shutdown_reply := None, closed := True\<rparr>)
                     | None \<Rightarrow> if closed st then (NextClosed, st) else (NextWaits, st))))))"

end
