(* ===== verification/Journal_Scheduler_Batches.thy ===== *)
theory Journal_Scheduler_Batches
  imports Journal_Scheduler "HOL-Library.Multiset"
begin

text \<open>
  One call on the write scheduler: what a batch takes from a queue and what it leaves, the exactness of
  the counters, the invariant \<open>sched_ok\<close> and that admitting a write and taking a batch keep it, and the
  limits of a batch.
\<close>

section \<open>Taking a batch\<close>

definition stream_total :: "'s journal_sizes \<Rightarrow> 's queued_write list \<Rightarrow> nat" where
  "stream_total sz qs = sum_list (map (\<lambda>q. if is_stream (boundary (queued q)) then estimated_bytes sz (queued q) else 0) qs)"

definition control_total :: "'s queued_write list \<Rightarrow> nat" where
  "control_total qs = length (filter (\<lambda>q. \<not> is_stream (boundary (queued q))) qs)"

lemma stream_total_simps [simp]:
  "stream_total sz [] = 0"
  "stream_total sz (q # qs) = (if is_stream (boundary (queued q)) then estimated_bytes sz (queued q) else 0) + stream_total sz qs"
  "stream_total sz (xs @ ys) = stream_total sz xs + stream_total sz ys"
  by (simp_all add: stream_total_def)

lemma control_total_simps [simp]:
  "control_total [] = 0"
  "control_total (q # qs) = (if is_stream (boundary (queued q)) then 0 else 1) + control_total qs"
  "control_total (xs @ ys) = control_total xs + control_total ys"
  by (simp_all add: control_total_def)

lemma totals_cong_mset:
  assumes "mset xs = mset ys"
  shows "stream_total sz xs = stream_total sz ys" "control_total xs = control_total ys"
proof -
  from assms show "stream_total sz xs = stream_total sz ys"
    unfolding stream_total_def sum_mset_sum_list [symmetric] mset_map by simp
  from assms show "control_total xs = control_total ys"
    unfolding control_total_def size_mset [symmetric] mset_filter by simp
qed

text \<open>The two orders that batches keep: everything but plain stream writes, and everything but text.\<close>

definition in_text_order :: "'s queued_write \<Rightarrow> bool" where
  "in_text_order q \<longleftrightarrow> boundary (queued q) \<noteq> Stream"

definition in_tool_order :: "'s queued_write \<Rightarrow> bool" where
  "in_tool_order q \<longleftrightarrow> boundary (queued q) = Stream \<or> boundary (queued q) = Barrier"

definition keeps_orders :: "'s queued_write list \<Rightarrow> 's queued_write list \<Rightarrow> bool" where
  "keeps_orders xs ys \<longleftrightarrow>
     filter in_text_order xs = filter in_text_order ys \<and> filter in_tool_order xs = filter in_tool_order ys"

lemma keeps_orders_refl [simp]: "keeps_orders xs xs"
  by (simp add: keeps_orders_def)

lemma keeps_orders_append: "keeps_orders xs ys \<Longrightarrow> keeps_orders xs' ys' \<Longrightarrow> keeps_orders (xs @ xs') (ys @ ys')"
  by (simp add: keeps_orders_def)

lemma keeps_orders_trans: "keeps_orders xs ys \<Longrightarrow> keeps_orders ys zs \<Longrightarrow> keeps_orders xs zs"
  by (simp add: keeps_orders_def)

lemma mset_text_or_tool:
  "mset xs = mset (filter in_text_order xs) + mset (filter (\<lambda>q. \<not> in_text_order q) (filter in_tool_order xs))"
proof -
  have "filter (\<lambda>q. \<not> in_text_order q) (filter in_tool_order xs) = filter (\<lambda>q. \<not> in_text_order q) xs"
    by (induction xs) (auto simp: in_text_order_def in_tool_order_def)
  then show ?thesis using multiset_partition [of "mset xs" in_text_order] by (simp only: mset_filter)
qed

lemma keeps_orders_mset: "keeps_orders xs ys \<Longrightarrow> mset xs = mset ys"
  by (simp only: keeps_orders_def mset_text_or_tool [of xs] mset_text_or_tool [of ys])

text \<open>What a batch looks like: only its last write may be a control write.\<close>

definition controls_last :: "'s queued_write list \<Rightarrow> bool" where
  "controls_last qs \<longleftrightarrow> (\<forall>q \<in> set (butlast qs). is_stream (boundary (queued q)))"

lemma take_loop_spec:
  "take_loop sz batch b n qs c = (batch', rest, c') \<Longrightarrow>
     \<exists>taken. batch' = batch @ taken \<and> qs = taken @ rest \<and> c' = fold (release sz) taken c
       \<and> controls_last taken \<and> (batch = [] \<and> qs \<noteq> [] \<longrightarrow> taken \<noteq> [])"
proof (induction sz batch b n qs c rule: take_loop.induct)
  case (2 sz batch b n q qs c)
  let ?stop = "batch \<noteq> [] \<and> is_subagent (queued (hd batch)) \<noteq> is_subagent (queued q)
     \<or> batch \<noteq> [] \<and> (MAX_BATCH_BYTES < u64_add b (estimated_bytes sz (queued q))
                       \<or> MAX_BATCH_OPERATIONS < u64_add n (operation_count (queued q)))"
  consider "?stop" | "\<not> ?stop" "\<not> is_stream (boundary (queued q))" | "\<not> ?stop" "is_stream (boundary (queued q))"
    by blast
  then show ?case
  proof cases
    case 1
    with 2(2) show ?thesis by (intro exI [of _ "[]"]) (auto simp: Let_def controls_last_def split: if_splits)
  next
    case c2: 2
    with "2.prems" show ?thesis by (intro exI [of _ "[q]"]) (auto simp: Let_def controls_last_def split: if_splits)
  next
    case 3
    with "2.prems" have
      "take_loop sz (batch @ [q]) (u64_add b (estimated_bytes sz (queued q))) (u64_add n (operation_count (queued q))) qs
         (release sz q c) = (batch', rest, c')"
      by (auto simp: Let_def split: if_splits)
    with "2.IH" [OF refl refl] 3 obtain taken where
      "batch' = (batch @ [q]) @ taken" "qs = taken @ rest" "c' = fold (release sz) taken (release sz q c)"
      "controls_last taken"
      by (auto split: if_splits)
    with 3 show ?thesis by (intro exI [of _ "q # taken"]) (auto simp: controls_last_def)
  qed
qed (simp add: controls_last_def)

lemma text_loop_spec:
  "text_loop sz selected retained b n qs = (selected', retained') \<Longrightarrow> first_control_boundary qs = Some TextBarrier \<Longrightarrow>
     \<exists>taken kept. selected' = selected @ taken \<and> retained' = retained @ kept \<and> keeps_orders (taken @ kept) qs
       \<and> controls_last taken \<and> (\<forall>q \<in> set taken. boundary (queued q) = TextStream \<or> boundary (queued q) = TextBarrier)
       \<and> (selected = [] \<longrightarrow> taken \<noteq> [])"
proof (induction sz selected retained b n qs rule: text_loop.induct)
  case (2 sz selected retained b n q qs)
  show ?case
  proof (cases "boundary (queued q)")
    case Stream
    with 2 have "\<exists>taken kept. selected' = selected @ taken \<and> retained' = (retained @ [q]) @ kept \<and> keeps_orders (taken @ kept) qs
       \<and> controls_last taken \<and> (\<forall>q \<in> set taken. boundary (queued q) = TextStream \<or> boundary (queued q) = TextBarrier)
       \<and> (selected = [] \<longrightarrow> taken \<noteq> [])"
      by (simp add: is_stream_def)
    then obtain taken kept where h: "selected' = selected @ taken" "retained' = (retained @ [q]) @ kept"
      "keeps_orders (taken @ kept) qs" "controls_last taken"
      "\<forall>q \<in> set taken. boundary (queued q) = TextStream \<or> boundary (queued q) = TextBarrier" "selected = [] \<longrightarrow> taken \<noteq> []"
      by blast
    have "filter in_tool_order taken = []"
      using h(5) by (auto simp: in_tool_order_def filter_empty_conv)
    with h(3) Stream have "keeps_orders (taken @ q # kept) (q # qs)"
      by (auto simp: keeps_orders_def in_text_order_def in_tool_order_def)
    with h show ?thesis by (intro exI [of _ taken] exI [of _ "q # kept"]) simp
  next
    case TextStream
    let ?nb = "u64_add b (estimated_bytes sz (queued q))" and ?no = "u64_add n (operation_count (queued q))"
    show ?thesis
    proof (cases "selected \<noteq> [] \<and> (MAX_BATCH_BYTES < ?nb \<or> MAX_BATCH_OPERATIONS < ?no)")
      case True
      with 2 TextStream show ?thesis
        by (intro exI [of _ "[]"] exI [of _ "q # qs"]) (auto simp: Let_def controls_last_def)
    next
      case False
      with 2 TextStream have "\<exists>taken kept. selected' = (selected @ [q]) @ taken \<and> retained' = retained @ kept \<and> keeps_orders (taken @ kept) qs
         \<and> controls_last taken \<and> (\<forall>q \<in> set taken. boundary (queued q) = TextStream \<or> boundary (queued q) = TextBarrier)"
        by (simp add: is_stream_def Let_def)
      then obtain taken kept where h: "selected' = (selected @ [q]) @ taken" "retained' = retained @ kept"
        "keeps_orders (taken @ kept) qs" "controls_last taken"
        "\<forall>q \<in> set taken. boundary (queued q) = TextStream \<or> boundary (queued q) = TextBarrier"
        by blast
      with TextStream show ?thesis
        by (intro exI [of _ "q # taken"] exI [of _ kept])
          (auto simp: keeps_orders_def controls_last_def is_stream_def in_text_order_def)
    qed
  next
    case TextBarrier
    with 2 show ?thesis
      by (intro exI [of _ "[q]"] exI [of _ qs]) (auto simp: controls_last_def)
  next
    case Barrier
    with 2 show ?thesis by (simp add: is_stream_def)
  qed
qed simp

section \<open>Accounting\<close>

definition covers :: "'s journal_sizes \<Rightarrow> 's queued_write list \<Rightarrow> counters \<Rightarrow> bool" where
  "covers sz qs c \<longleftrightarrow>
     stream_total sz qs \<le> lane_bytes c \<and> lane_bytes c \<le> total_bytes c
     \<and> control_total qs \<le> lane_controls c \<and> lane_controls c \<le> total_controls c"

lemma release_covered:
  assumes "covers sz (q # qs) c"
  shows "release sz q c = release_saturating sz q c" "covers sz qs (release sz q c)"
    "lane_bytes (release sz q c) + stream_total sz [q] = lane_bytes c"
    "total_bytes (release sz q c) + stream_total sz [q] = total_bytes c"
    "lane_controls (release sz q c) + control_total [q] = lane_controls c"
    "total_controls (release sz q c) + control_total [q] = total_controls c"
proof -
  let ?s = "is_stream (boundary (queued q))" and ?n = "estimated_bytes sz (queued q)"
  from assms have c: "?s \<Longrightarrow> ?n + stream_total sz qs \<le> lane_bytes c" "\<not> ?s \<Longrightarrow> 1 + control_total qs \<le> lane_controls c"
    "lane_bytes c \<le> total_bytes c" "lane_controls c \<le> total_controls c"
    "stream_total sz qs \<le> lane_bytes c" "control_total qs \<le> lane_controls c"
    by (simp_all add: covers_def)
  have sub: "?s \<Longrightarrow> u64_sub (lane_bytes c) ?n = lane_bytes c - ?n" "?s \<Longrightarrow> u64_sub (total_bytes c) ?n = total_bytes c - ?n"
    "\<not> ?s \<Longrightarrow> u64_sub (lane_controls c) 1 = lane_controls c - 1"
    "\<not> ?s \<Longrightarrow> u64_sub (total_controls c) 1 = total_controls c - 1"
    using c by (simp_all add: u64_sub_def)
  show eq: "release sz q c = release_saturating sz q c"
  proof (cases ?s)
    case True
    show ?thesis by (simp only: release_def release_saturating_def Let_def if_True True sub(1,2) [OF True])
  next
    case False
    show ?thesis by (simp only: release_def release_saturating_def Let_def if_False False sub(3,4) [OF False])
  qed
  have fields:
    "lane_bytes (release sz q c) = (if ?s then lane_bytes c - ?n else lane_bytes c)"
    "total_bytes (release sz q c) = (if ?s then total_bytes c - ?n else total_bytes c)"
    "lane_controls (release sz q c) = (if ?s then lane_controls c else lane_controls c - 1)"
    "total_controls (release sz q c) = (if ?s then total_controls c else total_controls c - 1)"
    by (simp_all add: eq release_saturating_def Let_def)
  have "covers sz qs (release sz q c)
    \<and> lane_bytes (release sz q c) + stream_total sz [q] = lane_bytes c
    \<and> total_bytes (release sz q c) + stream_total sz [q] = total_bytes c
    \<and> lane_controls (release sz q c) + control_total [q] = lane_controls c
    \<and> total_controls (release sz q c) + control_total [q] = total_controls c"
  proof (cases ?s)
    case True
    with c(1) [OF True] c(3-6) show ?thesis unfolding covers_def fields by (simp, linarith)
  next
    case False
    with c(2) [OF False] c(3-6) show ?thesis unfolding covers_def fields by (simp, linarith)
  qed
  then show "covers sz qs (release sz q c)"
    "lane_bytes (release sz q c) + stream_total sz [q] = lane_bytes c"
    "total_bytes (release sz q c) + stream_total sz [q] = total_bytes c"
    "lane_controls (release sz q c) + control_total [q] = lane_controls c"
    "total_controls (release sz q c) + control_total [q] = total_controls c"
    by blast+
qed

lemma fold_release_covered:
  assumes "covers sz qs c"
  shows "fold (release_saturating sz) qs c = fold (release sz) qs c
    \<and> lane_bytes (fold (release sz) qs c) + stream_total sz qs = lane_bytes c
    \<and> total_bytes (fold (release sz) qs c) + stream_total sz qs = total_bytes c
    \<and> lane_controls (fold (release sz) qs c) + control_total qs = lane_controls c
    \<and> total_controls (fold (release sz) qs c) + control_total qs = total_controls c"
  using assms
proof (induction qs arbitrary: c)
  case (Cons q qs)
  note r = release_covered [OF Cons.prems]
  have split: "stream_total sz (q # qs) = stream_total sz [q] + stream_total sz qs"
    "control_total (q # qs) = control_total [q] + control_total qs" by simp_all
  show ?case
    unfolding fold_simps r(1) [symmetric] split
    using Cons.IH [OF r(2)] r(3-6) by linarith
qed simp

section \<open>The invariant\<close>

definition queue_of :: "string \<Rightarrow> 's scheduler_state \<Rightarrow> 's queued_write list" where
  "queue_of t st = (case map_of (pending st) t of None \<Rightarrow> [] | Some p \<Rightarrow> writes p)"

definition lane_ok :: "'s journal_sizes \<Rightarrow> string \<Rightarrow> 's pending_task \<Rightarrow> bool" where
  "lane_ok sz t p \<longleftrightarrow>
     writes p \<noteq> [] \<and> (\<forall>q \<in> set (writes p). write_task_id (queued q) = t)
     \<and> stream_bytes p = stream_total sz (writes p) \<and> control_writes p = control_total (writes p)"

definition sched_ok :: "'s journal_sizes \<Rightarrow> 's scheduler_state \<Rightarrow> bool" where
  "sched_ok sz st \<longleftrightarrow>
     keys_distinct (pending st) \<and> distinct (ready st)
     \<and> (\<forall>t. t \<in> set (ready st) \<longleftrightarrow> map_of (pending st) t \<noteq> None)
     \<and> (\<forall>t p. map_of (pending st) t = Some p \<longrightarrow> lane_ok sz t p \<and> stream_bytes p \<le> peak_task_stream_bytes st)
     \<and> global_stream_bytes st = alist_sum stream_bytes (pending st)
     \<and> global_control_writes st = alist_sum control_writes (pending st)
     \<and> global_stream_bytes st \<le> peak_global_stream_bytes st
     \<and> peak_global_stream_bytes st \<le> GLOBAL_STREAM_BYTE_CAPACITY
     \<and> peak_task_stream_bytes st \<le> PER_TASK_STREAM_BYTE_CAPACITY
     \<and> global_control_writes st \<le> CONTROL_CAPACITY"

lemma sched_ok_new: "sched_ok sz new_scheduler"
  by (simp add: sched_ok_def new_scheduler_def)

lemmas sched_okD = sched_ok_def [THEN iffD1, rule_format]

lemma put_back_ok:
  assumes ok: "sched_ok sz st" and front: "ready st = t # ready'" and p: "map_of (pending st) t = Some p"
    and split: "mset (writes p) = mset taken + mset kept"
    and c: "lane_bytes c = stream_total sz kept" "lane_controls c = control_total kept"
      "total_bytes c + stream_total sz taken = global_stream_bytes st"
      "total_controls c + control_total taken = global_control_writes st"
  shows "sched_ok sz (put_back t kept c (st\<lparr>ready := ready'\<rparr>))"
proof -
  note inv = ok [unfolded sched_ok_def]
  from inv p have lane: "lane_ok sz t p" "stream_bytes p \<le> peak_task_stream_bytes st" by blast+
  from split have "mset (writes p) = mset (taken @ kept)" by simp
  from totals_cong_mset [OF this] lane(1)
  have sums: "stream_bytes p = stream_total sz taken + stream_total sz kept" "control_writes p = control_total taken + control_total kept"
    by (simp_all add: lane_ok_def)
  from split lane(1) have ids: "\<forall>q \<in> set kept. write_task_id (queued q) = t"
    by (metis UnCI lane_ok_def set_append set_mset_mset mset_append)
  from inv have "\<forall>x. x \<in> set (ready st) \<longleftrightarrow> map_of (pending st) x \<noteq> None" "distinct (ready st)" by blast+
  then have rd: "\<forall>x. x \<in> set ready' \<longleftrightarrow> x \<noteq> t \<and> map_of (pending st) x \<noteq> None" "distinct ready'" "t \<notin> set ready'"
    unfolding front by (auto simp: p)
  show ?thesis
  proof (cases "kept = []")
    case True
    with sums c have "total_bytes c + stream_bytes p = global_stream_bytes st" "total_controls c + control_writes p = global_control_writes st"
      by simp_all
    with alist_sum_delete [of "pending st" t p stream_bytes] alist_sum_delete [of "pending st" t p control_writes] inv p
    have "total_bytes c = alist_sum stream_bytes (AList.delete t (pending st))"
      "total_controls c = alist_sum control_writes (AList.delete t (pending st))" by linarith+
    with True inv rd c show ?thesis
      by (auto simp: put_back_def Let_def sched_ok_def alist_simps)
  next
    case False
    let ?p = "\<lparr>writes = kept, queued_bytes = queue_bytes c, queued_operations = queue_operations c,
               stream_bytes = lane_bytes c, control_writes = lane_controls c\<rparr>"
    have "lane_ok sz t ?p" using False ids c by (simp add: lane_ok_def)
    moreover have "stream_bytes ?p \<le> peak_task_stream_bytes st" using sums lane(2) c by simp
    moreover from alist_sum_update [of "pending st" t p stream_bytes ?p] alist_sum_update [of "pending st" t p control_writes ?p] inv p sums c
    have "total_bytes c = alist_sum stream_bytes (AList.update t ?p (pending st))"
      "total_controls c = alist_sum control_writes (AList.update t ?p (pending st))"
      by simp_all
    ultimately show ?thesis using False inv rd c
      by (auto simp: put_back_def Let_def sched_ok_def alist_simps)
  qed
qed

lemma put_back_queue:
  "queue_of x (put_back t kept c st) = (if x = t then kept else queue_of x st)"
  "ready (put_back t kept c st) = ready st @ (if kept = [] then [] else [t])"
  by (simp_all add: put_back_def queue_of_def Let_def alist_simps)

lemma put_back_control:
  "reset_reply (put_back t kept c st) = reset_reply st" "resetting (put_back t kept c st) = resetting st"
  "purge_reply (put_back t kept c st) = purge_reply st" "purging (put_back t kept c st) = purging st"
  "shutdown_reply (put_back t kept c st) = shutdown_reply st" "closed (put_back t kept c st) = closed st"
  by (simp_all add: put_back_def Let_def)

lemma counters_cover:
  assumes "sched_ok sz st" "map_of (pending st) t = Some p" "mset (writes p) = mset taken + mset kept"
  shows "covers sz taken (counters_of p st)"
    "lane_bytes (counters_of p st) = stream_total sz taken + stream_total sz kept"
    "lane_controls (counters_of p st) = control_total taken + control_total kept"
proof -
  from assms(1,2) have lane: "lane_ok sz t p" "global_stream_bytes st = alist_sum stream_bytes (pending st)"
    "global_control_writes st = alist_sum control_writes (pending st)"
    unfolding sched_ok_def by blast+
  from assms(3) have "mset (writes p) = mset (taken @ kept)" by simp
  from totals_cong_mset [OF this] lane(1)
  show s: "lane_bytes (counters_of p st) = stream_total sz taken + stream_total sz kept"
    "lane_controls (counters_of p st) = control_total taken + control_total kept"
    by (simp_all add: lane_ok_def counters_of_def)
  from s lane alist_sum_ge [OF assms(2), of stream_bytes] alist_sum_ge [OF assms(2), of control_writes]
  show "covers sz taken (counters_of p st)"
    by (simp add: covers_def counters_of_def)
qed

text \<open>Taking the front batch succeeds, keeps the invariant, and takes from the front Task's queue only.\<close>

lemma take_ready_ok:
  assumes ok: "sched_ok sz st" and front: "ready st = t # ready'"
  obtains batch st' where
    "take_ready sz st = (NextBatch t batch, st')" "sched_ok sz st'" "batch \<noteq> []" "controls_last batch"
    "keeps_orders (batch @ queue_of t st') (queue_of t st)"
    "\<And>x. x \<noteq> t \<Longrightarrow> queue_of x st' = queue_of x st"
    "ready st' = ready' @ (if queue_of t st' = [] then [] else [t])"
    "reset_reply st' = reset_reply st" "resetting st' = resetting st" "purge_reply st' = purge_reply st"
    "purging st' = purging st" "shutdown_reply st' = shutdown_reply st" "closed st' = closed st"
    "\<exists>p. map_of (pending st) t = Some p \<and>
       (if first_control_boundary (writes p) = Some TextBarrier then \<exists>kept. text_loop sz [] [] 0 0 (writes p) = (batch, kept)
        else \<exists>kept c. take_loop sz [] 0 0 (writes p) (counters_of p st) = (batch, kept, c))"
proof -
  from ok front have "map_of (pending st) t \<noteq> None" unfolding sched_ok_def by (metis list.set_intros(1))
  then obtain p where p: "map_of (pending st) t = Some p" by blast
  with ok have ne: "writes p \<noteq> []" unfolding sched_ok_def lane_ok_def by blast
  let ?st = "st\<lparr>ready := ready'\<rparr>"
  have cs: "counters_of p ?st = counters_of p st" by (simp add: counters_of_def)
  obtain batch kept c where b: "take_batch sz t ?st = Some (batch, put_back t kept c ?st)"
    "keeps_orders (batch @ kept) (writes p)" "batch \<noteq> []" "controls_last batch" "c = fold (release sz) batch (counters_of p st)"
    "if first_control_boundary (writes p) = Some TextBarrier then text_loop sz [] [] 0 0 (writes p) = (batch, kept)
     else take_loop sz [] 0 0 (writes p) (counters_of p st) = (batch, kept, c)"
  proof (cases "first_control_boundary (writes p) = Some TextBarrier")
    case True
    obtain batch kept where l: "text_loop sz [] [] 0 0 (writes p) = (batch, kept)" by (cases "text_loop sz [] [] 0 0 (writes p)")
    with text_loop_spec [OF l True] have s: "keeps_orders (batch @ kept) (writes p)" "controls_last batch" "batch \<noteq> []" by auto
    from keeps_orders_mset [OF s(1)] have "mset (writes p) = mset batch + mset kept" by simp
    from fold_release_covered [OF counters_cover(1) [OF ok p this]]
    have "fold (release_saturating sz) batch (counters_of p st) = fold (release sz) batch (counters_of p st)" by blast
    with True l s p cs show ?thesis by (intro that) (simp_all add: take_batch_def)
  next
    case False
    obtain batch kept c where l: "take_loop sz [] 0 0 (writes p) (counters_of p st) = (batch, kept, c)"
      by (cases "take_loop sz [] 0 0 (writes p) (counters_of p st)")
    with take_loop_spec [OF l] ne have s: "writes p = batch @ kept" "controls_last batch" "batch \<noteq> []"
      "c = fold (release sz) batch (counters_of p st)" by auto
    with False l p cs show ?thesis by (intro that) (simp_all add: take_batch_def)
  qed
  from keeps_orders_mset [OF b(2)] have split: "mset (writes p) = mset batch + mset kept" by simp
  note cov = counters_cover [OF ok p split]
  from fold_release_covered [OF cov(1)] cov(2,3) b(5)
  have c: "lane_bytes c = stream_total sz kept" "lane_controls c = control_total kept"
    "total_bytes c + stream_total sz batch = global_stream_bytes st"
    "total_controls c + control_total batch = global_control_writes st"
    by (simp_all add: counters_of_def)
  have "queue_of t st = writes p" by (simp add: queue_of_def p)
  moreover have "queue_of x ?st = queue_of x st" for x by (simp add: queue_of_def)
  moreover have "take_ready sz st = (NextBatch t batch, put_back t kept c ?st)" by (simp add: take_ready_def front b(1))
  ultimately show ?thesis
    using b(2-6) p put_back_ok [OF ok front p split c]
    by (intro that [of batch "put_back t kept c ?st"])
      (auto simp: put_back_queue put_back_control split: if_splits)
qed

lemma enqueue_queue:
  "queue_of x (enqueue sz now w r st) =
     queue_of x st @ (if x = write_task_id w then [\<lparr>queued = w, reply = r, admitted_at = now\<rparr>] else [])"
  by (auto simp: enqueue_def queue_of_def no_pending_def Let_def alist_simps split: option.splits)

lemma enqueue_control:
  "reset_reply (enqueue sz now w r st) = reset_reply st" "resetting (enqueue sz now w r st) = resetting st"
  "purge_reply (enqueue sz now w r st) = purge_reply st" "purging (enqueue sz now w r st) = purging st"
  "shutdown_reply (enqueue sz now w r st) = shutdown_reply st" "closed (enqueue sz now w r st) = closed st"
  by (simp_all add: enqueue_def Let_def)

lemma enqueue_ready:
  "ready (enqueue sz now w r st) = ready st @ (if map_of (pending st) (write_task_id w) = None then [write_task_id w] else [])"
  by (simp add: enqueue_def Let_def)

text \<open>The entry of the Task after an admission, with the counters it had.\<close>

definition grown :: "'s journal_sizes \<Rightarrow> nat \<Rightarrow> 's task_write \<Rightarrow> nat \<Rightarrow> 's scheduler_state \<Rightarrow> 's pending_task" where
  "grown sz now w r st =
     (let entry = (case map_of (pending st) (write_task_id w) of None \<Rightarrow> no_pending | Some p \<Rightarrow> p);
          entry1 = entry\<lparr>queued_bytes := sat_add64 (queued_bytes entry) (estimated_bytes sz w),
                         queued_operations := sat_add64 (queued_operations entry) (operation_count w),
                         writes := writes entry @ [\<lparr>queued = w, reply = r, admitted_at = now\<rparr>]\<rparr>
      in if is_stream (boundary w) then entry1\<lparr>stream_bytes := stream_bytes entry + estimated_bytes sz w\<rparr>
         else entry1\<lparr>control_writes := control_writes entry + 1\<rparr>)"

lemma capacities_small:
  "GLOBAL_STREAM_BYTE_CAPACITY + PER_TASK_STREAM_BYTE_CAPACITY < two64" "CONTROL_CAPACITY + 1 < two64"
  by (simp_all add: GLOBAL_STREAM_BYTE_CAPACITY_def PER_TASK_STREAM_BYTE_CAPACITY_def CONTROL_CAPACITY_def)

lemma entry_totals:
  assumes "sched_ok sz st" "entry = (case map_of (pending st) t of None \<Rightarrow> no_pending | Some p \<Rightarrow> p)"
  shows "stream_bytes entry = stream_total sz (writes entry)" "control_writes entry = control_total (writes entry)"
    "\<forall>q \<in> set (writes entry). write_task_id (queued q) = t"
    "stream_bytes entry = task_stream_bytes t st" "control_writes entry \<le> global_control_writes st"
    "stream_bytes entry \<le> global_stream_bytes st"
proof -
  have "map_of (pending st) t = Some p \<Longrightarrow> lane_ok sz t p" for p
    using assms(1) unfolding sched_ok_def by blast
  moreover have "global_stream_bytes st = alist_sum stream_bytes (pending st)"
    "global_control_writes st = alist_sum control_writes (pending st)"
    using assms(1) unfolding sched_ok_def by blast+
  moreover note alist_sum_ge [of "pending st" t _ stream_bytes] alist_sum_ge [of "pending st" t _ control_writes]
  ultimately show "stream_bytes entry = stream_total sz (writes entry)" "control_writes entry = control_total (writes entry)"
    "\<forall>q \<in> set (writes entry). write_task_id (queued q) = t"
    "stream_bytes entry = task_stream_bytes t st" "control_writes entry \<le> global_control_writes st"
    "stream_bytes entry \<le> global_stream_bytes st"
    unfolding assms(2) by (auto simp: lane_ok_def no_pending_def task_stream_bytes_def split: option.splits)
qed

lemma enqueue_grows:
  assumes ok: "sched_ok sz st" and room: "has_capacity sz w st"
  shows "pending (enqueue sz now w r st) = AList.update (write_task_id w) (grown sz now w r st) (pending st)"
    "global_stream_bytes (enqueue sz now w r st) = global_stream_bytes st + (if is_stream (boundary w) then estimated_bytes sz w else 0)"
    "global_control_writes (enqueue sz now w r st) = global_control_writes st + (if is_stream (boundary w) then 0 else 1)"
    "global_stream_bytes (enqueue sz now w r st) \<le> GLOBAL_STREAM_BYTE_CAPACITY"
    "global_control_writes (enqueue sz now w r st) \<le> CONTROL_CAPACITY"
    "stream_bytes (grown sz now w r st) \<le> PER_TASK_STREAM_BYTE_CAPACITY"
    "peak_global_stream_bytes (enqueue sz now w r st) = max (peak_global_stream_bytes st) (global_stream_bytes (enqueue sz now w r st))"
    "peak_task_stream_bytes (enqueue sz now w r st)
       = (if is_stream (boundary w) then max (peak_task_stream_bytes st) (stream_bytes (grown sz now w r st)) else peak_task_stream_bytes st)"
proof -
  let ?e = "case map_of (pending st) (write_task_id w) of None \<Rightarrow> no_pending | Some p \<Rightarrow> p"
  note e = entry_totals(4-6) [OF ok refl, of "write_task_id w"]
  from ok have g: "global_stream_bytes st \<le> peak_global_stream_bytes st" "global_stream_bytes st \<le> GLOBAL_STREAM_BYTE_CAPACITY"
    "global_control_writes st \<le> CONTROL_CAPACITY" "peak_task_stream_bytes st \<le> PER_TASK_STREAM_BYTE_CAPACITY"
    unfolding sched_ok_def by linarith+
  have t: "task_stream_bytes (write_task_id w) st \<le> PER_TASK_STREAM_BYTE_CAPACITY"
    using ok g(4) unfolding sched_ok_def task_stream_bytes_def by (fastforce split: option.splits)
  have s: "is_stream (boundary w) \<Longrightarrow> global_stream_bytes st + estimated_bytes sz w \<le> GLOBAL_STREAM_BYTE_CAPACITY"
    "is_stream (boundary w) \<Longrightarrow> stream_bytes ?e + estimated_bytes sz w \<le> PER_TASK_STREAM_BYTE_CAPACITY"
    "\<not> is_stream (boundary w) \<Longrightarrow> global_control_writes st + 1 \<le> CONTROL_CAPACITY"
    using room g t unfolding has_capacity_def e(1) by (auto split: if_splits)
  have u12: "u64_add (global_stream_bytes st) (estimated_bytes sz w) = global_stream_bytes st + estimated_bytes sz w"
    "u64_add (stream_bytes ?e) (estimated_bytes sz w) = stream_bytes ?e + estimated_bytes sz w" if "is_stream (boundary w)"
    using s(1,2) [OF that] capacities_small(1) by - (rule u64_add_small, linarith)+
  have u34: "u64_add (global_control_writes st) 1 = global_control_writes st + 1"
    "u64_add (control_writes ?e) 1 = control_writes ?e + 1" if "\<not> is_stream (boundary w)"
    using s(3) [OF that] e(2) capacities_small(2) by - (rule u64_add_small, linarith)+
  have fields: "pending (enqueue sz now w r st) = AList.update (write_task_id w) (grown sz now w r st) (pending st)
    \<and> global_stream_bytes (enqueue sz now w r st) = global_stream_bytes st + (if is_stream (boundary w) then estimated_bytes sz w else 0)
    \<and> global_control_writes (enqueue sz now w r st) = global_control_writes st + (if is_stream (boundary w) then 0 else 1)
    \<and> peak_task_stream_bytes (enqueue sz now w r st)
       = (if is_stream (boundary w) then max (peak_task_stream_bytes st) (stream_bytes (grown sz now w r st)) else peak_task_stream_bytes st)
    \<and> peak_global_stream_bytes (enqueue sz now w r st) = max (peak_global_stream_bytes st) (global_stream_bytes (enqueue sz now w r st))"
  proof (cases "is_stream (boundary w)")
    case True
    show ?thesis unfolding enqueue_def grown_def Let_def u12 [OF True]
      by (simp only: True if_True) simp
  next
    case False
    show ?thesis unfolding enqueue_def grown_def Let_def u34 [OF False]
      by (simp only: False if_False) (simp add: g(1) max_absorb1)
  qed
  then show "pending (enqueue sz now w r st) = AList.update (write_task_id w) (grown sz now w r st) (pending st)"
    "global_stream_bytes (enqueue sz now w r st) = global_stream_bytes st + (if is_stream (boundary w) then estimated_bytes sz w else 0)"
    "global_control_writes (enqueue sz now w r st) = global_control_writes st + (if is_stream (boundary w) then 0 else 1)"
    "peak_task_stream_bytes (enqueue sz now w r st)
       = (if is_stream (boundary w) then max (peak_task_stream_bytes st) (stream_bytes (grown sz now w r st)) else peak_task_stream_bytes st)"
    "peak_global_stream_bytes (enqueue sz now w r st) = max (peak_global_stream_bytes st) (global_stream_bytes (enqueue sz now w r st))"
    by blast+
  from fields show "global_stream_bytes (enqueue sz now w r st) \<le> GLOBAL_STREAM_BYTE_CAPACITY"
    "global_control_writes (enqueue sz now w r st) \<le> CONTROL_CAPACITY"
    using s(1,3) g(2,3) by (cases "is_stream (boundary w)"; simp)+
  show "stream_bytes (grown sz now w r st) \<le> PER_TASK_STREAM_BYTE_CAPACITY"
    using s(2) t e(1) by (simp add: grown_def Let_def)
qed

lemma enqueue_ok:
  assumes ok: "sched_ok sz st" and room: "has_capacity sz w st"
  shows "sched_ok sz (enqueue sz now w r st)"
proof -
  let ?t = "write_task_id w" and ?g = "grown sz now w r st" and ?st' = "enqueue sz now w r st"
  let ?e = "case map_of (pending st) ?t of None \<Rightarrow> no_pending | Some p \<Rightarrow> p"
  note grows = enqueue_grows [OF ok room, of now r]
  note inv = ok [unfolded sched_ok_def]
  have lane: "lane_ok sz ?t ?g"
    using entry_totals(1-3) [OF ok refl, of ?t] by (auto simp: lane_ok_def grown_def Let_def)
  have old: "stream_bytes p \<le> peak_task_stream_bytes st" "lane_ok sz x p" if "map_of (pending st) x = Some p" for x p
    using inv that by blast+
  have entry: "stream_bytes ?e \<le> peak_task_stream_bytes st" using old(1) by (auto simp: no_pending_def split: option.splits)
  have lanes: "lane_ok sz x p \<and> stream_bytes p \<le> peak_task_stream_bytes ?st'" if "map_of (pending ?st') x = Some p" for x p
    using that lane old [of x p] entry unfolding grows(1,8) by (auto simp: alist_simps grown_def Let_def split: if_splits)
  have sums: "global_stream_bytes ?st' = alist_sum stream_bytes (pending ?st')"
    "global_control_writes ?st' = alist_sum control_writes (pending ?st')"
  proof -
    have "alist_sum f (AList.update ?t ?g (pending st)) + f ?e = alist_sum f (pending st) + f ?g" if "f no_pending = 0" for f
      using that alist_sum_update [of "pending st" ?t _ f ?g] alist_sum_update_new [of "pending st" ?t f ?g]
      by (cases "map_of (pending st) ?t") auto
    from this [of stream_bytes] this [of control_writes]
    have upd: "alist_sum stream_bytes (pending ?st') + stream_bytes ?e = global_stream_bytes st + stream_bytes ?g"
      "alist_sum control_writes (pending ?st') + control_writes ?e = global_control_writes st + control_writes ?g"
      unfolding grows(1) using inv by (simp_all add: no_pending_def)
    have "stream_bytes ?g = stream_bytes ?e + (if is_stream (boundary w) then estimated_bytes sz w else 0)"
      "control_writes ?g = control_writes ?e + (if is_stream (boundary w) then 0 else 1)"
      by (simp_all add: grown_def Let_def)
    with upd show "global_stream_bytes ?st' = alist_sum stream_bytes (pending ?st')"
      "global_control_writes ?st' = alist_sum control_writes (pending ?st')"
      unfolding grows(2,3) by linarith+
  qed
  have rd: "x \<in> set (ready ?st') \<longleftrightarrow> map_of (pending ?st') x \<noteq> None" "distinct (ready ?st')" for x
    unfolding enqueue_ready grows(1) using inv by (auto simp: alist_simps)
  have "peak_task_stream_bytes ?st' \<le> PER_TASK_STREAM_BYTE_CAPACITY" "keys_distinct (pending ?st')"
    using grows(6,8) inv unfolding grows(1) by auto
  moreover have "global_stream_bytes ?st' \<le> peak_global_stream_bytes ?st'"
    "peak_global_stream_bytes ?st' \<le> GLOBAL_STREAM_BYTE_CAPACITY"
    using grows(4,7) inv by auto
  ultimately show ?thesis
    unfolding sched_ok_def using rd lanes sums grows(5) by blast
qed

section \<open>The limits of a batch\<close>

text \<open>What callers submit: vectors within memory, and Subagent writes with the boundaries they are built with.\<close>

definition proper_write :: "'s queued_write \<Rightarrow> bool" where
  "proper_write q \<longleftrightarrow>
     operation_count (queued q) < 2 ^ 63
     \<and> (is_subagent (queued q) \<longrightarrow> boundary (queued q) = Stream \<or> boundary (queued q) = Barrier)"

definition bytes_total :: "'s journal_sizes \<Rightarrow> 's queued_write list \<Rightarrow> nat" where
  "bytes_total sz qs = sum_list (map (estimated_bytes sz \<circ> queued) qs)"

definition operations_total :: "'s queued_write list \<Rightarrow> nat" where
  "operations_total qs = sum_list (map (operation_count \<circ> queued) qs)"

lemma batch_totals_simps [simp]:
  "bytes_total sz [] = 0" "bytes_total sz (xs @ [q]) = bytes_total sz xs + estimated_bytes sz (queued q)"
  "operations_total [] = 0" "operations_total (xs @ [q]) = operations_total xs + operation_count (queued q)"
  by (simp_all add: bytes_total_def operations_total_def)

definition within_limits :: "'s journal_sizes \<Rightarrow> 's queued_write list \<Rightarrow> bool" where
  "within_limits sz qs \<longleftrightarrow>
     length qs \<le> 1 \<or> bytes_total sz qs \<le> MAX_BATCH_BYTES \<and> operations_total qs \<le> MAX_BATCH_OPERATIONS"

definition stream_part :: "'s queued_write list \<Rightarrow> 's queued_write list" where
  "stream_part qs = filter (\<lambda>q. is_stream (boundary (queued q))) qs"

definition batch_ok :: "'s journal_sizes \<Rightarrow> 's queued_write list \<Rightarrow> bool" where
  "batch_ok sz b \<longleftrightarrow>
     b \<noteq> [] \<and> controls_last b \<and> (\<forall>q \<in> set b. is_subagent (queued q) = is_subagent (queued (hd b)))
     \<and> within_limits sz (stream_part b)"

definition small_stream :: "'s journal_sizes \<Rightarrow> 's queued_write \<Rightarrow> bool" where
  "small_stream sz q \<longleftrightarrow>
     proper_write q \<and> (is_stream (boundary (queued q)) \<longrightarrow> estimated_bytes sz (queued q) \<le> PER_TASK_STREAM_BYTE_CAPACITY)"

text \<open>Adding a stream write to a batch within its limits does not wrap, and keeps the limits if the loop admits it.\<close>

lemma batch_sums_exact:
  assumes "within_limits sz batch" "\<forall>x \<in> set (batch @ [q]). small_stream sz x \<and> is_stream (boundary (queued x))"
  shows "u64_add (bytes_total sz batch) (estimated_bytes sz (queued q)) = bytes_total sz (batch @ [q])"
    "u64_add (operations_total batch) (operation_count (queued q)) = operations_total (batch @ [q])"
proof -
  have bound: "bytes_total sz batch \<le> PER_TASK_STREAM_BYTE_CAPACITY" "operations_total batch < 2 ^ 63"
  proof -
    consider "batch = []" | x where "batch = [x]"
      | "bytes_total sz batch \<le> MAX_BATCH_BYTES" "operations_total batch \<le> MAX_BATCH_OPERATIONS"
      using assms(1) unfolding within_limits_def by (cases batch; cases "tl batch") auto
    then have "bytes_total sz batch \<le> PER_TASK_STREAM_BYTE_CAPACITY \<and> operations_total batch < 2 ^ 63"
      using assms(2)
      by cases (auto simp: bytes_total_def operations_total_def small_stream_def proper_write_def
          MAX_BATCH_BYTES_def MAX_BATCH_OPERATIONS_def PER_TASK_STREAM_BYTE_CAPACITY_def)
    then show "bytes_total sz batch \<le> PER_TASK_STREAM_BYTE_CAPACITY" "operations_total batch < 2 ^ 63" by blast+
  qed
  from assms(2) have "estimated_bytes sz (queued q) \<le> PER_TASK_STREAM_BYTE_CAPACITY" "operation_count (queued q) < 2 ^ 63"
    by (simp_all add: small_stream_def proper_write_def)
  with bound have "bytes_total sz batch + estimated_bytes sz (queued q) < two64"
    "operations_total batch + operation_count (queued q) < two64"
    by (simp_all add: PER_TASK_STREAM_BYTE_CAPACITY_def)
  then show "u64_add (bytes_total sz batch) (estimated_bytes sz (queued q)) = bytes_total sz (batch @ [q])"
    "u64_add (operations_total batch) (operation_count (queued q)) = operations_total (batch @ [q])"
    by (simp_all add: u64_add_small)
qed

lemma within_limits_grow:
  assumes "batch = [] \<or> bytes_total sz (batch @ [q]) \<le> MAX_BATCH_BYTES \<and> operations_total (batch @ [q]) \<le> MAX_BATCH_OPERATIONS"
  shows "within_limits sz (batch @ [q])"
  using assms by (auto simp: within_limits_def)

lemma take_loop_limits:
  "take_loop sz batch (bytes_total sz batch) (operations_total batch) qs c = (batch', rest, c') \<Longrightarrow>
   \<forall>q \<in> set (batch @ qs). small_stream sz q \<Longrightarrow> \<forall>q \<in> set batch. is_stream (boundary (queued q)) \<Longrightarrow> within_limits sz batch \<Longrightarrow>
     within_limits sz (stream_part batch')"
proof (induction qs arbitrary: batch c)
  case Nil
  then show ?case by (simp add: stream_part_def)
next
  case (Cons q qs)
  have keep: "stream_part batch = batch" using Cons.prems(3) by (simp add: stream_part_def)
  let ?nb = "u64_add (bytes_total sz batch) (estimated_bytes sz (queued q))"
  let ?no = "u64_add (operations_total batch) (operation_count (queued q))"
  let ?stop = "batch \<noteq> [] \<and> is_subagent (queued (hd batch)) \<noteq> is_subagent (queued q)
     \<or> batch \<noteq> [] \<and> (MAX_BATCH_BYTES < ?nb \<or> MAX_BATCH_OPERATIONS < ?no)"
  consider "?stop" | "\<not> ?stop" "\<not> is_stream (boundary (queued q))" | "\<not> ?stop" "is_stream (boundary (queued q))"
    by blast
  then show ?case
  proof cases
    case 1
    then have "batch' = batch" using Cons.prems(1) by (auto simp: Let_def split: if_splits)
    with Cons.prems(4) keep show ?thesis by simp
  next
    case 2
    then have "batch' = batch @ [q]" using Cons.prems(1) by (auto simp: Let_def split: if_splits)
    with 2 Cons.prems(4) keep show ?thesis by (simp add: stream_part_def)
  next
    case 3
    have all: "\<forall>x \<in> set (batch @ [q]). small_stream sz x \<and> is_stream (boundary (queued x))"
      using Cons.prems(2,3) 3 by auto
    note sums = batch_sums_exact [OF Cons.prems(4) all]
    from 3 Cons.prems(1) have
      "take_loop sz (batch @ [q]) (bytes_total sz (batch @ [q])) (operations_total (batch @ [q])) qs (release sz q c) = (batch', rest, c')"
      unfolding sums [symmetric] by (auto simp: Let_def split: if_splits)
    moreover have "within_limits sz (batch @ [q])"
      using 3 unfolding sums by (intro within_limits_grow) auto
    moreover have "\<forall>x \<in> set ((batch @ [q]) @ qs). small_stream sz x" "\<forall>x \<in> set (batch @ [q]). is_stream (boundary (queued x))"
      using all Cons.prems(2) by auto
    ultimately show ?thesis by (intro Cons.IH)
  qed
qed

lemma take_loop_kind:
  "take_loop sz batch b n qs c = (batch', rest, c') \<Longrightarrow> \<forall>q \<in> set batch. is_subagent (queued q) = is_subagent (queued (hd batch)) \<Longrightarrow>
     \<forall>q \<in> set batch'. is_subagent (queued q) = is_subagent (queued (hd batch'))"
proof (induction sz batch b n qs c rule: take_loop.induct)
  case (2 sz batch b n q qs c)
  have grown: "\<forall>x \<in> set (batch @ [q]). is_subagent (queued x) = is_subagent (queued (hd (batch @ [q])))"
    if "batch = [] \<or> is_subagent (queued (hd batch)) = is_subagent (queued q)"
    using "2.prems"(2) that by (cases batch) auto
  let ?stop = "batch \<noteq> [] \<and> is_subagent (queued (hd batch)) \<noteq> is_subagent (queued q)
     \<or> batch \<noteq> [] \<and> (MAX_BATCH_BYTES < u64_add b (estimated_bytes sz (queued q))
                       \<or> MAX_BATCH_OPERATIONS < u64_add n (operation_count (queued q)))"
  show ?case
  proof (cases ?stop)
    case True
    then have "batch' = batch" using "2.prems"(1) by (auto simp: Let_def split: if_splits)
    with "2.prems"(2) show ?thesis by simp
  next
    case False
    then have kind: "batch = [] \<or> is_subagent (queued (hd batch)) = is_subagent (queued q)" by blast
    show ?thesis
    proof (cases "is_stream (boundary (queued q))")
      case True
      with False "2.prems"(1) have
        "take_loop sz (batch @ [q]) (u64_add b (estimated_bytes sz (queued q))) (u64_add n (operation_count (queued q))) qs
           (release sz q c) = (batch', rest, c')"
        by (auto simp: Let_def split: if_splits)
      from "2.IH" [OF refl refl _ _ True this grown [OF kind]] False show ?thesis by blast
    next
      case not_stream: False
      with False "2.prems"(1) have "batch' = batch @ [q]" by (auto simp: Let_def split: if_splits)
      with grown [OF kind] show ?thesis by simp
    qed
  qed
qed auto

lemma text_loop_limits:
  "text_loop sz selected retained (bytes_total sz selected) (operations_total selected) qs = (selected', retained') \<Longrightarrow>
   \<forall>q \<in> set (selected @ qs). small_stream sz q \<Longrightarrow> \<forall>q \<in> set selected. is_stream (boundary (queued q)) \<Longrightarrow> within_limits sz selected \<Longrightarrow>
     within_limits sz (stream_part selected')"
proof (induction qs arbitrary: selected retained)
  case Nil
  then show ?case by (simp add: stream_part_def)
next
  case (Cons q qs)
  have keep: "stream_part selected = selected" using Cons.prems(3) by (simp add: stream_part_def)
  show ?case
  proof (cases "boundary (queued q)")
    case TextStream
    have all: "\<forall>x \<in> set (selected @ [q]). small_stream sz x \<and> is_stream (boundary (queued x))"
      using Cons.prems(2,3) TextStream by (auto simp: is_stream_def)
    note sums = batch_sums_exact [OF Cons.prems(4) all]
    show ?thesis
    proof (cases "selected \<noteq> [] \<and> (MAX_BATCH_BYTES < bytes_total sz (selected @ [q]) \<or> MAX_BATCH_OPERATIONS < operations_total (selected @ [q]))")
      case True
      then have "selected' = selected" using Cons.prems(1) TextStream by (simp add: Let_def sums)
      with Cons.prems(4) keep show ?thesis by simp
    next
      case False
      then have "text_loop sz (selected @ [q]) retained (bytes_total sz (selected @ [q])) (operations_total (selected @ [q])) qs = (selected', retained')"
        using Cons.prems(1) TextStream by (simp only: text_loop.simps Let_def sums commit_boundary.simps if_False)
      moreover have "within_limits sz (selected @ [q])" using False by (intro within_limits_grow) auto
      moreover have "\<forall>x \<in> set ((selected @ [q]) @ qs). small_stream sz x" "\<forall>x \<in> set (selected @ [q]). is_stream (boundary (queued x))"
        using all Cons.prems(2) by auto
      ultimately show ?thesis by (intro Cons.IH)
    qed
  next
    case TextBarrier
    then have "selected' = selected @ [q]" using Cons.prems(1) by simp
    with TextBarrier Cons.prems(4) keep show ?thesis by (simp add: stream_part_def is_stream_def)
  next
    case Stream
    with Cons.prems show ?thesis by (auto intro!: Cons.IH)
  next
    case Barrier
    with Cons.prems show ?thesis by (auto intro!: Cons.IH)
  qed
qed

lemma sched_ok_small:
  assumes "sched_ok sz st" "q \<in> set (queue_of t st)" "is_stream (boundary (queued q))"
  shows "estimated_bytes sz (queued q) \<le> PER_TASK_STREAM_BYTE_CAPACITY"
proof -
  from assms(2) obtain p where p: "map_of (pending st) t = Some p" "q \<in> set (writes p)"
    by (cases "map_of (pending st) t") (simp_all add: queue_of_def)
  with assms(1) have "stream_total sz (writes p) \<le> PER_TASK_STREAM_BYTE_CAPACITY"
    unfolding sched_ok_def lane_ok_def by fastforce
  moreover have "estimated_bytes sz (queued q) \<le> stream_total sz (writes p)"
    unfolding stream_total_def using member_le_sum_list [of _ "map (\<lambda>q. if is_stream (boundary (queued q)) then estimated_bytes sz (queued q) else 0) (writes p)"] p(2) assms(3)
    by force
  ultimately show ?thesis by linarith
qed

text \<open>A batch from the front Task is within its limits when the Task's writes are proper.\<close>

lemma taken_batch_ok:
  assumes ok: "sched_ok sz st" and front: "ready st = t # ready'" and taken: "take_ready sz st = (NextBatch t batch, st')"
    and proper: "\<forall>q \<in> set (queue_of t st). proper_write q"
  shows "batch_ok sz batch"
proof -
  obtain batch0 st0 where h: "take_ready sz st = (NextBatch t batch0, st0)" "batch0 \<noteq> []" "controls_last batch0"
    "\<exists>p. map_of (pending st) t = Some p \<and>
       (if first_control_boundary (writes p) = Some TextBarrier then \<exists>kept. text_loop sz [] [] 0 0 (writes p) = (batch0, kept)
        else \<exists>kept c. take_loop sz [] 0 0 (writes p) (counters_of p st) = (batch0, kept, c))"
    by (rule take_ready_ok [OF ok front]) (rule that; assumption)
  from h(1) taken have same: "batch0 = batch" by simp
  from h(4) obtain p where p: "map_of (pending st) t = Some p"
    "if first_control_boundary (writes p) = Some TextBarrier then \<exists>kept. text_loop sz [] [] 0 0 (writes p) = (batch0, kept)
     else \<exists>kept c. take_loop sz [] 0 0 (writes p) (counters_of p st) = (batch0, kept, c)"
    by (elim exE conjE)
  note b = h(2,3) [unfolded same] p [unfolded same]
  have q: "queue_of t st = writes p" by (simp add: queue_of_def b(3))
  have small: "\<forall>x \<in> set (writes p). small_stream sz x"
    using proper sched_ok_small [OF ok, of _ t] unfolding small_stream_def q by blast
  have "within_limits sz (stream_part batch) \<and> (\<forall>x \<in> set batch. is_subagent (queued x) = is_subagent (queued (hd batch)))"
  proof (cases "first_control_boundary (writes p) = Some TextBarrier")
    case True
    from b(4) obtain kept where l: "text_loop sz [] [] 0 0 (writes p) = (batch, kept)" unfolding if_P [OF True] by blast
    from text_loop_spec [OF l True] have sub: "keeps_orders (batch @ kept) (writes p)"
      "\<forall>x \<in> set batch. boundary (queued x) = TextStream \<or> boundary (queued x) = TextBarrier" by auto
    from mset_eq_setD [OF keeps_orders_mset [OF sub(1)]] have "set batch \<subseteq> set (writes p)" by auto
    with small have "\<forall>x \<in> set batch. proper_write x" unfolding small_stream_def by blast
    with sub(2) have "\<forall>x \<in> set batch. \<not> is_subagent (queued x)"
      unfolding proper_write_def by force
    with b(1) have "\<forall>x \<in> set batch. is_subagent (queued x) = is_subagent (queued (hd batch))"
      by (meson hd_in_set)
    moreover have "within_limits sz (stream_part batch)"
      using text_loop_limits [of sz "[]" "[]" "writes p" batch kept] l small by (simp add: within_limits_def)
    ultimately show ?thesis by (rule conjI [rotated])
  next
    case False
    from b(4) obtain kept c where l: "take_loop sz [] 0 0 (writes p) (counters_of p st) = (batch, kept, c)"
      unfolding if_not_P [OF False] by blast
    have "within_limits sz (stream_part batch)"
      using take_loop_limits [of sz "[]" "writes p" "counters_of p st" batch kept c] l small by (simp add: within_limits_def)
    moreover have "\<forall>x \<in> set batch. is_subagent (queued x) = is_subagent (queued (hd batch))"
      by (rule take_loop_kind [OF l]) simp
    ultimately show ?thesis by (rule conjI)
  qed
  with b(1,2) show ?thesis unfolding batch_ok_def by blast
qed

end
