(* ===== verification/Journal_Scheduler_Facts.thy ===== *)
theory Journal_Scheduler_Facts
  imports Journal_Scheduler_Batches
begin

text \<open>
  What the write scheduler promises to callers and to the storage worker. The retained payload stays
  within its bounds and the counters are exact; a barrier reaches the worker after exactly the writes
  admitted before it; batches respect their limits; a shutdown drains every queue and ends. The
  scheduler is run by an arbitrary sequence of calls, with a log of what was admitted and handed out.
\<close>

section \<open>Running the scheduler\<close>

text \<open>
  The calls made on the scheduler, in the order in which they hold its lock. Only the worker asks for
  work; a timed wait can end by itself only when the worker is in one, and after \<open>fail_all\<close>, which
  the dying worker calls, there is no worker.
\<close>

datatype 's scheduler_call =
    CallAdmit nat "'s task_write" nat
  | CallTryAdmit nat "'s task_write" nat
  | CallShutdown nat
  | CallReset nat
  | CallPurge string nat
  | CallClose
  | WorkerNext nat bool
  | WorkerFinishReset
  | WorkerFinishPurge
  | WorkerDies string

record 's scheduler_run =
  core :: "'s scheduler_state"
  timed_wait :: bool
  worker_dead :: bool
  panicked :: bool
  admitted_log :: "'s queued_write list"
  handed_log :: "(string \<times> 's queued_write list) list"

definition start_run :: "'s scheduler_run" where
  "start_run = \<lparr>core = new_scheduler, timed_wait = False, worker_dead = False, panicked = False, admitted_log = [], handed_log = []\<rparr>"

definition request :: "(runtime_error + 's scheduler_state) \<Rightarrow> 's scheduler_run \<Rightarrow> 's scheduler_run" where
  "request result s = (case result of Inl _ \<Rightarrow> s | Inr st \<Rightarrow> s\<lparr>core := st\<rparr>)"

fun run_call :: "'s journal_sizes \<Rightarrow> 's scheduler_run \<Rightarrow> 's scheduler_call \<Rightarrow> 's scheduler_run" where
  "run_call sz s (CallAdmit now w r) =
     (case admit sz now w r (core s) of
        (Admitted, st) \<Rightarrow> s\<lparr>core := st, admitted_log := admitted_log s @ [\<lparr>queued = w, reply = r, admitted_at = now\<rparr>]\<rparr>
      | (_, st) \<Rightarrow> s\<lparr>core := st\<rparr>)"
| "run_call sz s (CallTryAdmit now w r) =
     (case try_admit sz now w r (core s) of
        (Inr None, st) \<Rightarrow> s\<lparr>core := st, admitted_log := admitted_log s @ [\<lparr>queued = w, reply = r, admitted_at = now\<rparr>]\<rparr>
      | (_, st) \<Rightarrow> s\<lparr>core := st\<rparr>)"
| "run_call sz s (CallShutdown r) = request (request_shutdown r (core s)) s"
| "run_call sz s (CallReset r) = request (request_reset r (core s)) s"
| "run_call sz s (CallPurge t r) = request (request_purge t r (core s)) s"
| "run_call sz s CallClose = s\<lparr>core := close (core s)\<rparr>"
| "run_call sz s (WorkerNext now timeout) =
     (if worker_dead s then s
      else (let (work, st) = next_iteration sz now (timeout \<and> timed_wait s) (core s);
                s1 = s\<lparr>core := st, timed_wait := (work = NextWaits \<and> ready st \<noteq> [])\<rparr>
            in case work of
                 NextBatch t batch \<Rightarrow> s1\<lparr>handed_log := handed_log s @ [(t, batch)]\<rparr>
               | NextPanics \<Rightarrow> s1\<lparr>panicked := True\<rparr>
               | _ \<Rightarrow> s1))"
| "run_call sz s WorkerFinishReset = s\<lparr>core := finish_reset (core s)\<rparr>"
| "run_call sz s WorkerFinishPurge = s\<lparr>core := finish_purge (core s)\<rparr>"
| "run_call sz s (WorkerDies message) = s\<lparr>core := snd (fail_all message (core s)), timed_wait := False, worker_dead := True\<rparr>"

definition admitted_for :: "string \<Rightarrow> 's scheduler_run \<Rightarrow> 's queued_write list" where
  "admitted_for t s = filter (\<lambda>q. write_task_id (queued q) = t) (admitted_log s)"

definition handed_for :: "string \<Rightarrow> 's scheduler_run \<Rightarrow> 's queued_write list" where
  "handed_for t s = concat (map snd (filter (\<lambda>b. fst b = t) (handed_log s)))"

section \<open>The invariant of a run\<close>

text \<open>What the worker's question for work does: take the front batch, wait, or turn to control work.\<close>

definition same_queues :: "'s scheduler_state \<Rightarrow> 's scheduler_state \<Rightarrow> bool" where
  "same_queues st st' \<longleftrightarrow>
     pending st' = pending st \<and> ready st' = ready st \<and> global_stream_bytes st' = global_stream_bytes st
     \<and> global_control_writes st' = global_control_writes st \<and> peak_global_stream_bytes st' = peak_global_stream_bytes st
     \<and> peak_task_stream_bytes st' = peak_task_stream_bytes st"

lemma same_queues_ok: "same_queues st st' \<Longrightarrow> sched_ok sz st \<Longrightarrow> sched_ok sz st'"
  by (simp add: same_queues_def sched_ok_def)

lemma same_queues_queue: "same_queues st st' \<Longrightarrow> queue_of t st' = queue_of t st"
  by (simp add: same_queues_def queue_of_def)

lemma next_iteration_cases:
  assumes ok: "sched_ok sz st" and timed: "timed_out \<longrightarrow> ready st \<noteq> []"
  obtains (batch) t ready' where "ready st = t # ready'" "next_iteration sz now timed_out st = take_ready sz st"
    | (control) work st' where "next_iteration sz now timed_out st = (work, st')" "same_queues st st'"
        "work \<noteq> NextPanics" "\<forall>t b. work \<noteq> NextBatch t b"
proof (cases "ready st")
  case Nil
  with timed have "\<not> timed_out" by blast
  with Nil show ?thesis
    using control [of "fst (next_iteration sz now timed_out st)" "snd (next_iteration sz now timed_out st)"]
    by (cases "reset_reply st"; cases "purge_reply st"; cases "shutdown_reply st"; cases "resetting st \<or> purging st"; cases "closed st")
      (simp_all add: next_iteration_def same_queues_def split_beta)
next
  case (Cons t ready')
  with ok have "map_of (pending st) t \<noteq> None" unfolding sched_ok_def by (metis list.set_intros(1))
  then obtain p where p: "map_of (pending st) t = Some p" by blast
  with ok obtain q qs where q: "writes p = q # qs" unfolding sched_ok_def lane_ok_def by (metis neq_Nil_conv)
  have "next_iteration sz now timed_out st = take_ready sz st \<or> next_iteration sz now timed_out st = (NextWaits, st)"
    by (simp add: next_iteration_def Cons p q)
  then show ?thesis
  proof
    assume "next_iteration sz now timed_out st = (NextWaits, st)"
    then show ?thesis by (rule control [of NextWaits st]) (simp_all add: same_queues_def)
  qed (rule batch [OF Cons])
qed

definition run_ok :: "'s journal_sizes \<Rightarrow> 's scheduler_run \<Rightarrow> bool" where
  "run_ok sz s \<longleftrightarrow>
     sched_ok sz (core s) \<and> \<not> panicked s \<and> (timed_wait s \<longrightarrow> ready (core s) \<noteq> [])
     \<and> (\<not> worker_dead s \<longrightarrow> (\<forall>t. keeps_orders (handed_for t s @ queue_of t (core s)) (admitted_for t s)))
     \<and> ((\<forall>q \<in> set (admitted_log s). proper_write q) \<longrightarrow> (\<forall>b \<in> set (handed_log s). batch_ok sz (snd b)))"

lemma run_ok_start: "run_ok sz start_run"
  by (simp add: run_ok_def start_run_def sched_ok_new queue_of_def handed_for_def admitted_for_def) (simp add: new_scheduler_def)

lemma admitted_queue:
  assumes "run_ok sz s" "\<not> worker_dead s" "q \<in> set (queue_of t (core s))"
  shows "q \<in> set (admitted_log s)"
proof -
  from assms(1,2) have "keeps_orders (handed_for t s @ queue_of t (core s)) (admitted_for t s)"
    unfolding run_ok_def by blast
  from mset_eq_setD [OF keeps_orders_mset [OF this]] assms(3) show ?thesis
    by (auto simp: admitted_for_def)
qed

lemma run_ok_admits:
  assumes ok: "run_ok sz s" and room: "has_capacity sz w (core s)"
  shows "run_ok sz (s\<lparr>core := enqueue sz now w r (core s),
                      admitted_log := admitted_log s @ [\<lparr>queued = w, reply = r, admitted_at = now\<rparr>]\<rparr>)" (is "run_ok sz ?s'")
proof -
  let ?q = "\<lparr>queued = w, reply = r, admitted_at = now\<rparr>"
  note inv = ok [unfolded run_ok_def]
  have log: "admitted_for t ?s' = admitted_for t s @ (if t = write_task_id w then [?q] else [])" for t
    by (simp add: admitted_for_def)
  have "keeps_orders (handed_for t ?s' @ queue_of t (core ?s')) (admitted_for t ?s')" if "\<not> worker_dead s" for t
  proof -
    from inv that have "keeps_orders (handed_for t s @ queue_of t (core s)) (admitted_for t s)" by blast
    from keeps_orders_append [OF this keeps_orders_refl [of "if t = write_task_id w then [?q] else []"]]
    show ?thesis unfolding log by (simp add: enqueue_queue handed_for_def)
  qed
  moreover have "sched_ok sz (core ?s')" using inv enqueue_ok [OF _ room] by simp
  moreover have "timed_wait ?s' \<longrightarrow> ready (core ?s') \<noteq> []" using inv by (simp add: enqueue_ready)
  moreover have "(\<forall>q \<in> set (admitted_log ?s'). proper_write q) \<longrightarrow> (\<forall>b \<in> set (handed_log ?s'). batch_ok sz (snd b))" "\<not> panicked ?s'"
    using inv by simp_all
  ultimately show ?thesis unfolding run_ok_def by simp
qed

lemma run_ok_same:
  assumes "run_ok sz s" "same_queues (core s) st" "timed \<longrightarrow> ready st \<noteq> []"
  shows "run_ok sz (s\<lparr>core := st, timed_wait := timed\<rparr>)"
  using assms same_queues_ok [OF assms(2), of sz] same_queues_queue [OF assms(2)]
  by (simp add: run_ok_def handed_for_def admitted_for_def)

lemma run_ok_core:
  assumes "run_ok sz s" "same_queues (core s) st"
  shows "run_ok sz (s\<lparr>core := st\<rparr>)"
proof -
  have "timed_wait s \<longrightarrow> ready st \<noteq> []" using assms by (simp add: run_ok_def same_queues_def)
  from run_ok_same [OF assms this] show ?thesis by simp
qed

lemma run_ok_batch:
  assumes ok: "run_ok sz s" and alive: "\<not> worker_dead s" and front: "ready (core s) = t # ready'"
  obtains batch st where "take_ready sz (core s) = (NextBatch t batch, st)"
    "run_ok sz (s\<lparr>core := st, timed_wait := False, handed_log := handed_log s @ [(t, batch)]\<rparr>)"
proof -
  note inv = ok [unfolded run_ok_def]
  from inv have core: "sched_ok sz (core s)" by blast
  obtain batch st where b: "take_ready sz (core s) = (NextBatch t batch, st)" "sched_ok sz st"
    "keeps_orders (batch @ queue_of t st) (queue_of t (core s))" "\<And>x. x \<noteq> t \<Longrightarrow> queue_of x st = queue_of x (core s)"
    by (rule take_ready_ok [OF core front]) (rule that; assumption)
  let ?s' = "s\<lparr>core := st, timed_wait := False, handed_log := handed_log s @ [(t, batch)]\<rparr>"
  have log: "handed_for x ?s' = handed_for x s @ (if x = t then batch else [])" for x
    by (simp add: handed_for_def)
  have "keeps_orders (handed_for x ?s' @ queue_of x (core ?s')) (admitted_for x ?s')" for x
  proof -
    from inv alive have old: "keeps_orders (handed_for x s @ queue_of x (core s)) (admitted_for x s)" by blast
    have "keeps_orders ((if x = t then batch else []) @ queue_of x st) (queue_of x (core s))"
      using b(3,4) by (cases "x = t") simp_all
    from keeps_orders_trans [OF keeps_orders_append [OF keeps_orders_refl this] old]
    show ?thesis unfolding log by (simp add: admitted_for_def)
  qed
  moreover have "batch_ok sz batch" if "\<forall>q \<in> set (admitted_log s). proper_write q"
    by (rule taken_batch_ok [OF core front b(1)]) (use that admitted_queue [OF ok alive] in blast)
  ultimately have "run_ok sz ?s'" using inv b(2) unfolding run_ok_def by simp
  with b(1) show ?thesis by (rule that)
qed

lemma control_calls_same_queues:
  "request_shutdown r st = Inr st' \<Longrightarrow> same_queues st st'" "request_reset r st = Inr st' \<Longrightarrow> same_queues st st'"
  "request_purge t r st = Inr st' \<Longrightarrow> same_queues st st'" "same_queues st (close st)"
  "same_queues st (finish_reset st)" "same_queues st (finish_purge st)"
  by (auto simp: request_shutdown_def request_reset_def request_purge_def close_def finish_reset_def finish_purge_def same_queues_def
      split: if_splits)

lemma run_ok_request:
  assumes "run_ok sz s" "\<And>st. result = Inr st \<Longrightarrow> same_queues (core s) st"
  shows "run_ok sz (request result s)"
  using assms run_ok_core by (auto simp: request_def split: sum.splits)

lemma run_ok_next:
  assumes ok: "run_ok sz s"
  shows "run_ok sz (run_call sz s (WorkerNext now timeout))"
proof (cases "worker_dead s")
  case False
  from ok have core: "sched_ok sz (core s)" and timed: "timeout \<and> timed_wait s \<longrightarrow> ready (core s) \<noteq> []"
    unfolding run_ok_def by blast+
  from core timed show ?thesis
  proof (cases rule: next_iteration_cases [where now = now])
    case (batch t ready')
    obtain b st where "take_ready sz (core s) = (NextBatch t b, st)"
      "run_ok sz (s\<lparr>core := st, timed_wait := False, handed_log := handed_log s @ [(t, b)]\<rparr>)"
      by (rule run_ok_batch [OF ok False batch(1)])
    with batch False show ?thesis by simp
  next
    case (control work st)
    have "run_ok sz (s\<lparr>core := st, timed_wait := (work = NextWaits \<and> ready st \<noteq> [])\<rparr>)"
      by (rule run_ok_same [OF ok control(2)]) simp
    with control False show ?thesis by (cases work) simp_all
  qed
qed (use ok in simp)

lemma run_ok_call:
  assumes "run_ok sz s"
  shows "run_ok sz (run_call sz s call)"
proof (cases call)
  case (CallAdmit now w r)
  with assms show ?thesis using run_ok_admits [OF assms, of w] 
    by (auto simp: admit_def split: sum.splits)
next
  case (CallTryAdmit now w r)
  with assms show ?thesis using run_ok_admits [OF assms, of w] 
    by (auto simp: try_admit_def split: sum.splits)
next
  case (WorkerDies message)
  have "run_ok sz (run_call sz s (WorkerDies message))"
    using assms by (simp add: run_ok_def fail_all_def sched_ok_def)
  with WorkerDies show ?thesis by simp
next
  case (WorkerNext now timeout)
  with run_ok_next [OF assms] show ?thesis by simp
qed (simp_all add: assms run_ok_request run_ok_core control_calls_same_queues)

interpretation scheduler: invariant_machine "run_call sz" "run_ok sz"
  by unfold_locales (rule run_ok_call)

lemma run_ok_run: "run_ok sz (foldl (run_call sz) start_run calls)"
  by (rule scheduler.run_keeps [OF run_ok_start])

section \<open>An example run\<close>

text \<open>
  Terminal output, a text delta, a text barrier, a full barrier: the text barrier overtakes the terminal
  output, the full barrier does not.
\<close>

definition example_sizes :: "unit journal_sizes" where
  "example_sizes = \<lparr>projection_len = \<lambda>_. Some 0, message_len = \<lambda>_. Some 0, messages_len = \<lambda>_. Some 0,
     details_len = \<lambda>_. Some 0, subagent_len = \<lambda>_. 0\<rparr>"

definition example_queued :: "nat \<Rightarrow> unit queued_write" where
  "example_queued n =
     \<lparr>queued = (if n = 1 then stream_append_terminal ''t'' ''a'' ''x'' ''out''
                else if n = 2 then stream_append_text_with_metadata ''t'' ''m'' ''hi'' ''1'' None
                else if n = 3 then barrier_streamed_text ''t'' else barrier_write ''t''),
      reply = n, admitted_at = 0\<rparr>"

definition example_call :: "nat \<Rightarrow> unit scheduler_call" where
  "example_call n = CallAdmit 0 (queued (example_queued n)) n"

definition example_calls :: "unit scheduler_call list" where
  "example_calls = [example_call 1, example_call 2, example_call 3, WorkerNext 0 False, example_call 4, WorkerNext 0 False]"

lemmas example_write_simps =
  example_queued_def example_call_def example_sizes_def stream_append_terminal_def stream_append_text_with_metadata_def
  barrier_streamed_text_def barrier_write_def plain_write_def estimated_bytes_def operation_bytes_def usize_sum_def
  artifact_write_estimate_def operation_count_def is_subagent_def sat_add64_def u64_add_def u64_sub_def u64_max_def is_stream_def

lemmas example_run_simps =
  start_run_def new_scheduler_def no_pending_def admit_def validate_write_size_def has_capacity_def task_stream_bytes_def
  has_pending_exclusive_control_def enqueue_def next_iteration_def should_wait_for_batch_def take_ready_def take_batch_def
  put_back_def counters_of_def release_def release_saturating_def GLOBAL_STREAM_BYTE_CAPACITY_def
  PER_TASK_STREAM_BYTE_CAPACITY_def CONTROL_CAPACITY_def MAX_BATCH_BYTES_def MAX_BATCH_OPERATIONS_def

lemma example_run:
  "handed_log (foldl (run_call example_sizes) start_run example_calls)
     = [(''t'', [example_queued 2, example_queued 3]), (''t'', [example_queued 1, example_queued 4])]"
  "admitted_log (foldl (run_call example_sizes) start_run example_calls)
     = [example_queued 1, example_queued 2, example_queued 3, example_queued 4]"
  "worker_dead (foldl (run_call example_sizes) start_run example_calls) = False"
  by (simp_all add: example_calls_def example_run_simps example_write_simps Let_def)

section \<open>Properties\<close>

text \<open>
  C8: whatever calls are made, in whatever order, the payload that queued stream writes retain stays within
  8 MiB in all and 2 MiB for one Task, at most 64 control writes are queued, the high-water marks
  reported stay within the same bounds, the counters are exact, and the worker never finds a ready Task
  without a queue.
\<close>

theorem retained_payload_is_bounded:
  "let s = foldl (run_call sz) start_run calls; st = core s
   in global_stream_bytes st = alist_sum (stream_total sz \<circ> writes) (pending st)
      \<and> global_control_writes st = alist_sum (control_total \<circ> writes) (pending st)
      \<and> global_stream_bytes st \<le> metrics_peak_global (metrics st)
      \<and> metrics_peak_global (metrics st) \<le> 8 * 1024 * 1024
      \<and> stream_total sz (queue_of t st) \<le> metrics_peak_task (metrics st)
      \<and> metrics_peak_task (metrics st) \<le> 2 * 1024 * 1024
      \<and> global_control_writes st \<le> 64
      \<and> \<not> panicked s"
proof -
  let ?s = "foldl (run_call sz) start_run calls"
  have ok: "sched_ok sz (core ?s)" and np: "\<not> panicked ?s"
    using run_ok_run [of sz calls] unfolding run_ok_def by blast+
  note inv = ok [unfolded sched_ok_def]
  have lanes: "lane_ok sz x p" if "(x, p) \<in> set (pending (core ?s))" for x p
    using inv that by (metis map_of_is_SomeI)
  have "alist_sum stream_bytes (pending (core ?s)) = alist_sum (stream_total sz \<circ> writes) (pending (core ?s))"
    "alist_sum control_writes (pending (core ?s)) = alist_sum (control_total \<circ> writes) (pending (core ?s))"
    unfolding alist_sum_def using lanes by (auto simp: lane_ok_def intro!: arg_cong [where f = sum_list])
  moreover have "stream_total sz (writes p) \<le> peak_task_stream_bytes (core ?s)" if "map_of (pending (core ?s)) t = Some p" for p
    using inv that unfolding lane_ok_def by metis
  then have "stream_total sz (queue_of t (core ?s)) \<le> peak_task_stream_bytes (core ?s)"
    by (cases "map_of (pending (core ?s)) t") (simp_all add: queue_of_def)
  ultimately show ?thesis
    unfolding Let_def metrics_def
    using inv np by (simp add: GLOBAL_STREAM_BYTE_CAPACITY_def PER_TASK_STREAM_BYTE_CAPACITY_def CONTROL_CAPACITY_def)
qed

text \<open>
  C3: in any run, when a control write of a Task has reached the storage worker, the text writes and
  control writes handed over before it are exactly the ones admitted before it, in the order of their
  admission, and the Tool writes handed over before it are the first ones admitted, in that order. When it
  is a full barrier, the Tool writes handed over before it are exactly the ones admitted before it, in that
  order, too, so that nothing admitted before it is missing and nothing admitted after it has overtaken it.
\<close>

theorem barrier_seals_earlier_writes:
  assumes "s = foldl (run_call sz) start_run calls" "\<not> worker_dead s"
    and "admitted_for t s = before @ b # after" "b \<notin> set before" "b \<notin> set after"
    and "b \<in> set (handed_for t s)" "boundary (queued b) = TextBarrier \<or> boundary (queued b) = Barrier"
  shows "\<exists>pre post. handed_for t s = pre @ b # post
           \<and> filter in_text_order pre = filter in_text_order before
           \<and> (\<exists>rest. filter in_tool_order (admitted_for t s) = filter in_tool_order pre @ rest)
           \<and> (boundary (queued b) = Barrier \<longrightarrow>
                filter in_tool_order pre = filter in_tool_order before \<and> mset pre = mset before)"
proof -
  from assms(6) obtain pre post where h: "handed_for t s = pre @ b # post" by (meson split_list)
  from run_ok_run [of sz calls] assms(1,2) have "keeps_orders (handed_for t s @ queue_of t (core s)) (admitted_for t s)"
    unfolding run_ok_def by blast
  then have orders: "keeps_orders (pre @ b # (post @ queue_of t (core s))) (before @ b # after)" by (simp add: h assms(3))
  have cut: "filter L pre = filter L before"
    if "L b" "filter L (pre @ b # (post @ queue_of t (core s))) = filter L (before @ b # after)" for L
    using that assms(4,5) append_Cons_eq_iff [of b "filter L before" "filter L after" "filter L pre" "filter L (post @ queue_of t (core s))"]
    by simp
  have text_part: "filter in_text_order pre = filter in_text_order before"
    by (rule cut) (use assms(7) orders in \<open>auto simp: in_text_order_def keeps_orders_def\<close>)
  have tool_part: "filter in_tool_order pre = filter in_tool_order before" if "boundary (queued b) = Barrier"
    by (rule cut) (use that orders in \<open>simp_all add: in_tool_order_def keeps_orders_def\<close>)
  then have "mset pre = mset before" if "boundary (queued b) = Barrier"
    using that text_part by (intro keeps_orders_mset) (simp add: keeps_orders_def)
  moreover have "filter in_tool_order (admitted_for t s)
      = filter in_tool_order pre @ filter in_tool_order (b # post @ queue_of t (core s))"
    using orders unfolding keeps_orders_def assms(3) by simp
  ultimately show ?thesis using h text_part tool_part by blast
qed

theorem barrier_seals_earlier_writes_witness:
  "\<exists>pre post. handed_for ''t'' (foldl (run_call example_sizes) start_run example_calls) = pre @ example_queued 4 # post
     \<and> mset pre = mset [example_queued 1, example_queued 2, example_queued 3]"
proof -
  let ?s = "foldl (run_call example_sizes) start_run example_calls"
  have a: "admitted_for ''t'' ?s = [example_queued 1, example_queued 2, example_queued 3] @ example_queued 4 # []"
    "example_queued 4 \<in> set (handed_for ''t'' ?s)"
    by (simp_all add: admitted_for_def handed_for_def example_run) (simp_all add: example_write_simps)
  have "example_queued 4 \<notin> set [example_queued 1, example_queued 2, example_queued 3]" "boundary (queued (example_queued 4)) = Barrier"
    by (simp_all add: example_write_simps)
  with barrier_seals_earlier_writes [OF refl _ a(1) _ _ a(2)] example_run(3) show ?thesis by auto
qed

text \<open>
  C20: when the callers' writes have fewer than 2 to the 63 operations each and Subagent writes are Tool
  stream writes or full barriers, every batch handed to the worker is non-empty, ends at its first control write,
  holds only Task writes or only Subagent writes, and its stream writes are either one write or at most 64
  KiB and 256 operations together. The control write at its end is taken along whatever its size.
\<close>

theorem batches_respect_limits:
  assumes "s = foldl (run_call sz) start_run calls" "\<forall>q \<in> set (admitted_log s). proper_write q"
    and "(t, batch) \<in> set (handed_log s)"
  shows "batch \<noteq> [] \<and> (\<forall>q \<in> set (butlast batch). is_stream (boundary (queued q)))
    \<and> (\<forall>q \<in> set batch. is_subagent (queued q) = is_subagent (queued (hd batch)))
    \<and> (length (stream_part batch) \<le> 1
       \<or> bytes_total sz (stream_part batch) \<le> 65536 \<and> operations_total (stream_part batch) \<le> 256)"
proof -
  have "run_ok sz s" unfolding assms(1) by (rule run_ok_run)
  with assms(2,3) have "batch_ok sz batch" unfolding run_ok_def by (metis snd_conv)
  then show ?thesis
    unfolding batch_ok_def controls_last_def within_limits_def MAX_BATCH_BYTES_def MAX_BATCH_OPERATIONS_def by blast
qed

theorem batches_respect_limits_witness:
  "(let s = foldl (run_call example_sizes) start_run example_calls; batch = [example_queued 1, example_queued 4]
    in (''t'', batch) \<in> set (handed_log s) \<and> is_stream (boundary (queued (hd batch)))
       \<and> \<not> is_stream (boundary (queued (last batch)))
       \<and> is_subagent (queued (last batch)) = is_subagent (queued (hd batch))
       \<and> stream_part batch = [example_queued 1])"
proof -
  let ?s = "foldl (run_call example_sizes) start_run example_calls"
  have proper: "\<forall>q \<in> set (admitted_log ?s). proper_write q"
    unfolding example_run by (simp add: proper_write_def example_write_simps)
  have handed: "(''t'', [example_queued 1, example_queued 4]) \<in> set (handed_log ?s)" by (simp add: example_run)
  have "is_stream (boundary (queued (example_queued 1)))"
    "is_subagent (queued (example_queued 4)) = is_subagent (queued (example_queued 1))"
    using batches_respect_limits [OF refl proper handed] by simp_all
  moreover have "\<not> is_stream (boundary (queued (example_queued 4)))" by (simp add: example_write_simps)
  ultimately show ?thesis using handed by (simp add: Let_def stream_part_def)
qed

section \<open>Shutdown\<close>

text \<open>The worker's loop: what it is given until it returns, with fuel; \<open>None\<close> when it would wait or the fuel ends.\<close>

fun worker_run :: "'s journal_sizes \<Rightarrow> nat \<Rightarrow> nat \<Rightarrow> 's scheduler_state \<Rightarrow> ('s next_work list \<times> 's scheduler_state) option" where
  "worker_run sz now 0 st = None"
| "worker_run sz now (Suc fuel) st =
     (case next_iteration sz now False st of
        (NextBatch t batch, st') \<Rightarrow> map_option (apfst (Cons (NextBatch t batch))) (worker_run sz now fuel st')
      | (NextReset r, st') \<Rightarrow> map_option (apfst (Cons (NextReset r))) (worker_run sz now fuel (finish_reset st'))
      | (NextPurge t r, st') \<Rightarrow> map_option (apfst (Cons (NextPurge t r))) (worker_run sz now fuel (finish_purge st'))
      | (NextShutdown r, st') \<Rightarrow> Some ([NextShutdown r], st')
      | (NextClosed, st') \<Rightarrow> Some ([NextClosed], st')
      | _ \<Rightarrow> None)"

fun drained_for :: "string \<Rightarrow> 's next_work list \<Rightarrow> 's queued_write list" where
  "drained_for t [] = []"
| "drained_for t (NextBatch x batch # works) = (if x = t then batch else []) @ drained_for t works"
| "drained_for t (work # works) = drained_for t works"

definition queued_count :: "'s scheduler_state \<Rightarrow> nat" where
  "queued_count st = sum_list (map (\<lambda>t. length (queue_of t st)) (ready st))"

lemma queue_of_not_ready: "sched_ok sz st \<Longrightarrow> t \<notin> set (ready st) \<Longrightarrow> queue_of t st = []"
  unfolding sched_ok_def by (simp add: queue_of_def option.case_eq_if)

text \<open>With nothing queued the worker clears pending control work and answers the shutdown.\<close>

lemma worker_run_idle:
  assumes "ready st = []" "shutdown_reply st = Some r" "\<not> resetting st" "\<not> purging st"
  shows "\<exists>works st'. worker_run sz now (Suc (Suc (Suc fuel))) st = Some (works @ [NextShutdown r], st')
           \<and> closed st' \<and> same_queues st st' \<and> (\<forall>t. drained_for t (works @ [NextShutdown r]) = [])"
proof -
  note simps = next_iteration_def assms finish_reset_def finish_purge_def same_queues_def
  show ?thesis
  proof (cases "reset_reply st")
    case None
    then show ?thesis
    proof (cases "purge_reply st")
      case (Some a)
      with None show ?thesis
        by (cases a) (auto simp: simps intro!: exI [of _ "[NextPurge (fst a) (snd a)]"])
    qed (auto simp: simps intro!: exI [of _ "[]"])
  next
    case (Some x)
    then show ?thesis
    proof (cases "purge_reply st")
      case (Some a)
      with \<open>reset_reply st = Some x\<close> show ?thesis
        by (cases a) (auto simp: simps intro!: exI [of _ "[NextReset x, NextPurge (fst a) (snd a)]"])
    qed (auto simp: simps intro!: exI [of _ "[NextReset x]"])
  qed
qed

lemma pending_empty: "sched_ok sz st \<Longrightarrow> ready st = [] \<Longrightarrow> pending st = []"
  unfolding sched_ok_def by (cases "pending st") (auto, metis map_of_Cons_code(2) option.distinct(1))

lemma next_iteration_shutdown:
  assumes "sched_ok sz st" "ready st = t # ready'" "shutdown_reply st = Some r"
  shows "next_iteration sz now False st = take_ready sz st"
proof -
  from assms(1,2) have "map_of (pending st) t \<noteq> None" unfolding sched_ok_def by (metis list.set_intros(1))
  then obtain p where "map_of (pending st) t = Some p" by blast
  with assms show ?thesis by (simp add: next_iteration_def should_wait_for_batch_def)
qed

lemma worker_run_drains:
  assumes "sched_ok sz st" "shutdown_reply st = Some r" "\<not> resetting st" "\<not> purging st" "queued_count st + 3 \<le> fuel"
  shows "\<exists>works st'. worker_run sz now fuel st = Some (works @ [NextShutdown r], st') \<and> closed st' \<and> pending st' = []
           \<and> (\<forall>t. keeps_orders (drained_for t (works @ [NextShutdown r])) (queue_of t st))"
  using assms
proof (induction "queued_count st" arbitrary: st fuel rule: less_induct)
  case less
  show ?case
  proof (cases "ready st")
    case Nil
    from less.prems(5) have "fuel = Suc (Suc (Suc (fuel - 3)))" by simp
    then obtain f where f: "fuel = Suc (Suc (Suc f))" by blast
    from worker_run_idle [OF Nil less.prems(2-4)] obtain works st' where
      w: "worker_run sz now fuel st = Some (works @ [NextShutdown r], st')" "closed st'" "same_queues st st'"
      "\<forall>t. drained_for t (works @ [NextShutdown r]) = []"
      unfolding f by blast
    have "pending st' = []" using w(3) pending_empty [OF less.prems(1) Nil] by (simp add: same_queues_def)
    moreover have "queue_of t st = []" for t using queue_of_not_ready [OF less.prems(1)] Nil by simp
    ultimately show ?thesis using w by (intro exI [of _ works] exI [of _ st']) simp
  next
    case (Cons t ready')
    obtain batch st1 where b: "take_ready sz st = (NextBatch t batch, st1)" "sched_ok sz st1" "batch \<noteq> []"
      "keeps_orders (batch @ queue_of t st1) (queue_of t st)" "\<And>x. x \<noteq> t \<Longrightarrow> queue_of x st1 = queue_of x st"
      "ready st1 = ready' @ (if queue_of t st1 = [] then [] else [t])"
      "resetting st1 = resetting st" "purging st1 = purging st" "shutdown_reply st1 = shutdown_reply st"
      by (rule take_ready_ok [OF less.prems(1) Cons]) (rule that; assumption)
    have "distinct (t # ready')" using less.prems(1) unfolding sched_ok_def Cons by blast
    then have same: "map (\<lambda>x. length (queue_of x st1)) ready' = map (\<lambda>x. length (queue_of x st)) ready'"
      by (intro map_cong refl arg_cong [where f = length] b(5)) auto
    have "length batch + length (queue_of t st1) = length (queue_of t st)"
      using keeps_orders_mset [OF b(4)] by (metis length_append size_mset)
    then have count: "queued_count st1 + length batch = queued_count st"
      unfolding queued_count_def b(6) Cons map_append sum_list_append same by (cases "queue_of t st1") simp_all
    from b(3) have pos: "0 < length batch" by simp
    obtain f where f: "fuel = Suc f" using less.prems(5) by (cases fuel) auto
    have "queued_count st1 + 3 \<le> f" using count pos less.prems(5) f by linarith
    from less.hyps [OF _ b(2) _ _ _ this] count pos b(7-9) less.prems obtain works st' where
      w: "worker_run sz now f st1 = Some (works @ [NextShutdown r], st')" "closed st'" "pending st' = []"
      "\<forall>x. keeps_orders (drained_for x (works @ [NextShutdown r])) (queue_of x st1)"
      by auto
    have "keeps_orders (drained_for x ((NextBatch t batch # works) @ [NextShutdown r])) (queue_of x st)" for x
    proof (cases "x = t")
      case True
      with w(4) have "keeps_orders (batch @ drained_for x (works @ [NextShutdown r])) (batch @ queue_of t st1)"
        by (intro keeps_orders_append) simp_all
      from keeps_orders_trans [OF this b(4)] True show ?thesis by simp
    next
      case False
      then have "drained_for x ((NextBatch t batch # works) @ [NextShutdown r]) = drained_for x (works @ [NextShutdown r])"
        by simp
      with w(4) show ?thesis unfolding b(5) [OF False, symmetric] by (simp only:)
    qed
    moreover have "worker_run sz now fuel st = Some ((NextBatch t batch # works) @ [NextShutdown r], st')"
      using next_iteration_shutdown [OF less.prems(1) Cons less.prems(2)] b(1) w(1) by (simp add: f)
    ultimately show ?thesis using w(2,3) by blast
  qed
qed

text \<open>
  C9: after any calls, once a shutdown has been requested and the worker is between two pieces of work, its
  loop ends after at most one iteration per queued write and three more: it has then been handed every queued write of
  every Task, the text and control writes and the Tool writes each in order, the scheduler is closed with empty queues, and the last thing it does is to
  answer the shutdown.
\<close>

theorem shutdown_drains_the_queue:
  assumes "s = foldl (run_call sz) start_run calls" "shutdown_reply (core s) = Some r"
    and "\<not> resetting (core s)" "\<not> purging (core s)" "queued_count (core s) + 3 \<le> fuel"
  shows "\<exists>works st. worker_run sz now fuel (core s) = Some (works @ [NextShutdown r], st) \<and> closed st \<and> pending st = []
     \<and> (\<forall>t. filter in_text_order (drained_for t works) = filter in_text_order (queue_of t (core s))
          \<and> filter in_tool_order (drained_for t works) = filter in_tool_order (queue_of t (core s))
          \<and> mset (drained_for t works) = mset (queue_of t (core s)))"
proof -
  have "sched_ok sz (core s)" using run_ok_run [of sz calls] unfolding assms(1) run_ok_def by blast
  from worker_run_drains [OF this assms(2-5)] obtain works st where
    w: "worker_run sz now fuel (core s) = Some (works @ [NextShutdown r], st)" "closed st" "pending st = []"
    "\<And>t. keeps_orders (drained_for t (works @ [NextShutdown r])) (queue_of t (core s))"
    by blast
  have "drained_for t (works @ [NextShutdown r]) = drained_for t works" for t
    by (induction t works rule: drained_for.induct) simp_all
  with w(4) have "keeps_orders (drained_for t works) (queue_of t (core s))" for t by simp
  then have "filter in_text_order (drained_for t works) = filter in_text_order (queue_of t (core s))
          \<and> filter in_tool_order (drained_for t works) = filter in_tool_order (queue_of t (core s))
          \<and> mset (drained_for t works) = mset (queue_of t (core s))" for t
    using keeps_orders_mset unfolding keeps_orders_def by blast
  with w(1-3) show ?thesis by blast
qed

theorem shutdown_drains_the_queue_witness:
  "\<exists>works st. worker_run example_sizes 0 4 (core (foldl (run_call example_sizes) start_run [example_call 1, CallShutdown 9]))
       = Some (works @ [NextShutdown 9], st) \<and> closed st \<and> pending st = []
     \<and> mset (drained_for ''t'' works) = {#example_queued 1#}"
proof -
  let ?s = "foldl (run_call example_sizes) start_run [example_call 1, CallShutdown 9]"
  have h: "shutdown_reply (core ?s) = Some 9" "\<not> resetting (core ?s)" "\<not> purging (core ?s)"
    "queued_count (core ?s) + 3 \<le> 4" "queue_of ''t'' (core ?s) = [example_queued 1]"
    by (simp_all add: example_run_simps example_write_simps request_def request_shutdown_def queued_count_def queue_of_def Let_def)
  from shutdown_drains_the_queue [OF refl h(1-4), of 0] obtain works st where
    w: "worker_run example_sizes 0 4 (core ?s) = Some (works @ [NextShutdown 9], st)" "closed st" "pending st = []"
    "\<forall>t. mset (drained_for t works) = mset (queue_of t (core ?s))"
    by blast
  from w(4) have "mset (drained_for ''t'' works) = {#example_queued 1#}" by (simp only: h(5)) simp
  with w show ?thesis by blast
qed

end
