(* ===== verification/Atomic_File.thy ===== *)
theory Atomic_File
  imports Journal_Frame
begin

text \<open>
  Files of the state root outside journals (\<open>src/openaide-rs/app-server/src/storage/atomic.rs\<close>): the
  operating-system calls with their errors as \<open>?\<close> converts them, the durable creation of a
  directory, and the replacement of a file by way of a temporary one, over the file system of
  \<open>Journal_Frame\<close>. On Unix, the platform of the model, opening a path and syncing it cannot fail for a
  path that exists.
\<close>

section \<open>System calls\<close>

definition not_found :: runtime_error where
  "not_found = Storage ''No such file or directory (os error 2)''"

definition file_exists :: runtime_error where
  "file_exists = Storage ''File exists (os error 17)''"

definition is_a_directory :: runtime_error where
  "is_a_directory = Storage ''Is a directory (os error 21)''"

definition read_file :: "path \<Rightarrow> byte list io" where
  "read_file p s = (case files s p of None \<Rightarrow> (Inl not_found, s) | Some bytes \<Rightarrow> (Inr bytes, s))"

text \<open>\<open>OpenOptions::new().create_new(true).write(true).open(path)\<close>, with the error converted by \<open>?\<close>.\<close>

definition create_new_file :: "path \<Rightarrow> unit io" where
  "create_new_file p s =
     (if path_exists s p then (Inl file_exists, s)
      else if parent p = None \<or> the (parent p) \<notin> dirs s then (Inl not_found, s)
      else (Inr (), s\<lparr>files := (files s)(p := Some [])\<rparr>))"

text \<open>\<open>replace_file\<close> and \<open>sync_directory\<close> of \<open>storage/atomic.rs\<close>, the Unix bodies.\<close>

definition replace_file :: "path \<Rightarrow> path \<Rightarrow> unit io" where
  "replace_file temporary p s =
     (case files s temporary of
        None \<Rightarrow> (Inl not_found, s)
      | Some bytes \<Rightarrow>
          if p \<in> dirs s then (Inl is_a_directory, s)
          else (Inr (), s\<lparr>files := (files s)(temporary := None, p := Some bytes)\<rparr>))"

definition open_directory :: "path \<Rightarrow> unit io" where
  "open_directory p s = (if path_exists s p then (Inr (), s) else (Inl not_found, s))"


text \<open>\<open>fs::remove_file\<close> with \<open>NotFound\<close> accepted.\<close>

definition remove_if_present :: "path \<Rightarrow> unit io" where
  "remove_if_present p s = (if p \<in> dirs s then (Inl is_a_directory, s) else (Inr (), remove_file p s))"

definition create_dir :: "path \<Rightarrow> unit io" where
  "create_dir p s =
     (if path_exists s p then (Inl file_exists, s)
      else if parent p = None \<or> the (parent p) \<notin> dirs s then (Inl not_found, s)
      else (Inr (), s\<lparr>dirs := insert p (dirs s)\<rparr>))"

section \<open>Durable creation and replacement\<close>

function create_directory :: "path \<Rightarrow> unit io" where
  "create_directory p s =
     (if p \<in> dirs s then (Inr (), s)
      else case parent p of
        None \<Rightarrow> create_dir p s
      | Some up \<Rightarrow> io_seq (create_directory up) (io_seq (create_dir p) (open_directory up)) s)"
  by auto
termination
  by (relation "measure (\<lambda>(p, s). length p)") (auto simp: parent_def split: if_splits)

declare create_directory.simps [simp del]

text \<open>\<open>name\<close> is the random name of the temporary file, which is removed when a step fails.\<close>

definition write_bytes :: "string \<Rightarrow> path \<Rightarrow> byte list \<Rightarrow> unit io" where
  "write_bytes name p bytes =
     (case parent p of
        None \<Rightarrow> io_fail (Storage ''path has no parent'')
      | Some up \<Rightarrow>
          io_seq (create_directory up)
         (io_seq (create_new_file (up @ [name]))
         (io_seq (write_all (up @ [name]) bytes)
         (io_seq (\<lambda>s. case replace_file (up @ [name]) p s of
                     (Inr u, s') \<Rightarrow> (Inr u, s')
                   | (Inl e, s') \<Rightarrow> (Inl e, remove_file (up @ [name]) s'))
         (open_directory up)))))"

end
