(* ===== verification/Chat_Migration.thy ===== *)
theory Chat_Migration
  imports Runtime_Error Json_Value Rust_String
begin

text \<open>
  The rewriting of stored Chat values of the first schema version
  (\<open>migrate_v1_tool_presentations\<close> of \<open>storage/task_journal/split.rs\<close>), a walk over a JSON value that
  rewrites objects before it visits their members, with its termination.
\<close>

section \<open>JSON members\<close>

text \<open>\<open>Value::as_u64\<close> followed by \<open>u16::try_from\<close>.\<close>

fun json_as_u16 :: "json \<Rightarrow> nat option" where
  "json_as_u16 (JNumber s) = (if s \<noteq> [] \<and> list_all is_ascii_digit s \<and> dec_value s < 65536 then Some (dec_value s) else None)"
| "json_as_u16 _ = None"

definition json_nat :: "nat \<Rightarrow> json" where
  "json_nat n = JNumber (dec_string n)"

text \<open>A panic of the source.\<close>

definition panics :: runtime_error where
  "panics = Internal ''panic''"

text \<open>\<open>value[key] = v\<close>: an object gets the member, null becomes an object, anything else panics.\<close>

fun json_put :: "string \<Rightarrow> json \<Rightarrow> json \<Rightarrow> runtime_error + json" where
  "json_put key v (JObject ms) = Inr (JObject (AList.update key v ms))"
| "json_put key v JNull = Inr (JObject [(key, v)])"
| "json_put key v _ = Inl panics"

text \<open>The rewriting of one \<open>presentation\<close> object of version 1.\<close>

definition search_action :: "json \<Rightarrow> json" where
  "search_action query =
     JObject [(''kind'', JString ''search''), (''query'', query), (''scopes'', JArray []), (''target'', JString ''contents'')]"

definition migrate_presentation :: "(string \<times> json) list \<Rightarrow> (string \<times> json) list" where
  "migrate_presentation p =
     (if map_of p ''actions'' \<noteq> None then p
      else (let kind = map_of p ''kind'';
                subjects = map_of p ''subjects'';
                p1 = AList.delete ''subjects'' (AList.delete ''kind'' p);
                actions = (case (kind, subjects) of
                    (Some k, Some ss) \<Rightarrow>
                      (case (k, ss) of
                         (JString name, JArray queries) \<Rightarrow>
                           if name = ''search'' then Some (JArray (map search_action queries))
                           else Some (JArray [JObject [(''kind'', k), (''subjects'', ss)]])
                       | _ \<Rightarrow> Some (JArray [JObject [(''kind'', k), (''subjects'', ss)]]))
                  | _ \<Rightarrow> None)
            in case actions of None \<Rightarrow> p1 | Some a \<Rightarrow> AList.update ''actions'' a p1))"

definition migrate_fields :: "(string \<times> json) list \<Rightarrow> (string \<times> json) list" where
  "migrate_fields ms =
     (case map_of ms ''presentation'' of
        Some (JObject p) \<Rightarrow> AList.update ''presentation'' (JObject (migrate_presentation p)) ms
      | _ \<Rightarrow> ms)"

text \<open>
  The walk visits the members after the rewriting. Its measure charges a presentation that will be
  rewritten for what the rewriting adds.
\<close>

fun rewrite_cost :: "json \<Rightarrow> nat" where
  "rewrite_cost (JObject p) =
     (if map_of p ''actions'' \<noteq> None then 0
      else 10 + (case map_of p ''subjects'' of Some (JArray qs) \<Rightarrow> 10 * length qs | _ \<Rightarrow> 0))"
| "rewrite_cost _ = 0"

fun json_weight :: "json \<Rightarrow> nat" where
  "json_weight (JArray vs) = 1 + sum_list (map json_weight vs)"
| "json_weight (JObject ms) =
     1 + sum_list (map (\<lambda>(k, v). json_weight v + (if k = ''presentation'' then rewrite_cost v else 0)) ms)"
| "json_weight _ = 1"

definition member_weight :: "string \<times> json \<Rightarrow> nat" where
  "member_weight m = json_weight (snd m) + (if fst m = ''presentation'' then rewrite_cost (snd m) else 0)"

lemma json_weight_object: "json_weight (JObject ms) = 1 + sum_list (map member_weight ms)"
  by (auto simp: member_weight_def intro!: arg_cong [where f = sum_list] map_cong)

declare json_weight.simps(2) [simp del]

lemma sum_list_delete: "sum_list (map (f :: _ \<Rightarrow> nat) (AList.delete k ms)) + (case map_of ms k of None \<Rightarrow> 0 | Some v \<Rightarrow> f (k, v)) \<le> sum_list (map f ms)"
proof (induction ms)
  case (Cons m ms)
  then show ?case by (cases m) (auto simp: AList.delete_eq split: option.splits)
qed simp

lemma sum_list_update:
  "sum_list (map (f :: _ \<Rightarrow> nat) (AList.update k v ms)) + (case map_of ms k of None \<Rightarrow> 0 | Some v0 \<Rightarrow> f (k, v0))
     = sum_list (map f ms) + f (k, v)"
  by (induction ms) (auto split: option.splits if_splits)

lemma map_of_delete_other: "k \<noteq> k' \<Longrightarrow> map_of (AList.delete k ms) k' = map_of ms k'"
  by (simp add: alist_simps)

lemma search_action_weight: "json_weight (search_action q) = 4 + json_weight q"
  by (simp add: search_action_def json_weight_object member_weight_def)

lemma migrate_presentation_weight:
  assumes "map_of p ''actions'' = None"
  shows "json_weight (JObject (migrate_presentation p)) < json_weight (JObject p) + rewrite_cost (JObject p)"
proof -
  let ?p1 = "AList.delete ''subjects'' (AList.delete ''kind'' p)"
  have del: "sum_list (map member_weight ?p1) + (case map_of p ''subjects'' of None \<Rightarrow> 0 | Some v \<Rightarrow> json_weight v)
      + (case map_of p ''kind'' of None \<Rightarrow> 0 | Some v \<Rightarrow> json_weight v) \<le> sum_list (map member_weight p)"
    using sum_list_delete [of member_weight "''subjects''" "AList.delete ''kind'' p"] sum_list_delete [of member_weight "''kind''" p]
    by (auto simp: map_of_delete_other member_weight_def split: option.splits)
  have act: "map_of ?p1 ''actions'' = None" using assms by (simp add: alist_simps)
  have upd: "json_weight (JObject (AList.update ''actions'' a ?p1)) = 1 + sum_list (map member_weight ?p1) + json_weight a" for a
    using sum_list_update [of member_weight "''actions''" a ?p1] act unfolding json_weight_object by (simp add: member_weight_def)
  have queries: "sum_list (map (json_weight \<circ> search_action) qs) = 4 * length qs + sum_list (map json_weight qs)" for qs
    by (induction qs) (simp_all add: search_action_weight)
  show ?thesis
  proof (cases "map_of p ''kind''")
    case None
    then show ?thesis using assms del
      by (simp add: migrate_presentation_def Let_def json_weight_object split: option.splits)
  next
    case (Some kind)
    show ?thesis
    proof (cases "map_of p ''subjects''")
      case None
      then show ?thesis using assms del Some
        by (simp add: migrate_presentation_def Let_def json_weight_object)
    next
      case (Some subjects)
      note parts = assms \<open>map_of p ''kind'' = Some kind\<close> Some
      have plain: "json_weight (JArray [JObject [(''kind'', kind), (''subjects'', subjects)]]) = 2 + json_weight kind + json_weight subjects"
        by (simp add: json_weight_object member_weight_def)
      have "\<exists>a. migrate_presentation p = AList.update ''actions'' a ?p1
          \<and> json_weight a < json_weight kind + json_weight subjects + rewrite_cost (JObject p)"
      proof (cases "\<exists>qs. kind = JString ''search'' \<and> subjects = JArray qs")
        case True
        then obtain qs where qs: "kind = JString ''search''" "subjects = JArray qs" by blast
        then have "migrate_presentation p = AList.update ''actions'' (JArray (map search_action qs)) ?p1"
          using parts by (simp add: migrate_presentation_def Let_def)
        moreover have "json_weight (JArray (map search_action qs)) < json_weight kind + json_weight subjects + rewrite_cost (JObject p)"
          using qs parts queries [of qs] by (simp add: comp_def)
        ultimately show ?thesis by blast
      next
        case False
        then have "migrate_presentation p = AList.update ''actions'' (JArray [JObject [(''kind'', kind), (''subjects'', subjects)]]) ?p1"
          using parts by (auto simp: migrate_presentation_def Let_def split: json.splits)
        moreover have "2 < rewrite_cost (JObject p)" using assms by (simp split: option.splits json.splits)
        ultimately show ?thesis using plain by (intro exI conjI) auto
      qed
      then obtain a where "migrate_presentation p = AList.update ''actions'' a ?p1"
        "json_weight a < json_weight kind + json_weight subjects + rewrite_cost (JObject p)" by blast
      with del upd [of a] parts show ?thesis by (simp add: json_weight_object)
    qed
  qed
qed

lemma migrate_fields_weight: "sum_list (map (json_weight \<circ> snd) (migrate_fields ms)) \<le> sum_list (map member_weight ms)"
proof -
  have plain: "sum_list (map (json_weight \<circ> snd) ms) \<le> sum_list (map member_weight ms)"
    by (intro sum_list_mono) (simp add: member_weight_def)
  show ?thesis
  proof (cases "map_of ms ''presentation''")
    case None
    then show ?thesis using plain by (simp add: migrate_fields_def)
  next
    case (Some v)
    show ?thesis
    proof (cases v)
      case (JObject p)
      have w: "json_weight (JObject (migrate_presentation p)) \<le> json_weight (JObject p) + rewrite_cost (JObject p)"
        using migrate_presentation_weight [of p] by (cases "map_of p ''actions''") (auto simp: migrate_presentation_def)
      have gain: "sum_list (map (json_weight \<circ> snd) ms) + rewrite_cost (JObject p) \<le> sum_list (map member_weight ms)"
        using Some JObject
      proof (induction ms)
        case (Cons m ms)
        have "sum_list (map (json_weight \<circ> snd) ms) \<le> sum_list (map member_weight ms)"
          by (intro sum_list_mono) (simp add: member_weight_def)
        moreover have "member_weight m = json_weight (snd m) + (if fst m = ''presentation'' then rewrite_cost (snd m) else 0)"
          by (rule member_weight_def)
        ultimately show ?case using Cons by (cases m) (auto simp: comp_def split: if_splits simp del: rewrite_cost.simps)
      qed simp
      from sum_list_update [of "json_weight \<circ> snd" "''presentation''" "JObject (migrate_presentation p)" ms] w gain Some JObject
      show ?thesis by (simp add: migrate_fields_def del: json_weight.simps rewrite_cost.simps)
    qed (use Some plain in \<open>simp_all add: migrate_fields_def\<close>)
  qed
qed

lemma sum_list_member: "x \<in> set xs \<Longrightarrow> f x \<le> (sum_list (map f xs) :: nat)"
  by (induction xs) auto

function migrate_v1_tool_presentations :: "json \<Rightarrow> json" where
  "migrate_v1_tool_presentations (JArray vs) = JArray (map migrate_v1_tool_presentations vs)"
| "migrate_v1_tool_presentations (JObject ms) =
     JObject (map (\<lambda>m. (fst m, migrate_v1_tool_presentations (snd m))) (migrate_fields ms))"
| "migrate_v1_tool_presentations JNull = JNull"
| "migrate_v1_tool_presentations (JBool b) = JBool b"
| "migrate_v1_tool_presentations (JNumber n) = JNumber n"
| "migrate_v1_tool_presentations (JString t) = JString t"
  by pat_completeness auto
termination
proof (relation "measure json_weight")
  fix vs and v :: json
  assume "v \<in> set vs"
  from sum_list_member [OF this, of json_weight] show "(v, JArray vs) \<in> measure json_weight" by simp
next
  fix ms and m :: "string \<times> json"
  assume "m \<in> set (migrate_fields ms)"
  from sum_list_member [OF this, of "json_weight \<circ> snd"] migrate_fields_weight [of ms]
  show "(snd m, JObject ms) \<in> measure json_weight" by (simp add: json_weight_object del: json_weight.simps)
qed simp

end
