(* ===== verification/Chat_Images.thy ===== *)
theory Chat_Images
  imports Journal_Projection Atomic_File Chat_Migration
begin

text \<open>
  Images of a Chat, stored once per Task by content hash
  (\<open>src/openaide-rs/app-server/src/storage/chat_images.rs\<close>): moving inline images into files, describing
  them, and sweeping the files nothing references any more (\<open>task_journal/images.rs\<close>, and the search of
  Subagent histories in \<open>storage/subagents.rs\<close>). Hashing, base64, image headers, the regular
  expression of the retired text syntax, temporary names and the order of directory entries are the
  record \<open>image_codec\<close>.
\<close>

section \<open>What other crates provide\<close>

datatype orientation = Rotate90 | Rotate270 | Rotate90FlipH | Rotate270FlipH | OtherOrientation

text \<open>
  \<open>image_header\<close>: width and height of an image that can be decoded, and its orientation when it can be
  read. \<open>legacy_text_images\<close> and \<open>without_legacy_text_images\<close>: the captures of the regular expression
  for the retired text syntax, and the text with its matches removed.
\<close>

record image_codec =
  sha256 :: "byte list \<Rightarrow> byte list"
  base64_decode :: "string \<Rightarrow> byte list option"
  image_header :: "byte list \<Rightarrow> (nat \<times> nat \<times> orientation option) option"
  legacy_text_images :: "string \<Rightarrow> (string \<times> string) list"
  without_legacy_text_images :: "string \<Rightarrow> string"
  temp_name :: "io_state \<Rightarrow> path \<Rightarrow> string"
  dir_entries :: "io_state \<Rightarrow> path \<Rightarrow> string list"

text \<open>The files of the state root with their modification times in seconds.\<close>

record image_files =
  disk :: io_state
  modified :: "path \<Rightarrow> nat option"

type_synonym 'a img = "image_files \<Rightarrow> (runtime_error + 'a) \<times> image_files"

definition img_return :: "'a \<Rightarrow> 'a img" where
  "img_return x s = (Inr x, s)"

definition img_bind :: "'a img \<Rightarrow> ('a \<Rightarrow> 'b img) \<Rightarrow> 'b img" where
  "img_bind m f s = (case m s of (Inl e, s') \<Rightarrow> (Inl e, s') | (Inr x, s') \<Rightarrow> f x s')"

definition img_lift :: "runtime_error + 'a \<Rightarrow> 'a img" where
  "img_lift r s = (r, s)"

text \<open>A loop that rewrites every element and adds up what the body returns.\<close>

fun img_each :: "('a \<Rightarrow> ('a \<times> nat) img) \<Rightarrow> 'a list \<Rightarrow> ('a list \<times> nat) img" where
  "img_each f [] = img_return ([], 0)"
| "img_each f (x # xs) =
     img_bind (f x) (\<lambda>(y, n). img_bind (img_each f xs) (\<lambda>(ys, k). img_return (y # ys, n + k)))"

section \<open>Identifiers and headers\<close>

definition IMAGES_DIR :: string where "IMAGES_DIR = ''images''"
definition UNREFERENCED_GRACE :: nat where "UNREFERENCED_GRACE = 24 * 60 * 60"
definition SUBAGENTS_DIR :: string where "SUBAGENTS_DIR = ''subagents''"
definition STREAM_HEAD_FILE :: string where "STREAM_HEAD_FILE = ''stream.json''"

definition is_image_id :: "string \<Rightarrow> bool" where
  "is_image_id v \<longleftrightarrow>
     length v = 64 \<and> list_all (\<lambda>c. is_ascii_digit c \<or> (97 \<le> (of_char c :: nat) \<and> (of_char c :: nat) \<le> 102)) v"

definition hex_digit :: "nat \<Rightarrow> char" where
  "hex_digit n = char_of (if n < 10 then 48 + n else 87 + n)"

definition hex :: "byte list \<Rightarrow> string" where
  "hex bytes = concat (map (\<lambda>b. [hex_digit (unat b div 16), hex_digit (unat b mod 16)]) bytes)"

definition display_dimensions :: "image_codec \<Rightarrow> byte list \<Rightarrow> (nat \<times> nat) option" where
  "display_dimensions I bytes =
     Option.bind (image_header I bytes) (\<lambda>(width, height, orientation).
       if width = 0 \<or> height = 0 then None
       else map_option (\<lambda>r. if r \<in> {Rotate90, Rotate270, Rotate90FlipH, Rotate270FlipH} then (height, width) else (width, height))
              orientation)"

record image_reference =
  ref_image_id :: string
  ref_size_bytes :: nat
  ref_dimensions :: "(nat \<times> nat) option"

definition describe :: "image_codec \<Rightarrow> string \<Rightarrow> byte list \<Rightarrow> image_reference" where
  "describe I i bytes = \<lparr>ref_image_id = i, ref_size_bytes = length bytes, ref_dimensions = display_dimensions I bytes\<rparr>"

definition decode_image :: "image_codec \<Rightarrow> string \<Rightarrow> runtime_error + byte list" where
  "decode_image I data = ok_or (base64_decode I data) (Storage ''Stored Chat image is not valid base64'')"

definition inline_reference :: "image_codec \<Rightarrow> string \<Rightarrow> image_reference option" where
  "inline_reference I data =
     (case decode_image I data of Inl _ \<Rightarrow> None | Inr bytes \<Rightarrow> Some (describe I (hex (sha256 I bytes)) bytes))"

section \<open>Storing and reading\<close>

definition image_path :: "path \<Rightarrow> string \<Rightarrow> path" where
  "image_path dir i = dir @ [IMAGES_DIR, i]"

text \<open>A file of the same length is kept and its modification time refreshed; anything else is written.\<close>

definition store_image :: "image_codec \<Rightarrow> nat \<Rightarrow> path \<Rightarrow> byte list \<Rightarrow> string img" where
  "store_image I now dir bytes s =
     (let i = hex (sha256 I bytes);
          p = image_path dir i;
          touched = (modified s)(p := Some now)
      in if \<exists>old. files (disk s) p = Some old \<and> length old = length bytes then (Inr i, s\<lparr>modified := touched\<rparr>)
         else case write_bytes (temp_name I (disk s) (dir @ [IMAGES_DIR])) p bytes (disk s) of
                (Inl e, d) \<Rightarrow> (Inl e, s\<lparr>disk := d, modified := if files d p = files (disk s) p then modified s else touched\<rparr>)
              | (Inr _, d) \<Rightarrow> (Inr i, s\<lparr>disk := d, modified := touched\<rparr>))"

definition read_image :: "path \<Rightarrow> string \<Rightarrow> (byte list) option io" where
  "read_image dir i s =
     (if \<not> is_image_id i then (Inr None, s)
      else case files s (image_path dir i) of
        Some bytes \<Rightarrow> (Inr (Some bytes), s)
      | None \<Rightarrow> if image_path dir i \<in> dirs s then (Inl is_a_directory, s) else (Inr None, s))"

definition read_chat_image :: "path \<Rightarrow> string \<Rightarrow> string \<Rightarrow> (byte list) option io" where
  "read_chat_image root t i =
     io_bind (io_lift (validate_task_id t)) (\<lambda>_. read_image (root @ [''task-store-v1'', ''tasks'', t]) i)"

section \<open>References in messages\<close>

fun json_object :: "json \<Rightarrow> (string \<times> json) list option" where
  "json_object (JObject ms) = Some ms"
| "json_object _ = None"

fun json_as_u32 :: "json \<Rightarrow> nat option" where
  "json_as_u32 (JNumber s) = (if s \<noteq> [] \<and> list_all is_ascii_digit s \<and> dec_value s < 2 ^ 32 then Some (dec_value s) else None)"
| "json_as_u32 _ = None"

definition attachment_image_id :: "attachment \<Rightarrow> string option" where
  "attachment_image_id a =
     Option.bind (attachment_payload a) (\<lambda>v. Option.bind (json_get ''imageId'' v) (\<lambda>w. Option.bind (json_as_str w) (\<lambda>i.
       if is_image_id i then Some i else None)))"

definition attachment_dimensions :: "attachment \<Rightarrow> (nat \<times> nat) option" where
  "attachment_dimensions a =
     Option.bind (attachment_payload a) (\<lambda>v.
     Option.bind (Option.bind (json_get ''width'' v) json_as_u32) (\<lambda>w.
     Option.bind (Option.bind (json_get ''height'' v) json_as_u32) (\<lambda>h. Some (w, h))))"

text \<open>Inline base64 data of an attachment whose media type is an image.\<close>

definition inline_image_payload :: "attachment \<Rightarrow> string option" where
  "inline_image_payload a =
     Option.bind (Option.bind (attachment_payload a) json_object) (\<lambda>ms.
     Option.bind (Option.bind (map_of ms ''mimeType'') json_as_str) (\<lambda>media_type.
       if strip_prefix ''image/'' media_type = None then None
       else Option.bind (Option.bind (map_of ms ''data'') json_as_str) (\<lambda>data. if data = [] then None else Some data)))"

definition inline_attachment_reference :: "image_codec \<Rightarrow> attachment \<Rightarrow> image_reference option" where
  "inline_attachment_reference I a = Option.bind (inline_image_payload a) (inline_reference I)"

fun part_image_id :: "agent_message_part \<Rightarrow> string option" where
  "part_image_id (ImagePart im) = image_id im"
| "part_image_id _ = None"

fun message_image_ids :: "normalized_message \<Rightarrow> string list" where
  "message_image_ids (User _ _ attachments _) = List.map_filter attachment_image_id attachments"
| "message_image_ids (AgentMessage _ _ parts _) = List.map_filter part_image_id parts"
| "message_image_ids _ = []"

definition referenced_ids :: "stored_message list \<Rightarrow> string set" where
  "referenced_ids ms = set (concat (map (\<lambda>m. message_image_ids (chat_message_of (chat m))) ms))"

fun has_inline_image :: "image_codec \<Rightarrow> normalized_message \<Rightarrow> bool" where
  "has_inline_image I (User _ txt attachments _) \<longleftrightarrow>
     legacy_text_images I txt \<noteq> [] \<or> list_ex (\<lambda>a. inline_image_payload a \<noteq> None) attachments"
| "has_inline_image I (AgentMessage _ _ parts _) \<longleftrightarrow>
     list_ex (\<lambda>p. case p of ImagePart im \<Rightarrow> image_data im \<noteq> [] | _ \<Rightarrow> False) parts"
| "has_inline_image I _ \<longleftrightarrow> False"

definition has_inline_images :: "image_codec \<Rightarrow> stored_message list \<Rightarrow> bool" where
  "has_inline_images I ms = list_ex (\<lambda>m. has_inline_image I (chat_message_of (chat m))) ms"

fun lacks_dimensions :: "normalized_message \<Rightarrow> bool" where
  "lacks_dimensions (User _ _ attachments _) =
     list_ex (\<lambda>a. attachment_image_id a \<noteq> None \<and> attachment_dimensions a = None) attachments"
| "lacks_dimensions (AgentMessage _ _ parts _) =
     list_ex (\<lambda>p. case p of ImagePart im \<Rightarrow> image_id im \<noteq> None \<and> image_width im = None | _ \<Rightarrow> False) parts"
| "lacks_dimensions _ = False"

definition has_references_without_dimensions :: "stored_message list \<Rightarrow> bool" where
  "has_references_without_dimensions ms = list_ex (\<lambda>m. lacks_dimensions (chat_message_of (chat m))) ms"

section \<open>Moving inline images into files\<close>

definition insert_dimensions :: "(nat \<times> nat) option \<Rightarrow> (string \<times> json) list \<Rightarrow> (string \<times> json) list" where
  "insert_dimensions dimensions payload =
     (case dimensions of
        None \<Rightarrow> payload
      | Some (w, h) \<Rightarrow> AList.update ''height'' (json_nat h) (AList.update ''width'' (json_nat w) payload))"

definition refer_payload :: "image_reference \<Rightarrow> (string \<times> json) list \<Rightarrow> (string \<times> json) list" where
  "refer_payload r payload =
     insert_dimensions (ref_dimensions r)
       (AList.update ''sizeBytes'' (json_nat (ref_size_bytes r))
         (AList.update ''imageId'' (JString (ref_image_id r)) (AList.delete ''data'' payload)))"

definition externalize_attachment :: "image_codec \<Rightarrow> nat \<Rightarrow> path \<Rightarrow> attachment \<Rightarrow> (attachment \<times> nat) img" where
  "externalize_attachment I now dir a =
     (case inline_image_payload a of
        None \<Rightarrow> img_return (a, 0)
      | Some data \<Rightarrow>
          img_bind (img_lift (decode_image I data)) (\<lambda>bytes.
          img_bind (store_image I now dir bytes) (\<lambda>i.
            let payload = the (Option.bind (attachment_payload a) json_object)
            in img_return (a\<lparr>attachment_payload := Some (JObject (refer_payload (describe I i bytes) payload))\<rparr>, 1))))"

definition split_dimensions :: "(nat \<times> nat) option \<Rightarrow> nat option \<times> nat option" where
  "split_dimensions d = (case d of None \<Rightarrow> (None, None) | Some (w, h) \<Rightarrow> (Some w, Some h))"

fun externalize_part :: "image_codec \<Rightarrow> nat \<Rightarrow> path \<Rightarrow> agent_message_part \<Rightarrow> (agent_message_part \<times> nat) img" where
  "externalize_part I now dir (ImagePart im) =
     (if image_data im = [] then img_return (ImagePart im, 0)
      else img_bind (img_lift (decode_image I (image_data im))) (\<lambda>bytes.
           img_bind (store_image I now dir bytes) (\<lambda>i.
             let r = describe I i bytes; (w, h) = split_dimensions (ref_dimensions r)
             in img_return (ImagePart (im\<lparr>image_id := Some (ref_image_id r), image_size_bytes := Some (ref_size_bytes r),
                              image_width := w, image_height := h, image_data := []\<rparr>), 1))))"
| "externalize_part I now dir p = img_return (p, 0)"

definition ascii_lowercase :: "string \<Rightarrow> string" where
  "ascii_lowercase s =
     map (\<lambda>c. let b = (of_char c :: nat) in if 65 \<le> b \<and> b \<le> 90 then char_of (b + 32) else c) s"

function without_whitespace :: "string \<Rightarrow> string" where
  "without_whitespace [] = []"
| "without_whitespace (c # s) =
     (let n = ws_len (bytes_of (c # s)) in
      if n = 0 then c # without_whitespace s else without_whitespace (drop n (c # s)))"
  by pat_completeness auto
termination
  by (relation "measure length") auto

definition move_legacy_text_images :: "image_codec \<Rightarrow> string \<Rightarrow> attachment list \<Rightarrow> string \<times> attachment list" where
  "move_legacy_text_images I txt attachments =
     (if legacy_text_images I txt = [] then (txt, attachments)
      else (trim_string (without_legacy_text_images I txt),
            attachments @ map (\<lambda>(media, data).
              \<lparr>attachment_kind = ''image'', attachment_label = ''Image'', attachment_path = None,
               attachment_payload = Some (JObject [(''data'', JString (without_whitespace data)),
                                                   (''mimeType'', JString (ascii_lowercase media))])\<rparr>)
              (legacy_text_images I txt)))"

fun externalize_message :: "image_codec \<Rightarrow> nat \<Rightarrow> path \<Rightarrow> normalized_message \<Rightarrow> (normalized_message \<times> nat) img" where
  "externalize_message I now dir (User i txt attachments t) =
     (let (txt', attachments') = move_legacy_text_images I txt attachments in
      img_bind (img_each (externalize_attachment I now dir) attachments') (\<lambda>(as, n). img_return (User i txt' as t, n)))"
| "externalize_message I now dir (AgentMessage i r parts t) =
     img_bind (img_each (externalize_part I now dir) parts) (\<lambda>(ps, n). img_return (AgentMessage i r ps t, n))"
| "externalize_message I now dir m = img_return (m, 0)"

definition externalize_stored :: "image_codec \<Rightarrow> nat \<Rightarrow> path \<Rightarrow> stored_message \<Rightarrow> (stored_message \<times> nat) img" where
  "externalize_stored I now dir m =
     img_bind (externalize_message I now dir (chat_message_of (chat m))) (\<lambda>(msg, n).
       img_return (m\<lparr>chat := (chat m)\<lparr>chat_message_of := msg\<rparr>\<rparr>, n))"

definition externalize_messages :: "image_codec \<Rightarrow> nat \<Rightarrow> path \<Rightarrow> stored_message list \<Rightarrow> (stored_message list \<times> nat) img" where
  "externalize_messages I now dir = img_each (externalize_stored I now dir)"

fun externalize_operation :: "image_codec \<Rightarrow> nat \<Rightarrow> path \<Rightarrow> task_operation \<Rightarrow> (task_operation \<times> nat) img" where
  "externalize_operation I now dir (Create p) =
     img_bind (externalize_messages I now dir (messages p)) (\<lambda>(ms, n). img_return (Create (p\<lparr>messages := ms\<rparr>), n))"
| "externalize_operation I now dir (ReplaceProjection p) =
     img_bind (externalize_messages I now dir (messages p)) (\<lambda>(ms, n). img_return (ReplaceProjection (p\<lparr>messages := ms\<rparr>), n))"
| "externalize_operation I now dir (AppendMessage m) =
     img_bind (externalize_stored I now dir m) (\<lambda>(m', n). img_return (AppendMessage m', n))"
| "externalize_operation I now dir (UpsertMessage m) =
     img_bind (externalize_stored I now dir m) (\<lambda>(m', n). img_return (UpsertMessage m', n))"
| "externalize_operation I now dir (ReplaceMessages ms meta) =
     img_bind (externalize_messages I now dir ms) (\<lambda>(ms', n). img_return (ReplaceMessages ms' meta, n))"
| "externalize_operation I now dir op = img_return (op, 0)"

definition externalize_operations :: "image_codec \<Rightarrow> nat \<Rightarrow> path \<Rightarrow> task_operation list \<Rightarrow> (task_operation list \<times> nat) img" where
  "externalize_operations I now dir = img_each (externalize_operation I now dir)"

section \<open>Recording missing dimensions\<close>

text \<open>The source reads the header of each file once; the files do not change meanwhile.\<close>

definition stored_dimensions :: "image_codec \<Rightarrow> io_state \<Rightarrow> path \<Rightarrow> string \<Rightarrow> (nat \<times> nat) option" where
  "stored_dimensions I d dir i =
     (if \<not> is_image_id i then None else Option.bind (files d (image_path dir i)) (display_dimensions I))"

definition describe_attachment :: "image_codec \<Rightarrow> io_state \<Rightarrow> path \<Rightarrow> attachment \<Rightarrow> attachment \<times> nat" where
  "describe_attachment I d dir a =
     (case attachment_image_id a of
        None \<Rightarrow> (a, 0)
      | Some i \<Rightarrow>
          if attachment_dimensions a \<noteq> None then (a, 0)
          else case (stored_dimensions I d dir i, Option.bind (attachment_payload a) json_object) of
            (Some dims, Some payload) \<Rightarrow> (a\<lparr>attachment_payload := Some (JObject (insert_dimensions (Some dims) payload))\<rparr>, 1)
          | _ \<Rightarrow> (a, 0))"

fun describe_part :: "image_codec \<Rightarrow> io_state \<Rightarrow> path \<Rightarrow> agent_message_part \<Rightarrow> agent_message_part \<times> nat" where
  "describe_part I d dir (ImagePart im) =
     (case (image_id im, image_width im) of
        (Some i, None) \<Rightarrow>
          (case stored_dimensions I d dir i of
             None \<Rightarrow> (ImagePart im, 0)
           | Some (w, h) \<Rightarrow> (ImagePart (im\<lparr>image_width := Some w, image_height := Some h\<rparr>), 1))
      | _ \<Rightarrow> (ImagePart im, 0))"
| "describe_part I d dir p = (p, 0)"

definition tally :: "('a \<Rightarrow> 'a \<times> nat) \<Rightarrow> 'a list \<Rightarrow> 'a list \<times> nat" where
  "tally f xs = (map (\<lambda>x. fst (f x)) xs, sum_list (map (\<lambda>x. snd (f x)) xs))"

fun describe_message :: "image_codec \<Rightarrow> io_state \<Rightarrow> path \<Rightarrow> normalized_message \<Rightarrow> normalized_message \<times> nat" where
  "describe_message I d dir (User i txt attachments t) =
     (let (as, n) = tally (describe_attachment I d dir) attachments in (User i txt as t, n))"
| "describe_message I d dir (AgentMessage i r parts t) =
     (let (ps, n) = tally (describe_part I d dir) parts in (AgentMessage i r ps t, n))"
| "describe_message I d dir m = (m, 0)"

definition add_missing_dimensions :: "image_codec \<Rightarrow> io_state \<Rightarrow> path \<Rightarrow> stored_message list \<Rightarrow> stored_message list \<times> nat" where
  "add_missing_dimensions I d dir =
     tally (\<lambda>m. let (msg, n) = describe_message I d dir (chat_message_of (chat m))
               in (m\<lparr>chat := (chat m)\<lparr>chat_message_of := msg\<rparr>\<rparr>, n))"

definition migrate_projection :: "image_codec \<Rightarrow> nat \<Rightarrow> path \<Rightarrow> task_projection \<Rightarrow> (task_projection \<times> bool) img" where
  "migrate_projection I now dir p =
     (if \<not> has_inline_images I (messages p) \<and> \<not> has_references_without_dimensions (messages p)
      then img_return (p, False)
      else img_bind (externalize_messages I now dir (messages p)) (\<lambda>(ms, moved) s.
             let (ms', described) = add_missing_dimensions I (disk s) dir ms
             in (Inr (p\<lparr>messages := ms'\<rparr>, moved + described > 0), s)))"

section \<open>Sweeping unreferenced files\<close>

definition not_a_directory :: runtime_error where
  "not_a_directory = Storage ''Not a directory (os error 20)''"

text \<open>\<open>fs::read_dir\<close> with \<open>NotFound\<close> told apart.\<close>

definition read_dir :: "image_codec \<Rightarrow> path \<Rightarrow> string list option io" where
  "read_dir I p s =
     (if p \<in> dirs s then (Inr (Some (dir_entries I s p)), s)
      else if files s p \<noteq> None then (Inl not_a_directory, s)
      else (Inr None, s))"

text \<open>The alternation of the identifiers, all of one length, matched from left to right without overlap.\<close>

function find_ids :: "string set \<Rightarrow> string \<Rightarrow> string set" where
  "find_ids ids s =
     (if length s < 64 then {}
      else if take 64 s \<in> ids then insert (take 64 s) (find_ids ids (drop 64 s))
      else find_ids ids (tl s))"
  by auto
termination
  by (relation "measure (\<lambda>(ids, s). length s)") auto

declare find_ids.simps [simp del]

definition ids_mentioned_in :: "byte list \<Rightarrow> string list \<Rightarrow> string set \<Rightarrow> string set" where
  "ids_mentioned_in bytes ids into =
     (let pending = filter (\<lambda>i. is_image_id i \<and> i \<notin> into) ids in
      if pending = [] then into else into \<union> find_ids (set pending) (map (\<lambda>b. char_of (unat b)) bytes))"

fun search_files :: "path \<Rightarrow> string list \<Rightarrow> string list \<Rightarrow> io_state \<Rightarrow> string set \<Rightarrow> string set" where
  "search_files p ids [] s found = found"
| "search_files p ids (name # names) s found =
     search_files p ids names s
       (case files s (p @ [name]) of
          Some bytes \<Rightarrow> if name = STREAM_HEAD_FILE then found else ids_mentioned_in bytes ids found
        | None \<Rightarrow> found)"

fun search_histories :: "image_codec \<Rightarrow> path \<Rightarrow> string list \<Rightarrow> string list \<Rightarrow> io_state \<Rightarrow> string set \<Rightarrow> string set" where
  "search_histories I p ids [] s found = found"
| "search_histories I p ids (name # names) s found =
     search_histories I p ids names s
       (if p @ [name] \<in> dirs s then search_files (p @ [name]) ids (dir_entries I s (p @ [name])) s found else found)"

definition subagent_image_references :: "image_codec \<Rightarrow> path \<Rightarrow> string list \<Rightarrow> string set io" where
  "subagent_image_references I dir ids =
     io_bind (read_dir I (dir @ [SUBAGENTS_DIR])) (\<lambda>entries s.
       (Inr (case entries of None \<Rightarrow> {} | Some names \<Rightarrow> search_histories I (dir @ [SUBAGENTS_DIR]) ids names s {}), s))"

text \<open>The age of a file, unknown when it was modified in the future.\<close>

definition file_age :: "nat \<Rightarrow> (path \<Rightarrow> nat option) \<Rightarrow> path \<Rightarrow> nat option" where
  "file_age now mtimes p = Option.bind (mtimes p) (\<lambda>t. if t \<le> now then Some (now - t) else None)"

definition is_candidate :: "nat \<Rightarrow> (path \<Rightarrow> nat option) \<Rightarrow> path \<Rightarrow> string set \<Rightarrow> string \<Rightarrow> bool" where
  "is_candidate now mtimes dir referenced name \<longleftrightarrow>
     is_image_id name \<and> name \<notin> referenced
     \<and> (case file_age now mtimes (image_path dir name) of None \<Rightarrow> False | Some age \<Rightarrow> age \<ge> UNREFERENCED_GRACE)"

fun remove_images :: "path \<Rightarrow> string list \<Rightarrow> nat io" where
  "remove_images dir [] = io_return 0"
| "remove_images dir (i # is) = (\<lambda>s.
     let here = (if files s (image_path dir i) = None then 0 else 1)
     in io_seq (remove_if_present (image_path dir i))
          (io_bind (remove_images dir is) (\<lambda>n. io_return (here + n))) s)"

definition remove_unreferenced ::
  "image_codec \<Rightarrow> nat \<Rightarrow> (path \<Rightarrow> nat option) \<Rightarrow> path \<Rightarrow> string set \<Rightarrow> (string list \<Rightarrow> string set io) \<Rightarrow> nat io" where
  "remove_unreferenced I now mtimes dir chat_referenced also_referenced =
     io_bind (read_dir I (dir @ [IMAGES_DIR])) (\<lambda>entries. case entries of
       None \<Rightarrow> io_return 0
     | Some names \<Rightarrow>
         let candidates = filter (is_candidate now mtimes dir chat_referenced) names in
         if candidates = [] then io_return 0
         else io_bind (also_referenced candidates) (\<lambda>kept. remove_images dir (filter (\<lambda>i. i \<notin> kept) candidates)))"

text \<open>A failure of the sweep is only logged.\<close>

definition sweep_unreferenced ::
  "image_codec \<Rightarrow> nat \<Rightarrow> (path \<Rightarrow> nat option) \<Rightarrow> path \<Rightarrow> task_projection \<Rightarrow> unit io" where
  "sweep_unreferenced I now mtimes dir p s =
     (Inr (), snd (remove_unreferenced I now mtimes dir (referenced_ids (messages p)) (subagent_image_references I dir) s))"

end
