(* ===== verification/Split_Store.thy ===== *)
theory Split_Store
  imports Chat_Images
begin

text \<open>
  The files of one Task directory (\<open>src/openaide-rs/app-server/src/storage/task_journal/split.rs\<close>): the
  Task metadata \<open>task.json\<close>, a Chat snapshot, and a journal of Chat frames written after it. All
  operations are \<open>io\<close> computations over the byte-level file system of \<open>Journal_Frame\<close>, with the fault
  points in the source's order. \<open>serde_json\<close> and the derived serializers are the record \<open>split_codec\<close>;
  random names are arguments.
\<close>

section \<open>Stored values\<close>

record durable_task_file =
  file_schema_version :: nat
  file_storage_sequence :: nat
  file_chat_sequence :: nat
  file_chat_snapshot :: string
  file_chat_journal :: string
  file_chat_journal_bytes :: "nat option"
  file_task :: task_record

record task_metadata =
  metadata_task :: task_record
  storage_sequence :: nat
  chat_sequence :: nat
  chat_snapshot :: string
  chat_journal :: string
  chat_journal_bytes :: "nat option"

record chat_snapshot_file =
  snapshot_schema_version :: nat
  snapshot_messages :: "stored_message list"
  snapshot_message_meta :: message_meta
  snapshot_artifact_heads :: "string \<Rightarrow> nat option"

record journal_frame =
  frame_format_version :: nat
  frame_schema_version :: nat
  frame_sequence :: nat
  frame_operations :: "task_operation list"

record task_metadata_patch =
  patch_fields :: "(string \<times> json) list"
  removed_fields :: "string list"

record chat_frame =
  frame_journal :: journal_frame
  task_patch :: task_metadata_patch

definition TASK_FILE :: string where "TASK_FILE = ''task.json''"
definition CHAT_SNAPSHOT_FILE :: string where "CHAT_SNAPSHOT_FILE = ''chat.snapshot''"
definition CHAT_JOURNAL_FILE :: string where "CHAT_JOURNAL_FILE = ''chat.journal''"
definition JOURNAL_FILE :: string where "JOURNAL_FILE = ''task.journal''"
definition TASK_SCHEMA_VERSION :: nat where "TASK_SCHEMA_VERSION = 1"
definition CHAT_SCHEMA_VERSION :: nat where "CHAT_SCHEMA_VERSION = 3"

text \<open>
  Encoding and decoding by \<open>serde_json\<close>, with the errors as the source converts them. A Task record is
  an object; its members come as an association list.
\<close>

record split_codec =
  task_file_to_vec :: "durable_task_file \<Rightarrow> runtime_error + byte list"
  task_file_from_slice :: "byte list \<Rightarrow> runtime_error + durable_task_file"
  snapshot_to_vec :: "chat_snapshot_file \<Rightarrow> runtime_error + byte list"
  value_from_slice :: "byte list \<Rightarrow> runtime_error + json"
  snapshot_from_value :: "json \<Rightarrow> runtime_error + chat_snapshot_file"
  chat_frame_to_vec :: "chat_frame \<Rightarrow> string + byte list"
  journal_frame_to_vec :: "journal_frame \<Rightarrow> string + byte list"
  journal_frame_from_value :: "json \<Rightarrow> runtime_error + journal_frame"
  patch_from_value :: "json \<Rightarrow> runtime_error + task_metadata_patch"
  task_to_fields :: "task_record \<Rightarrow> runtime_error + (string \<times> json) list"
  task_from_fields :: "(string \<times> json) list \<Rightarrow> runtime_error + task_record"

section \<open>Schema versions\<close>

definition unsupported_schema :: "string \<Rightarrow> nat \<Rightarrow> runtime_error" where
  "unsupported_schema kind v = Storage (''Unsupported '' @ kind @ '' schema version '' @ dec_string v)"

definition validate_schema :: "string \<Rightarrow> nat \<Rightarrow> nat \<Rightarrow> runtime_error + unit" where
  "validate_schema kind version current = (if version = current then Inr () else Inl (unsupported_schema kind version))"

definition legacy_chat_schema_version :: nat where
  "legacy_chat_schema_version = 1"

text \<open>Decoding of journal frames, of this and of earlier versions.\<close>

definition decode_journal_frame :: "split_codec \<Rightarrow> byte list \<Rightarrow> runtime_error + journal_frame" where
  "decode_journal_frame C payload =
     and_then (value_from_slice C payload) (\<lambda>value.
       let version = (case Option.bind (json_get ''schema_version'' value) json_as_u16 of
                        None \<Rightarrow> legacy_chat_schema_version | Some v \<Rightarrow> v);
           put = json_put ''schema_version'' (json_nat CHAT_SCHEMA_VERSION)
       in and_then (if version = CHAT_SCHEMA_VERSION then Inr value
                    else if version = 2 then put value
                    else if version = 1 then put (migrate_v1_tool_presentations value)
                    else Inl (unsupported_schema ''Chat journal'' version))
            (journal_frame_from_value C))"

definition empty_patch :: task_metadata_patch where
  "empty_patch = \<lparr>patch_fields = [], removed_fields = []\<rparr>"

definition decode_chat_frame :: "split_codec \<Rightarrow> byte list \<Rightarrow> runtime_error + chat_frame" where
  "decode_chat_frame C payload =
     and_then (decode_journal_frame C payload) (\<lambda>j.
     and_then (value_from_slice C payload) (\<lambda>value.
     and_then (case json_get ''task_patch'' value of
                 Some patch \<Rightarrow> patch_from_value C patch
               | None \<Rightarrow> Inr empty_patch) (\<lambda>patch.
       Inr \<lparr>frame_journal = j, task_patch = patch\<rparr>)))"

definition journal_frame_record :: "split_codec \<Rightarrow> journal_frame framed_record" where
  "journal_frame_record C =
     \<lparr>to_vec = journal_frame_to_vec C, decode = decode_journal_frame C,
      format_version = frame_format_version, sequence_of = frame_sequence\<rparr>"

definition chat_frame_record :: "split_codec \<Rightarrow> chat_frame framed_record" where
  "chat_frame_record C =
     \<lparr>to_vec = chat_frame_to_vec C, decode = decode_chat_frame C,
      format_version = frame_format_version \<circ> frame_journal, sequence_of = frame_sequence \<circ> frame_journal\<rparr>"

section \<open>Recovery copies of changed Task fields\<close>

definition cleared :: "task_record \<Rightarrow> task_record" where
  "cleared t = snd (clear_process_local_agent_state t)"

text \<open>The fields of \<open>after\<close> that differ from \<open>before\<close>, and those it no longer has.\<close>

definition patch_between :: "split_codec \<Rightarrow> task_record \<Rightarrow> task_record \<Rightarrow> runtime_error + task_metadata_patch" where
  "patch_between C before after =
     and_then (task_to_fields C before) (\<lambda>b.
     and_then (task_to_fields C (cleared after)) (\<lambda>a.
       Inr \<lparr>patch_fields = filter (\<lambda>(k, v). map_of b k \<noteq> Some v) a,
            removed_fields = filter (\<lambda>k. map_of a k = None) (map fst b)\<rparr>))"

definition patch_apply :: "split_codec \<Rightarrow> task_metadata_patch \<Rightarrow> task_record \<Rightarrow> runtime_error + task_record" where
  "patch_apply C patch task =
     (if patch_fields patch = [] \<and> removed_fields patch = [] then Inr task
      else and_then (task_to_fields C task) (\<lambda>fs.
             let kept = fold AList.delete (removed_fields patch) fs;
                 merged = fold (\<lambda>(k, v). AList.update k v) (patch_fields patch) kept
             in and_then (task_from_fields C merged) (\<lambda>recovered.
                  if task_id recovered \<noteq> task_id task
                  then Inl (Storage ''Chat recovery metadata changes Task identity'')
                  else Inr recovered)))"

section \<open>Files\<close>

definition file_length_or_zero :: "path \<Rightarrow> nat io" where
  "file_length_or_zero p s = (Inr (case files s p of None \<Rightarrow> 0 | Some bytes \<Rightarrow> length bytes), s)"

definition temporary_path :: "string \<Rightarrow> path \<Rightarrow> path" where
  "temporary_path uuid p = butlast p @ [''.'' @ last p @ ''.'' @ uuid]"

definition replace_json_body :: "path \<Rightarrow> path \<Rightarrow> path \<Rightarrow> byte list \<Rightarrow> journal_kind \<Rightarrow> unit io" where
  "replace_json_body up temporary p bytes kind =
     io_seq (check kind DirectoryParentSync)
    (io_seq (check kind CreateOpen)
    (io_seq (check kind AppendOpen)
    (io_seq (create_new_file temporary)
    (io_seq (check kind CreateHeaderWrite)
    (io_seq (check kind FrameLengthWrite)
    (io_seq (check kind FramePayloadWrite)
    (io_seq (write_all temporary bytes)
    (io_seq (check kind FrameChecksumWrite)
    (io_seq (check kind FileSync)
    (io_seq record_sync
    (io_seq (replace_file temporary p)
    (io_seq (check kind ParentSync)
    (open_directory up)))))))))))))"

definition durable_replace_json :: "string \<Rightarrow> path \<Rightarrow> runtime_error + byte list \<Rightarrow> journal_kind \<Rightarrow> unit io" where
  "durable_replace_json uuid p encoded kind s =
     (case encoded of
        Inl e \<Rightarrow> (Inl e, s)
      | Inr bytes \<Rightarrow>
          (case parent p of
             None \<Rightarrow> (Inl (Storage ''split Task file has no parent''), s)
           | Some up \<Rightarrow>
               (case replace_json_body up (temporary_path uuid p) p bytes kind s of
                  (Inr u, s') \<Rightarrow> (Inr u, s')
                | (Inl e, s') \<Rightarrow> (Inl e, remove_file (temporary_path uuid p) s'))))"

section \<open>Reading\<close>

definition load_task :: "split_codec \<Rightarrow> path \<Rightarrow> task_metadata option io" where
  "load_task C dir s =
     (case files s (dir @ [TASK_FILE]) of
        None \<Rightarrow> if dir @ [TASK_FILE] \<in> dirs s then (Inl is_a_directory, s) else (Inr None, s)
      | Some bytes \<Rightarrow>
          (and_then (task_file_from_slice C bytes) (\<lambda>f.
             let task = (file_task f)\<lparr>config_options_catalog_of := None,
                          config_mutation := (config_mutation (file_task f))\<lparr>mutation_preferences := None\<rparr>\<rparr>
             in and_then (validate_schema ''Task metadata'' (file_schema_version f) TASK_SCHEMA_VERSION) (\<lambda>_.
                  Inr (Some \<lparr>metadata_task = task, storage_sequence = file_storage_sequence f,
                    chat_sequence = file_chat_sequence f, chat_snapshot = file_chat_snapshot f,
                    chat_journal = file_chat_journal f, chat_journal_bytes = file_chat_journal_bytes f\<rparr>))), s))"

definition split_exists :: "split_codec \<Rightarrow> path \<Rightarrow> io_state \<Rightarrow> bool" where
  "split_exists C dir s =
     (case fst (load_task C dir s) of
        Inr (Some m) \<Rightarrow> files s (dir @ [chat_snapshot m]) \<noteq> None
      | _ \<Rightarrow> False)"

definition load_chat_snapshot :: "split_codec \<Rightarrow> path \<Rightarrow> (chat_snapshot_file \<times> bool) io" where
  "load_chat_snapshot C p =
     io_bind (read_file p) (\<lambda>bytes.
     io_lift (and_then (value_from_slice C bytes) (\<lambda>value.
       case Option.bind (json_get ''schemaVersion'' value) json_as_u16 of
         None \<Rightarrow> Inl (Storage ''Chat snapshot schema version is missing'')
       | Some version \<Rightarrow>
           let put = json_put ''schemaVersion'' (json_nat CHAT_SCHEMA_VERSION) in
           and_then (if version = CHAT_SCHEMA_VERSION then Inr (value, False)
                     else if version = 2 then map_sum id (\<lambda>v. (v, False)) (put value)
                     else if version = 1 then map_sum id (\<lambda>v. (v, True)) (put (migrate_v1_tool_presentations value))
                     else Inl (unsupported_schema ''Chat snapshot'' version)) (\<lambda>(v, migrated).
           and_then (snapshot_from_value C v) (\<lambda>snapshot.
           and_then (validate_schema ''Chat snapshot'' (snapshot_schema_version snapshot) CHAT_SCHEMA_VERSION) (\<lambda>_.
             Inr (snapshot, migrated)))))))"

section \<open>Publishing\<close>

definition publish_task ::
  "split_codec \<Rightarrow> string \<Rightarrow> path \<Rightarrow> task_record \<Rightarrow> nat \<Rightarrow> nat \<Rightarrow> string \<Rightarrow> string \<Rightarrow> unit io" where
  "publish_task C uuid dir task storage_seq chat_seq snapshot journal =
     io_bind (file_length_or_zero (dir @ [journal])) (\<lambda>len.
       durable_replace_json uuid (dir @ [TASK_FILE])
         (task_file_to_vec C
            \<lparr>file_schema_version = TASK_SCHEMA_VERSION, file_storage_sequence = storage_seq, file_chat_sequence = chat_seq,
             file_chat_snapshot = snapshot, file_chat_journal = journal, file_chat_journal_bytes = Some len,
             file_task = cleared task\<rparr>)
         TaskKind)"

definition snapshot_of :: "task_projection \<Rightarrow> chat_snapshot_file" where
  "snapshot_of p =
     \<lparr>snapshot_schema_version = CHAT_SCHEMA_VERSION, snapshot_messages = messages p,
      snapshot_message_meta = message_meta_of p, snapshot_artifact_heads = artifact_heads p\<rparr>"

definition publish_initial :: "split_codec \<Rightarrow> string \<Rightarrow> string \<Rightarrow> path \<Rightarrow> task_projection \<Rightarrow> nat \<Rightarrow> unit io" where
  "publish_initial C u1 u2 dir p storage_seq =
     io_seq (create_dir_all dir)
    (io_seq (durable_replace_json u1 (dir @ [CHAT_SNAPSHOT_FILE]) (snapshot_to_vec C (snapshot_of p)) TaskKind)
    (publish_task C u2 dir (projected_task p) storage_seq 0 CHAT_SNAPSHOT_FILE CHAT_JOURNAL_FILE))"

section \<open>Loading a projection\<close>

text \<open>A write with an injector of its own that is never armed.\<close>

definition unfaulted :: "unit io \<Rightarrow> unit io" where
  "unfaulted m s = (case m (s\<lparr>armed := None\<rparr>) of (r, s') \<Rightarrow> (r, s'\<lparr>armed := armed s, sync_calls := sync_calls s\<rparr>))"

text \<open>A first journal whose header was never completed is disposable.\<close>

definition discard_partial_header :: "path \<Rightarrow> task_metadata \<Rightarrow> unit io" where
  "discard_partial_header dir m s =
     (case files s (dir @ [chat_journal m]) of
        Some bytes \<Rightarrow>
          if chat_sequence m = 0 \<and> length bytes < FILE_HEADER_LEN
          then open_directory dir (remove_file (dir @ [chat_journal m]) s)
          else (Inr (), s)
      | None \<Rightarrow> (Inr (), s))"

definition with_task :: "string \<Rightarrow> (task_record \<Rightarrow> runtime_error + task_record) \<Rightarrow> recovered_state \<Rightarrow> runtime_error + recovered_state" where
  "with_task t f st =
     (case st t of
        Some (Available p n) \<Rightarrow>
          and_then (f (projected_task p)) (\<lambda>task. Inr (st(t := Some (Available (p\<lparr>projected_task := task\<rparr>) n))))
      | _ \<Rightarrow> Inl panics)"

text \<open>The frame at the checkpoint takes the Task of the metadata, a later one its recovery copy.\<close>

definition recover_chat_frame ::
  "split_codec \<Rightarrow> task_metadata \<Rightarrow> chat_frame \<Rightarrow> recovered_state \<Rightarrow> runtime_error + recovered_state" where
  "recover_chat_frame C m f st =
     (let t = task_id (metadata_task m); n = frame_sequence (frame_journal f) in
      and_then (apply_operations t (frame_operations (frame_journal f)) n st) (\<lambda>st1.
        if n = chat_sequence m then with_task t (\<lambda>_. Inr (metadata_task m)) st1
        else if n > chat_sequence m then with_task t (patch_apply C (task_patch f)) st1
        else Inr st1))"

definition recover_chat_frames ::
  "split_codec \<Rightarrow> task_metadata \<Rightarrow> task_projection \<Rightarrow> chat_frame list \<Rightarrow> runtime_error + task_projection" where
  "recover_chat_frames C m p fs =
     (let t = task_id (metadata_task m) in
      and_then (try_fold (recover_chat_frame C m) fs ((\<lambda>_. None)(t := Some (Available p 0)))) (\<lambda>st.
        case st t of
          Some (Available q _) \<Rightarrow> Inr (align_history q)
        | _ \<Rightarrow> Inl panics))"

text \<open>A first journal without a complete frame is removed, because its first append creates the file.\<close>

definition settle_journal :: "path \<Rightarrow> path \<Rightarrow> nat \<Rightarrow> nat io" where
  "settle_journal dir journal count s =
     (if count = 0
      then (case open_directory dir (remove_file journal s) of
              (Inl e, s') \<Rightarrow> (Inl e, s')
            | (Inr _, s') \<Rightarrow> (Inr 0, s'))
      else (case files s journal of
              None \<Rightarrow> (Inl not_found, s)
            | Some bytes \<Rightarrow> (Inr (length bytes), s)))"

definition rewrite_snapshot :: "split_codec \<Rightarrow> string \<Rightarrow> path \<Rightarrow> chat_snapshot_file \<Rightarrow> bool \<Rightarrow> unit io" where
  "rewrite_snapshot C uuid p snapshot migrated =
     (if migrated then unfaulted (durable_replace_json uuid p (snapshot_to_vec C snapshot) TaskKind) else io_return ())"

text \<open>What a loaded Task without repairs still has to write: a migrated snapshot, a first checkpoint.\<close>

definition finish_load ::
  "split_codec \<Rightarrow> string \<Rightarrow> string \<Rightarrow> path \<Rightarrow> task_metadata \<Rightarrow> chat_snapshot_file \<Rightarrow> bool \<Rightarrow> task_projection
   \<Rightarrow> (task_projection \<times> nat) option io" where
  "finish_load C u1 u2 dir m snapshot migrated p =
     io_seq (rewrite_snapshot C u2 (dir @ [chat_snapshot m]) snapshot migrated)
    (io_seq (if chat_journal_bytes m = None
             then unfaulted (publish_task C u1 dir (projected_task p) (storage_sequence m) (chat_sequence m) (chat_snapshot m) (chat_journal m))
             else io_return ())
    (io_return (Some (p, storage_sequence m))))"

definition load_with_journal ::
  "split_codec \<Rightarrow> string \<Rightarrow> string \<Rightarrow> path \<Rightarrow> task_metadata \<Rightarrow> chat_snapshot_file \<Rightarrow> bool \<Rightarrow> task_projection
   \<Rightarrow> (task_projection \<times> nat) option io" where
  "load_with_journal C u1 u2 dir m snapshot migrated p =
     (let journal = dir @ [chat_journal m] in
      io_bind (replay (chat_frame_record C) journal) (\<lambda>replayed.
      let count = frame_count replayed in
      if count < chat_sequence m then io_fail (Storage ''Chat journal is behind its committed Task metadata'')
      else io_bind (io_lift (recover_chat_frames C m p (frames replayed))) (\<lambda>q.
           io_bind (settle_journal dir journal count) (\<lambda>len.
           if count > chat_sequence m \<or> (case chat_journal_bytes m of None \<Rightarrow> False | Some b \<Rightarrow> b \<noteq> len)
           then (let repaired = sat_add64 (storage_sequence m) (count - chat_sequence m) in
                 io_seq (unfaulted (publish_task C u1 dir (projected_task q) repaired count (chat_snapshot m) (chat_journal m)))
                (io_seq (rewrite_snapshot C u2 (dir @ [chat_snapshot m]) snapshot migrated)
                (io_return (Some (q, repaired)))))
           else finish_load C u1 u2 dir m snapshot migrated q))))"

definition load_projection :: "split_codec \<Rightarrow> string \<Rightarrow> string \<Rightarrow> path \<Rightarrow> (task_projection \<times> nat) option io" where
  "load_projection C u1 u2 dir =
     io_bind (load_task C dir) (\<lambda>found. case found of
       None \<Rightarrow> io_return None
     | Some m \<Rightarrow>
         io_bind (load_chat_snapshot C (dir @ [chat_snapshot m])) (\<lambda>(snapshot, migrated).
         let p = \<lparr>projected_task = metadata_task m, messages = snapshot_messages snapshot,
                  message_meta_of = snapshot_message_meta snapshot, artifact_heads = snapshot_artifact_heads snapshot\<rparr> in
         io_seq (discard_partial_header dir m) (\<lambda>s.
           if files s (dir @ [chat_journal m]) \<noteq> None then load_with_journal C u1 u2 dir m snapshot migrated p s
           else if chat_sequence m > 0 then (Inl (Storage ''Committed Chat journal generation is missing''), s)
           else finish_load C u1 u2 dir m snapshot migrated p s)))"

definition load_catalog_task :: "split_codec \<Rightarrow> string \<Rightarrow> string \<Rightarrow> path \<Rightarrow> task_metadata option io" where
  "load_catalog_task C u1 u2 dir =
     io_bind (load_task C dir) (\<lambda>found. case found of
       None \<Rightarrow> io_return None
     | Some m \<Rightarrow>
         (case chat_journal_bytes m of
            None \<Rightarrow> io_return (Some m)
          | Some committed \<Rightarrow>
              io_bind (file_length_or_zero (dir @ [chat_journal m])) (\<lambda>len.
                if len > committed then io_bind (load_projection C u1 u2 dir) (\<lambda>_. load_task C dir)
                else io_return (Some m))))"

section \<open>Committing\<close>

fun durable_chat_operation :: "task_operation \<Rightarrow> task_operation option" where
  "durable_chat_operation (Create _) = None"
| "durable_chat_operation (ReplaceTask _) = None"
| "durable_chat_operation (ReplaceProjection p) =
     Some (ReplaceProjection (p\<lparr>projected_task := cleared (projected_task p)\<rparr>))"
| "durable_chat_operation op = Some op"

definition durable_chat_operations :: "task_operation list \<Rightarrow> task_operation list" where
  "durable_chat_operations ops = List.map_filter durable_chat_operation ops"

definition metadata_missing :: runtime_error where
  "metadata_missing = Storage ''Split Task metadata is missing''"

definition load_required :: "split_codec \<Rightarrow> path \<Rightarrow> task_metadata io" where
  "load_required C dir = io_bind (load_task C dir) (\<lambda>m. io_lift (ok_or m metadata_missing))"

text \<open>The Chat frame of a commit, if it has one: its sequence number is returned.\<close>

definition append_chat_frame ::
  "split_codec \<Rightarrow> path \<Rightarrow> task_metadata \<Rightarrow> task_record \<Rightarrow> task_operation list \<Rightarrow> journal_kind \<Rightarrow> nat io" where
  "append_chat_frame C dir m task ops kind =
     (if ops = [] then io_return (chat_sequence m)
      else io_bind (io_lift (ok_or (checked_add64 (chat_sequence m) 1) (Storage ''Chat journal sequence overflow''))) (\<lambda>n.
           io_bind (io_lift (patch_between C (metadata_task m) task)) (\<lambda>patch.
           let frame = \<lparr>frame_journal = \<lparr>frame_format_version = 1, frame_schema_version = CHAT_SCHEMA_VERSION,
                                           frame_sequence = n, frame_operations = ops\<rparr>,
                        task_patch = patch\<rparr>;
               journal = dir @ [chat_journal m]
           in io_seq (if n = 1 then create_with_faults (chat_frame_record C) journal frame kind
                      else append_with_faults (chat_frame_record C) journal frame kind)
                (io_return n))))"

definition split_append ::
  "split_codec \<Rightarrow> string \<Rightarrow> path \<Rightarrow> task_projection \<Rightarrow> task_operation list \<Rightarrow> nat \<Rightarrow> journal_kind \<Rightarrow> unit io" where
  "split_append C uuid dir p ops storage_seq kind =
     io_bind (load_required C dir) (\<lambda>m.
     io_bind (append_chat_frame C dir m (projected_task p) (durable_chat_operations ops) kind) (\<lambda>n.
       publish_task C uuid dir (projected_task p) storage_seq n (chat_snapshot m) (chat_journal m)))"

text \<open>
  \<open>generation\<close> is the random name of the new snapshot and journal; \<open>now\<close> and \<open>mtimes\<close> are the clock and the
  modification times the sweep of image files sees.
\<close>

definition split_compact ::
  "split_codec \<Rightarrow> image_codec \<Rightarrow> nat \<Rightarrow> (path \<Rightarrow> nat option) \<Rightarrow> string \<Rightarrow> string \<Rightarrow> string \<Rightarrow> path \<Rightarrow> task_projection
   \<Rightarrow> nat \<Rightarrow> unit io" where
  "split_compact C I now mtimes generation u1 u2 dir p storage_seq =
     io_bind (load_required C dir) (\<lambda>m.
     let new_snapshot = CHAT_SNAPSHOT_FILE @ ''.'' @ generation;
         new_journal = CHAT_JOURNAL_FILE @ ''.'' @ generation
     in io_seq (durable_replace_json u1 (dir @ [new_snapshot]) (snapshot_to_vec C (snapshot_of p)) CompactionKind)
       (io_seq (check CompactionKind CompactionValidate)
       (io_seq (check CompactionKind CompactionPublish)
       (io_seq (publish_task C u2 dir (projected_task p) storage_seq 0 new_snapshot new_journal)
       (io_seq (remove_if_present (dir @ [chat_journal m]))
       (io_seq (if chat_snapshot m \<noteq> new_snapshot then remove_if_present (dir @ [chat_snapshot m]) else io_return ())
       (io_seq (check CompactionKind CompactionPublishParentSync)
       (io_seq (open_directory dir)
       (sweep_unreferenced I now mtimes dir p)))))))))"

definition compaction_is_worthwhile :: "split_codec \<Rightarrow> path \<Rightarrow> bool io" where
  "compaction_is_worthwhile C dir =
     io_bind (load_required C dir) (\<lambda>m s.
       let journal = dir @ [chat_journal m] in
       if \<not> path_exists s journal then (Inr False, s)
       else io_bind (scan (journal_frame_record C) journal) (\<lambda>replayed.
              if frame_count replayed \<ge> 128 then io_return True
              else io_bind (read_file journal) (\<lambda>j. io_bind (read_file (dir @ [chat_snapshot m])) (\<lambda>sn.
                     io_return (length j \<ge> length sn \<and> length j \<ge> 1024 * 1024)))) s)"

definition remove_legacy_files :: "path \<Rightarrow> unit io" where
  "remove_legacy_files dir =
     io_seq (remove_if_present (dir @ [JOURNAL_FILE]))
    (io_seq (remove_if_present (dir @ [''task.catalog.json'']))
    (open_directory dir))"

text \<open>\<open>same\<close> compares two projections by their serialized values.\<close>

definition split_migrate ::
  "split_codec \<Rightarrow> (task_projection \<Rightarrow> task_projection \<Rightarrow> bool) \<Rightarrow> string \<Rightarrow> string \<Rightarrow> string \<Rightarrow> string \<Rightarrow> path
   \<Rightarrow> task_projection \<Rightarrow> nat \<Rightarrow> unit io" where
  "split_migrate C same u1 u2 u3 u4 dir p storage_seq =
     io_seq (publish_initial C u1 u2 dir p storage_seq)
    (io_bind (load_projection C u3 u4 dir) (\<lambda>loaded.
     case loaded of
       None \<Rightarrow> io_fail (Storage ''Published split Task could not be loaded'')
     | Some (verified, n) \<Rightarrow>
         if \<not> same verified (p\<lparr>projected_task := cleared (projected_task p)\<rparr>) \<or> n \<noteq> storage_seq
         then io_fail (Storage ''Published split Task failed validation'')
         else (\<lambda>s. (Inr (), snd (remove_legacy_files dir s)))))"

definition persist_split_commit ::
  "split_codec \<Rightarrow> string \<Rightarrow> string \<Rightarrow> path \<Rightarrow> task_projection \<Rightarrow> task_operation list \<Rightarrow> nat \<Rightarrow> bool \<Rightarrow> unit io" where
  "persist_split_commit C u1 u2 dir p ops storage_seq has_artifact_reference =
     (if storage_seq = 1 then publish_initial C u1 u2 dir p storage_seq
      else split_append C u1 dir p ops storage_seq (if has_artifact_reference then ArtifactReferenceKind else TaskKind))"

end
