(* ===== verification/Split_Chat_Facts.thy ===== *)
theory Split_Chat_Facts
  imports Split_Store
begin

text \<open>
  What the Chat frames of a Task directory mean: which operations a frame keeps, what a replay of the
  frames over the snapshot yields, and what the recovery copy of changed Task fields restores when the
  metadata was not published any more. Everything here is about values; the files are in
  \<open>Split_Store_Facts\<close>.
\<close>

section \<open>Tasks up to the history version\<close>

definition freshness_cleared :: "task_record \<Rightarrow> data_freshness" where
  "freshness_cleared t =
     (if (config_options_catalog_of t \<noteq> None \<or> agent_commands_catalog_of t \<noteq> None) \<and> \<not> is_stale (native_session_data_freshness t)
      then snd (mark_stale (native_session_data_freshness t)) else native_session_data_freshness t)"

lemma cleared_eq:
  "cleared t = t\<lparr>config_options_catalog_of := None,
     config_mutation := (config_mutation t)\<lparr>mutation_preferences := None, mutation_pending := None\<rparr>,
     context_usage := None, last_turn_usage := None, native_session_data_freshness := freshness_cleared t\<rparr>"
  by (simp add: cleared_def clear_process_local_agent_state_def mark_native_session_data_stale_def freshness_cleared_def
      Let_def split: prod.split)

lemma stale_after_mark: "is_stale (snd (mark_stale f))"
  by (simp add: mark_stale_def is_stale_def)

lemma cleared_history [simp]: "cleared (t\<lparr>message_history_version := v\<rparr>) = (cleared t)\<lparr>message_history_version := v\<rparr>"
  by (simp add: cleared_eq freshness_cleared_def)

lemma cleared_idem [simp]: "cleared (cleared t) = cleared t"
proof -
  have "freshness_cleared (cleared t) = native_session_data_freshness (cleared t)"
    by (simp add: freshness_cleared_def [of "cleared t"]) (simp add: cleared_eq freshness_cleared_def stale_after_mark)
  then show ?thesis by (simp add: cleared_eq [of "cleared t"]) (simp add: cleared_eq [of t])
qed

lemma cleared_fields [simp]:
  "task_id (cleared t) = task_id t"
  "config_options_catalog_of (cleared t) = None" "mutation_preferences (config_mutation (cleared t)) = None"
  by (simp_all add: cleared_eq)

text \<open>A Task without its history version, which the loader takes from the Chat metadata.\<close>

definition hist0 :: "task_record \<Rightarrow> task_record" where
  "hist0 t = t\<lparr>message_history_version := 0\<rparr>"

lemma hist0_update [simp]: "hist0 (t\<lparr>message_history_version := v\<rparr>) = hist0 t"
  by (simp add: hist0_def)

lemma hist0_restore: "(hist0 t)\<lparr>message_history_version := v\<rparr> = t\<lparr>message_history_version := v\<rparr>"
  by (simp add: hist0_def)

lemma hist0_eqD: "hist0 t = hist0 u \<Longrightarrow> t\<lparr>message_history_version := v\<rparr> = u\<lparr>message_history_version := v\<rparr>"
  by (metis hist0_restore)

lemma hist0_eqE:
  assumes "hist0 t = hist0 u"
  obtains v where "t = u\<lparr>message_history_version := v\<rparr>"
proof
  show "t = u\<lparr>message_history_version := message_history_version t\<rparr>"
    using hist0_eqD [OF assms, of "message_history_version t"] by simp
qed

lemma hist0_cleared: "hist0 t = hist0 u \<Longrightarrow> hist0 (cleared t) = hist0 (cleared u)"
  by (erule hist0_eqE) simp

lemma hist0_task_id: "hist0 t = hist0 u \<Longrightarrow> task_id t = task_id u"
  by (erule hist0_eqE) simp

text \<open>What a restart keeps of a projection: process-local state is gone, the history version follows the Chat.\<close>

definition settled :: "task_projection \<Rightarrow> task_projection" where
  "settled p = align_history (p\<lparr>projected_task := cleared (projected_task p)\<rparr>)"

lemma settled_idem [simp]: "settled (settled p) = settled p"
  by (simp add: settled_def align_history_def)

lemma settled_align: "settled (align_history p) = settled p"
  by (simp add: settled_def align_history_def)

section \<open>The Chat of a projection\<close>

definition chat_eq :: "task_projection \<Rightarrow> task_projection \<Rightarrow> bool" where
  "chat_eq p q \<longleftrightarrow> messages p = messages q \<and> message_meta_of p = message_meta_of q \<and> artifact_heads p = artifact_heads q"

lemma chat_eq_refl [simp]: "chat_eq p p"
  by (simp add: chat_eq_def)

lemma chat_eq_sym: "chat_eq p q \<Longrightarrow> chat_eq q p"
  by (simp add: chat_eq_def)

lemma chat_eq_trans: "chat_eq p q \<Longrightarrow> chat_eq q r \<Longrightarrow> chat_eq p r"
  by (simp add: chat_eq_def)

lemma chat_eq_task [simp]: "chat_eq (p\<lparr>projected_task := t\<rparr>) q \<longleftrightarrow> chat_eq p q"
  "chat_eq p (q\<lparr>projected_task := t\<rparr>) \<longleftrightarrow> chat_eq p q"
  by (simp_all add: chat_eq_def)

lemma chat_eq_align [simp]: "chat_eq (align_history p) q \<longleftrightarrow> chat_eq p q" "chat_eq p (align_history q) \<longleftrightarrow> chat_eq p q"
  by (simp_all add: chat_eq_def align_history_def)

lemma chat_eq_settled [simp]: "chat_eq (settled p) q \<longleftrightarrow> chat_eq p q" "chat_eq p (settled q) \<longleftrightarrow> chat_eq p q"
  by (simp_all add: settled_def)

lemma settled_eq:
  assumes "chat_eq q p" "hist0 (projected_task q) = hist0 (cleared (projected_task p))"
  shows "align_history q = settled p"
  using assms(1) hist0_eqD [OF assms(2), of "meta_version (message_meta_of p)"]
  by (cases q; cases p) (simp add: settled_def align_history_def chat_eq_def)

text \<open>
  A batch in which no \<open>ReplaceTask\<close> follows a \<open>ReplaceProjection\<close> and which creates nothing: the batches
  a Task that exists accepts from the callers of the journal.
\<close>

fun tasks_first :: "bool \<Rightarrow> task_operation list \<Rightarrow> bool" where
  "tasks_first seen [] = True"
| "tasks_first seen (Create _ # ops) = False"
| "tasks_first seen (ReplaceTask _ # ops) = (\<not> seen \<and> tasks_first seen ops)"
| "tasks_first seen (ReplaceProjection _ # ops) = tasks_first True ops"
| "tasks_first seen (_ # ops) = tasks_first seen ops"

fun replaces_projection :: "task_operation list \<Rightarrow> bool" where
  "replaces_projection [] = False"
| "replaces_projection (ReplaceProjection _ # ops) = True"
| "replaces_projection (_ # ops) = replaces_projection ops"

lemma durable_Nil [simp]: "durable_chat_operations [] = []"
  by (simp add: durable_chat_operations_def)

lemma durable_Cons:
  "durable_chat_operations (op # ops) =
     (case durable_chat_operation op of None \<Rightarrow> durable_chat_operations ops
      | Some d \<Rightarrow> d # durable_chat_operations ops)"
  by (simp add: durable_chat_operations_def List.map_filter_simps split: option.split)

section \<open>Applying the operations a frame keeps\<close>

abbreviation only_task :: "string \<Rightarrow> task_projection \<Rightarrow> nat \<Rightarrow> recovered_state" where
  "only_task t p n \<equiv> (\<lambda>_. None)(t := Some (Available p n))"

lemma only_task_eq [simp]: "only_task t p n = only_task t q k \<longleftrightarrow> p = q \<and> n = k"
  by (metis fun_upd_same option.inject recovered_task.inject(1))

text \<open>
  Two runs of \<open>apply_operation\<close>, one with the whole batch and one with the operations of the frame:
  the Chats agree; the Task of the second is \<open>base\<close>, until a whole projection replaces it.
\<close>

definition follows :: "string \<Rightarrow> task_record \<Rightarrow> bool \<Rightarrow> apply_state \<Rightarrow> apply_state \<Rightarrow> bool" where
  "follows t base seen s s' \<longleftrightarrow>
     (\<exists>p n q k. recovered s t = Some (Available p n) \<and> chat_eq p q
        \<and> s' = \<lparr>recovered = only_task t q k, history_changed = history_changed s, message_meta_replaced = message_meta_replaced s\<rparr>
        \<and> hist0 (projected_task q) = hist0 (if seen then cleared (projected_task p) else base))"

lemma followsE:
  assumes "follows t base seen s s'"
  obtains p n q k where "recovered s t = Some (Available p n)" "chat_eq p q"
    "s' = \<lparr>recovered = only_task t q k, history_changed = history_changed s, message_meta_replaced = message_meta_replaced s\<rparr>"
    "hist0 (projected_task q) = hist0 (if seen then cleared (projected_task p) else base)"
  using assms by (auto simp: follows_def)

lemma align_history_simps [simp]:
  "messages (align_history p) = messages p" "message_meta_of (align_history p) = message_meta_of p"
  "artifact_heads (align_history p) = artifact_heads p"
  "projected_task (align_history p) = (projected_task p)\<lparr>message_history_version := meta_version (message_meta_of p)\<rparr>"
  by (simp_all add: align_history_def)

lemma follows_step:
  assumes "follows t base seen s s'" "apply_operation t n op s = Inr s1" "tasks_first seen (op # ops)"
  shows "case durable_chat_operation op of
           None \<Rightarrow> follows t base seen s1 s' \<and> tasks_first seen ops
         | Some d \<Rightarrow> \<exists>s1'. apply_operation t n' d s' = Inr s1'
             \<and> follows t base (seen \<or> replaces_projection [op]) s1 s1'
             \<and> tasks_first (seen \<or> replaces_projection [op]) ops"
  using assms(1)
proof (rule followsE)
  fix p a q b
  assume *: "recovered s t = Some (Available p a)" "chat_eq p q"
    "s' = \<lparr>recovered = only_task t q b, history_changed = history_changed s, message_meta_replaced = message_meta_replaced s\<rparr>"
    "hist0 (projected_task q) = hist0 (if seen then cleared (projected_task p) else base)"
  show ?thesis
    using * assms(2,3)
    by (cases op; cases seen) (auto simp: follows_def available_projection_def put_projection_def and_then_eq_Inr chat_eq_def
      fun_upd_idem)
qed

lemma follows_fold:
  assumes "follows t base seen s s'" "try_fold (apply_operation t n) ops s = Inr s1" "tasks_first seen ops"
  shows "\<exists>s1' seen'. try_fold (apply_operation t n') (durable_chat_operations ops) s' = Inr s1'
           \<and> follows t base seen' s1 s1'"
  using assms
proof (induction ops arbitrary: s s' seen)
  case Nil
  then show ?case by auto
next
  case (Cons op ops)
  from Cons.prems(2) obtain s2 where s2: "apply_operation t n op s = Inr s2"
    and rest: "try_fold (apply_operation t n) ops s2 = Inr s1"
    by (auto simp: and_then_eq_Inr)
  note step = follows_step [OF Cons.prems(1) s2 Cons.prems(3), of n']
  show ?case
  proof (cases "durable_chat_operation op")
    case None
    with step have "follows t base seen s2 s'" "tasks_first seen ops" by simp_all
    from Cons.IH [OF this(1) rest this(2)] None show ?thesis by (simp add: durable_Cons)
  next
    case (Some d)
    with step obtain s2' where "apply_operation t n' d s' = Inr s2'"
      "follows t base (seen \<or> replaces_projection [op]) s2 s2'" "tasks_first (seen \<or> replaces_projection [op]) ops"
      by auto
    with Cons.IH [OF this(2) rest this(3)] Some show ?thesis by (simp add: durable_Cons)
  qed
qed

lemma follows_advance:
  assumes "follows t base seen s s'" "advance_history t s = Inr s1"
  shows "\<exists>s1'. advance_history t s' = Inr s1' \<and> follows t base seen s1 s1'"
  using assms(1)
proof (rule followsE)
  fix p a q b
  assume *: "recovered s t = Some (Available p a)" "chat_eq p q"
    "s' = \<lparr>recovered = only_task t q b, history_changed = history_changed s, message_meta_replaced = message_meta_replaced s\<rparr>"
    "hist0 (projected_task q) = hist0 (if seen then cleared (projected_task p) else base)"
  show ?thesis
    using * assms(2)
    by (cases seen; cases "history_changed s"; cases "message_meta_replaced s")
       (auto simp: advance_history_def follows_def available_projection_def put_projection_def and_then_eq_Inr chat_eq_def)
qed

text \<open>Replaying the operations a frame keeps reaches the Chat the whole batch reached.\<close>

lemma apply_durable:
  assumes "st t = Some (Available p a)" "chat_eq p q" "apply_operations t ops n st = Inr st1" "tasks_first False ops"
  obtains p1 q1 where "st1 t = Some (Available p1 n)"
    "apply_operations t (durable_chat_operations ops) k (only_task t q b) = Inr (only_task t q1 k)" "chat_eq p1 q1"
    "hist0 (projected_task q1) = hist0 (projected_task q) \<or> hist0 (projected_task q1) = hist0 (cleared (projected_task p1))"
proof -
  let ?s = "\<lparr>recovered = st, history_changed = False, message_meta_replaced = False\<rparr>"
  let ?s' = "\<lparr>recovered = only_task t q b, history_changed = False, message_meta_replaced = False\<rparr>"
  from assms(3) obtain s2 s3 where s2: "try_fold (apply_operation t n) ops ?s = Inr s2"
    and s3: "advance_history t s2 = Inr s3" and st1: "stamp_sequence t n s3 = Inr st1"
    by (auto simp: apply_operations_def and_then_eq_Inr)
  have "follows t (projected_task q) False ?s ?s'"
    using assms(1,2) by (auto simp: follows_def)
  from follows_fold [OF this s2 assms(4), of k] obtain s2' seen where
    s2': "try_fold (apply_operation t k) (durable_chat_operations ops) ?s' = Inr s2'"
    "follows t (projected_task q) seen s2 s2'" by blast
  from follows_advance [OF this(2) s3] obtain s3' where s3': "advance_history t s2' = Inr s3'"
    and "follows t (projected_task q) seen s3 s3'" by blast
  from this(2) show ?thesis
  proof (rule followsE)
    fix p1 c q1 d
    assume *: "recovered s3 t = Some (Available p1 c)" "chat_eq p1 q1" "s3' = \<lparr>recovered = only_task t q1 d,
        history_changed = history_changed s3, message_meta_replaced = message_meta_replaced s3\<rparr>"
      "hist0 (projected_task q1) = hist0 (if seen then cleared (projected_task p1) else projected_task q)"
    show ?thesis
    proof (rule that)
      show "st1 t = Some (Available p1 n)" using st1 *(1) by (auto simp: stamp_sequence_def)
      show "apply_operations t (durable_chat_operations ops) k (only_task t q b) = Inr (only_task t q1 k)"
        using s2'(1) s3' *(3) by (simp add: apply_operations_def stamp_sequence_def)
    qed (use * in \<open>auto split: if_splits\<close>)
  qed
qed

section \<open>Replaying the frames of a directory\<close>

definition chat_of :: "chat_snapshot_file \<Rightarrow> task_record \<Rightarrow> task_projection" where
  "chat_of sn task =
     \<lparr>projected_task = task, messages = snapshot_messages sn, message_meta_of = snapshot_message_meta sn,
      artifact_heads = snapshot_artifact_heads sn\<rparr>"

definition plain_frame :: "string \<Rightarrow> chat_frame \<Rightarrow> recovered_state \<Rightarrow> runtime_error + recovered_state" where
  "plain_frame t f = apply_operations t (frame_operations (frame_journal f)) (frame_sequence (frame_journal f))"

text \<open>The frames over the snapshot give the Chat of \<open>p\<close>, whatever Task they start with.\<close>

definition replays_to :: "string \<Rightarrow> chat_snapshot_file \<Rightarrow> chat_frame list \<Rightarrow> task_projection \<Rightarrow> bool" where
  "replays_to t sn fs p \<longleftrightarrow>
     (\<forall>task. \<exists>q k. try_fold (plain_frame t) fs (only_task t (chat_of sn task) 0) = Inr (only_task t q k) \<and> chat_eq p q)"

lemma try_fold_snoc: "try_fold f (xs @ [x]) s = and_then (try_fold f xs s) (f x)"
  by (induction xs arbitrary: s) (auto simp: and_then_def split: sum.split)

lemma replays_to_Nil: "chat_eq p (chat_of sn task) \<Longrightarrow> replays_to t sn [] p"
  by (auto simp: replays_to_def chat_eq_def chat_of_def)

lemma replays_to_chat_eq: "replays_to t sn fs p \<Longrightarrow> chat_eq p' p \<Longrightarrow> replays_to t sn fs p'"
  unfolding replays_to_def by (meson chat_eq_trans)

lemma replays_to_snoc:
  assumes "replays_to t sn fs p" "apply_operations t ops n (only_task t p a) = Inr st1" "st1 t = Some (Available p1 n)"
    and "tasks_first False ops" "frame_operations (frame_journal f) = durable_chat_operations ops"
  shows "replays_to t sn (fs @ [f]) p1"
  unfolding replays_to_def
proof
  fix task
  from assms(1) obtain q k where q: "try_fold (plain_frame t) fs (only_task t (chat_of sn task) 0) = Inr (only_task t q k)"
    "chat_eq p q" unfolding replays_to_def by blast
  have "only_task t p a t = Some (Available p a)" by simp
  from this q(2) assms(2,4) obtain p2 q1 where "st1 t = Some (Available p2 n)"
    "apply_operations t (durable_chat_operations ops) (frame_sequence (frame_journal f)) (only_task t q k)
       = Inr (only_task t q1 (frame_sequence (frame_journal f)))" "chat_eq p2 q1"
    by (rule apply_durable)
  then show "\<exists>q k. try_fold (plain_frame t) (fs @ [f]) (only_task t (chat_of sn task) 0) = Inr (only_task t q k) \<and> chat_eq p1 q"
    using q(1) assms(3,5) by (auto simp: try_fold_snoc plain_frame_def)
qed

section \<open>Recovery copies\<close>

text \<open>
  What the code relies on of \<open>serde_json\<close>: every value that is encoded decodes to itself, the schema
  versions are members of the encoded objects, a Task is an object whose history version is a
  member of its own, and a Task that can be encoded can be encoded inside its metadata file.
\<close>

definition history_key :: string where
  "history_key = ''message_history_version''"

definition task_fields_law :: "split_codec \<Rightarrow> bool" where
  "task_fields_law C \<longleftrightarrow>
     (\<forall>t fs. task_to_fields C t = Inr fs \<longrightarrow>
        (\<forall>fs'. distinct (map fst fs') \<and> map_of fs' = map_of fs \<longrightarrow> task_from_fields C fs' = Inr t)
        \<and> (\<forall>v. \<exists>fs'. task_to_fields C (t\<lparr>message_history_version := v\<rparr>) = Inr fs' \<and> distinct (map fst fs')
              \<and> map_of fs' = (map_of fs)(history_key \<mapsto> json_nat v)))"

definition codec_laws :: "split_codec \<Rightarrow> bool" where
  "codec_laws C \<longleftrightarrow>
     (\<forall>f b. task_file_to_vec C f = Inr b \<longrightarrow> task_file_from_slice C b = Inr f)
     \<and> (\<forall>f ms. task_to_fields C (file_task f) = Inr ms \<longrightarrow> (\<exists>b. task_file_to_vec C f = Inr b))
     \<and> (\<forall>sn b. snapshot_to_vec C sn = Inr b \<longrightarrow>
          (\<exists>v. value_from_slice C b = Inr v \<and> snapshot_from_value C v = Inr sn
             \<and> json_get ''schemaVersion'' v = Some (json_nat (snapshot_schema_version sn))))
     \<and> (\<forall>f b. chat_frame_to_vec C f = Inr b \<longrightarrow>
          (\<exists>v pv. value_from_slice C b = Inr v \<and> journal_frame_from_value C v = Inr (frame_journal f)
             \<and> json_get ''schema_version'' v = Some (json_nat (frame_schema_version (frame_journal f)))
             \<and> json_get ''task_patch'' v = Some pv \<and> patch_from_value C pv = Inr (task_patch f)))
     \<and> task_fields_law C"

lemma task_fields_from:
  assumes "task_fields_law C" "task_to_fields C t = Inr fs" "distinct (map fst fs')" "map_of fs' = map_of fs"
  shows "task_from_fields C fs' = Inr t"
  using assms unfolding task_fields_law_def by blast

lemma task_fields_history:
  assumes "task_fields_law C" "task_to_fields C t = Inr fs" "hist0 u = hist0 t"
  obtains fs' v where "task_to_fields C u = Inr fs'" "distinct (map fst fs')" "map_of fs' = (map_of fs)(history_key \<mapsto> json_nat v)"
  using assms unfolding task_fields_law_def by (metis hist0_eqE)

lemma task_fields_distinct:
  assumes "task_fields_law C" "task_to_fields C t = Inr fs"
  obtains v where "distinct (map fst fs)" "map_of fs history_key = Some (json_nat v)"
  using task_fields_history [OF assms refl] assms(2) by (metis fun_upd_same sum.inject(2))

lemma map_of_fold_delete: "map_of (fold AList.delete ks m) = (map_of m) |` (- set ks)"
  by (induction ks arbitrary: m) (auto simp: delete_conv restrict_map_def fun_eq_iff)

lemma map_of_fold_update:
  "distinct (map fst us) \<Longrightarrow> map_of (fold (\<lambda>(k, v). AList.update k v) us m) = map_of m ++ map_of us"
proof (induction us arbitrary: m)
  case (Cons u us)
  then show ?case
    by (cases u) (auto simp: update_conv' map_add_def fun_eq_iff dest: map_of_SomeD intro: rev_image_eqI
        split: option.splits)
qed simp

lemma distinct_fold_update: "distinct (map fst m) \<Longrightarrow> distinct (map fst (fold (\<lambda>(k, v). AList.update k v) us m))"
  by (induction us arbitrary: m) (auto simp: distinct_update)

lemma distinct_fold_delete: "distinct (map fst m) \<Longrightarrow> distinct (map fst (fold AList.delete ks m))"
  by (induction ks arbitrary: m) (auto simp: distinct_delete)

text \<open>What \<open>patch_apply\<close> merges, by member: \<open>b\<close> before, \<open>a\<close> after the change.\<close>

definition merged_fields :: "(string \<times> json) list \<Rightarrow> (string \<times> json) list \<Rightarrow> (string \<times> json) list \<Rightarrow> (string \<times> json) list" where
  "merged_fields b a fs =
     fold (\<lambda>(k, v). AList.update k v) (filter (\<lambda>(k, v). map_of b k \<noteq> Some v) a)
       (fold AList.delete (filter (\<lambda>k. map_of a k = None) (map fst b)) fs)"

lemma merged_map:
  assumes "distinct (map fst a)"
  shows "map_of (merged_fields b a fs) k =
     (case map_of a k of None \<Rightarrow> if map_of b k = None then map_of fs k else None
      | Some v \<Rightarrow> if map_of b k = Some v then map_of fs k else Some v)"
proof -
  let ?us = "filter (\<lambda>(k, v). map_of b k \<noteq> Some v) a"
  have d: "distinct (map fst ?us)" using assms by (simp add: distinct_map_filter)
  have us: "map_of ?us k = (case map_of a k of None \<Rightarrow> None | Some v \<Rightarrow> if map_of b k = Some v then None else Some v)"
    using assms d by (auto simp: map_of_eq_None_iff map_of_eq_Some_iff dest: eq_key_imp_eq_value split: option.split)
  have gone: "k \<in> set (filter (\<lambda>k. map_of a k = None) (map fst b)) \<longleftrightarrow> map_of a k = None \<and> map_of b k \<noteq> None"
    using map_of_eq_None_iff [of b k] by auto
  show ?thesis
    unfolding merged_fields_def map_of_fold_update [OF d] map_of_fold_delete map_add_def us restrict_map_def
      Compl_iff gone
    by (auto split: option.split)
qed

lemma merged_distinct: "distinct (map fst fs) \<Longrightarrow> distinct (map fst (merged_fields b a fs))"
  unfolding merged_fields_def by (intro distinct_fold_update distinct_fold_delete)

lemma unchanged_fields:
  fixes a b :: "(string \<times> json) list"
  assumes "distinct (map fst a)" "filter (\<lambda>(k, v). map_of b k \<noteq> Some v) a = []"
    and "filter (\<lambda>k. map_of a k = None) (map fst b) = []"
  shows "map_of a = map_of b"
proof
  fix k
  show "map_of a k = map_of b k"
    using merged_map [OF assms(1), of b b k] assms(2,3) by (auto simp: merged_fields_def split: option.splits if_splits)
qed

lemma patch_restores:
  assumes law: "task_fields_law C" and d: "patch_between C before after = Inr d"
    and u: "hist0 u = hist0 before \<or> hist0 u = hist0 (cleared after)" and i: "task_id u = task_id after"
  obtains r where "patch_apply C d u = Inr r" "hist0 r = hist0 (cleared after)"
proof -
  from d obtain b a where b: "task_to_fields C before = Inr b" and a: "task_to_fields C (cleared after) = Inr a"
    and d': "patch_fields d = filter (\<lambda>(k, v). map_of b k \<noteq> Some v) a"
      "removed_fields d = filter (\<lambda>k. map_of a k = None) (map fst b)"
    by (auto simp: patch_between_def and_then_eq_Inr)
  obtain va where da: "distinct (map fst a)" and va: "map_of a history_key = Some (json_nat va)"
    using law a by (rule task_fields_distinct)
  obtain base where base: "base = a \<or> base = b" and "\<exists>fs v. task_to_fields C u = Inr fs \<and> distinct (map fst fs)
      \<and> map_of fs = (map_of base)(history_key \<mapsto> json_nat v)"
    using u task_fields_history [OF law a] task_fields_history [OF law b] by metis
  then obtain fs v where fs: "task_to_fields C u = Inr fs" "distinct (map fst fs)"
    "map_of fs = (map_of base)(history_key \<mapsto> json_nat v)" by blast
  show ?thesis
  proof (cases "patch_fields d = [] \<and> removed_fields d = []")
    case True
    then have "map_of b = map_of a" using unchanged_fields [OF da, of b] unfolding d' by simp
    with task_fields_from [OF law b, of a] task_fields_from [OF law a, of a] da
    have "before = cleared after" by simp
    with True u show ?thesis by (intro that [of u]) (auto simp: patch_apply_def)
  next
    case False
    let ?m = "merged_fields b a fs"
    have other: "map_of ?m k = map_of a k" if "k \<noteq> history_key" for k
      using merged_map [OF da, of b fs k] base fs(3) that by (auto split: option.split)
    have "\<exists>x. map_of ?m history_key = Some (json_nat x)"
      using merged_map [OF da, of b fs history_key] va fs(3) by auto
    then obtain x where x: "map_of ?m history_key = Some (json_nat x)" by blast
    let ?r = "(cleared after)\<lparr>message_history_version := x\<rparr>"
    obtain fs' where "task_to_fields C ?r = Inr fs'" "map_of fs' = (map_of a)(history_key \<mapsto> json_nat x)"
      using law a unfolding task_fields_law_def by blast
    moreover have "map_of ?m = (map_of a)(history_key \<mapsto> json_nat x)"
      using other x by (auto simp: fun_eq_iff)
    ultimately have "task_from_fields C ?m = Inr ?r"
      using law by (intro task_fields_from) (auto intro: merged_distinct fs(2))
    then show ?thesis
      using False fs(1) i by (intro that [of ?r]) (auto simp: patch_apply_def Let_def d' merged_fields_def)
  qed
qed

section \<open>Recovering the frames of a directory\<close>

abbreviation chat_sequence_of :: "chat_frame \<Rightarrow> nat" where
  "chat_sequence_of f \<equiv> frame_sequence (frame_journal f)"

lemma recover_before_checkpoint:
  assumes "list_all (\<lambda>f. chat_sequence_of f < chat_sequence m) fs" "t = task_id (metadata_task m)"
  shows "try_fold (recover_chat_frame C m) fs st = try_fold (plain_frame t) fs st"
  using assms(1)
proof (induction fs arbitrary: st)
  case (Cons f fs)
  then have "recover_chat_frame C m f st = plain_frame t f st"
    by (simp add: recover_chat_frame_def plain_frame_def Let_def assms(2) and_then_def split: sum.split)
  with Cons show ?case by (auto simp: and_then_def split: sum.split)
qed simp

text \<open>Frames up to the checkpoint give the Chat, and the Task of the metadata.\<close>

lemma recover_to_checkpoint:
  assumes "replays_to t sn fs p" "t = task_id (metadata_task m)" "chat_sequence m = length fs"
    and "map chat_sequence_of fs = [1..<Suc (length fs)]" "hist0 (metadata_task m) = hist0 (cleared (projected_task p))"
  obtains q k where "try_fold (recover_chat_frame C m) fs (only_task t (chat_of sn (metadata_task m)) 0) = Inr (only_task t q k)"
    "chat_eq p q" "projected_task q = metadata_task m"
proof -
  from assms(1) obtain q0 k0 where q0: "try_fold (plain_frame t) fs (only_task t (chat_of sn (metadata_task m)) 0)
      = Inr (only_task t q0 k0)" "chat_eq p q0"
    unfolding replays_to_def by blast
  show ?thesis
  proof (cases fs rule: rev_cases)
    case Nil
    with q0 show ?thesis by (intro that [of "chat_of sn (metadata_task m)" 0]) (auto simp: chat_of_def)
  next
    case (snoc gs g)
    have seqs: "map chat_sequence_of gs = [1..<Suc (length gs)]" and g: "chat_sequence_of g = length fs"
      using assms(4) snoc by auto
    have "chat_sequence_of f < Suc (length gs)" if "f \<in> set gs" for f
      using that seqs by (metis atLeastLessThan_iff imageI list.set_map set_upt)
    then have gs: "list_all (\<lambda>f. chat_sequence_of f < chat_sequence m) gs"
      unfolding list_all_iff assms(3) snoc by simp
    from q0(1) obtain st where "try_fold (plain_frame t) gs (only_task t (chat_of sn (metadata_task m)) 0) = Inr st"
      "plain_frame t g st = Inr (only_task t q0 k0)"
      unfolding snoc try_fold_snoc by (auto simp: and_then_eq_Inr)
    then have "try_fold (recover_chat_frame C m) fs (only_task t (chat_of sn (metadata_task m)) 0)
        = Inr (only_task t (q0\<lparr>projected_task := metadata_task m\<rparr>) k0)"
      using g assms(2,3) by (simp add: snoc try_fold_snoc recover_before_checkpoint [OF gs assms(2)]
          recover_chat_frame_def plain_frame_def with_task_def Let_def)
    then show ?thesis using q0(2) by (intro that [of "q0\<lparr>projected_task := metadata_task m\<rparr>" k0]) simp_all
  qed
qed

lemma recover_committed:
  assumes "replays_to t sn fs p" "t = task_id (metadata_task m)" "chat_sequence m = length fs"
    and "map chat_sequence_of fs = [1..<Suc (length fs)]" "hist0 (metadata_task m) = hist0 (cleared (projected_task p))"
  shows "recover_chat_frames C m (chat_of sn (metadata_task m)) fs = Inr (settled p)"
  using assms
proof (rule recover_to_checkpoint [where C = C])
  fix q k
  assume *: "try_fold (recover_chat_frame C m) fs (only_task t (chat_of sn (metadata_task m)) 0) = Inr (only_task t q k)"
    "chat_eq p q" "projected_task q = metadata_task m"
  moreover have "align_history q = settled p"
    using * assms(5) by (intro settled_eq) (simp_all add: chat_eq_sym)
  ultimately show ?thesis
    unfolding recover_chat_frames_def Let_def assms(2) [symmetric] by simp
qed

text \<open>A frame beyond the checkpoint brings its own Task with it.\<close>

lemma recover_uncommitted:
  assumes law: "task_fields_law C"
    and fs: "replays_to t sn fs p" "t = task_id (metadata_task m)" "chat_sequence m = length fs"
      "map chat_sequence_of fs = [1..<Suc (length fs)]" "hist0 (metadata_task m) = hist0 (cleared (projected_task p))"
    and ops: "apply_operations t ops n (only_task t p a) = Inr st1" "st1 t = Some (Available p1 n)" "tasks_first False ops"
      "task_id (projected_task p1) = t"
    and f: "frame_operations (frame_journal f) = durable_chat_operations ops" "chat_sequence_of f = Suc (length fs)"
      "patch_between C (metadata_task m) (projected_task p1) = Inr (task_patch f)"
  shows "recover_chat_frames C m (chat_of sn (metadata_task m)) (fs @ [f]) = Inr (settled p1)"
  using fs
proof (rule recover_to_checkpoint [where C = C])
  fix q k
  assume q: "try_fold (recover_chat_frame C m) fs (only_task t (chat_of sn (metadata_task m)) 0) = Inr (only_task t q k)"
    "chat_eq p q" "projected_task q = metadata_task m"
  have "only_task t p a t = Some (Available p a)" by simp
  from this q(2) ops(1,3) obtain p2 q1 where "st1 t = Some (Available p2 n)"
    and q1: "apply_operations t (durable_chat_operations ops) (Suc (length fs)) (only_task t q k)
       = Inr (only_task t q1 (Suc (length fs)))" and c: "chat_eq p2 q1"
    and h: "hist0 (projected_task q1) = hist0 (projected_task q) \<or> hist0 (projected_task q1) = hist0 (cleared (projected_task p2))"
    by (rule apply_durable)
  then have p2: "p2 = p1" using ops(2) by simp
  have "task_id (projected_task q1) = task_id (projected_task p1)"
    using h ops(4) fs(2) by (auto simp: p2 q(3) dest: hist0_task_id)
  with law f(3) h obtain r where r: "patch_apply C (task_patch f) (projected_task q1) = Inr r"
    "hist0 r = hist0 (cleared (projected_task p1))"
    unfolding p2 q(3) by (rule patch_restores)
  have "align_history (q1\<lparr>projected_task := r\<rparr>) = settled p1"
    using c r(2) by (intro settled_eq) (simp_all add: chat_eq_sym p2)
  moreover have "try_fold (recover_chat_frame C m) (fs @ [f]) (only_task t (chat_of sn (metadata_task m)) 0)
      = Inr (only_task t (q1\<lparr>projected_task := r\<rparr>) (Suc (length fs)))"
    using q(1) q1 r(1) f(1,2) fs(2,3)
    by (simp add: try_fold_snoc recover_chat_frame_def with_task_def Let_def)
  ultimately show ?thesis
    unfolding recover_chat_frames_def Let_def fs(2) [symmetric] by simp
qed

end
