(* ===== verification/Split_Load_Facts.thy ===== *)
theory Split_Load_Facts
  imports Split_Chat_Facts Journal_Durability
begin

text \<open>
  Reading a Task directory back: what \<open>load_projection\<close> returns and repairs when the directory was left
  by a commit that ended at any point. A journal file may then end inside its header or inside its
  last frame, or hold one frame more than the metadata tells.
\<close>

section \<open>The layout of a directory\<close>

definition chat_name :: "string \<Rightarrow> bool" where
  "chat_name name = (case name of c # _ \<Rightarrow> c = CHR ''c'' | [] \<Rightarrow> False)"

lemma chat_name_not [simp]: "chat_name name \<Longrightarrow> name \<noteq> TASK_FILE" "chat_name name \<Longrightarrow> name \<noteq> CHR ''.'' # rest"
  "chat_name name \<Longrightarrow> TASK_FILE \<noteq> name" "chat_name name \<Longrightarrow> CHR ''.'' # rest \<noteq> name"
  by (auto simp: chat_name_def TASK_FILE_def)

lemma chat_name_consts [simp]:
  "chat_name CHAT_SNAPSHOT_FILE" "chat_name CHAT_JOURNAL_FILE"
  "chat_name (CHAT_SNAPSHOT_FILE @ rest)" "chat_name (CHAT_JOURNAL_FILE @ rest)"
  by (simp_all add: chat_name_def CHAT_SNAPSHOT_FILE_def CHAT_JOURNAL_FILE_def)

abbreviation task_path :: "path \<Rightarrow> path" where
  "task_path dir \<equiv> dir @ [TASK_FILE]"

lemma temporary_task: "temporary_path u (task_path dir) = dir @ [CHR ''.'' # TASK_FILE @ ''.'' @ u]"
  by (simp add: temporary_path_def)

lemma temporary_name: "temporary_path u (dir @ [name]) = dir @ [CHR ''.'' # name @ ''.'' @ u]"
  by (simp add: temporary_path_def)

lemma task_file_not_dot [simp]: "TASK_FILE \<noteq> CHR ''.'' # rest" "CHR ''.'' # rest \<noteq> TASK_FILE"
  by (simp_all add: TASK_FILE_def)

text \<open>The metadata, the snapshot and the journal file as they are found; the directory itself exists.\<close>

definition laid :: "split_codec \<Rightarrow> path \<Rightarrow> io_state \<Rightarrow> task_metadata \<Rightarrow> chat_snapshot_file \<Rightarrow> byte list option \<Rightarrow> bool" where
  "laid C dir s m sn J \<longleftrightarrow>
     dir_ok s dir \<and> task_path dir \<notin> dirs s \<and> load_task C dir s = (Inr (Some m), s)
     \<and> chat_name (chat_snapshot m) \<and> chat_name (chat_journal m) \<and> chat_snapshot m \<noteq> chat_journal m
     \<and> load_chat_snapshot C (dir @ [chat_snapshot m]) s = (Inr (sn, False), s)
     \<and> files s (dir @ [chat_journal m]) = J"

lemma load_task_cong:
  assumes "files s' (task_path dir) = files s (task_path dir)" "dirs s' = dirs s" "load_task C dir s = (r, s)"
  shows "load_task C dir s' = (r, s')"
  using assms by (auto simp: load_task_def split: option.splits if_splits)

lemma load_chat_snapshot_cong:
  assumes "files s' p = files s p" "load_chat_snapshot C p s = (r, s)"
  shows "load_chat_snapshot C p s' = (r, s')"
  using assms by (auto simp: load_chat_snapshot_def io_simps read_file_def split: option.splits)

lemma dir_ok_cong: "dirs s' = dirs s \<Longrightarrow> (\<And>a. length a \<le> length d \<Longrightarrow> files s' a = files s a) \<Longrightarrow> dir_ok s d \<Longrightarrow> dir_ok s' d"
  by (auto simp: dir_ok_def ancestors_def)

text \<open>Only the entries of the directory itself can have changed.\<close>

definition only_entries :: "path \<Rightarrow> io_state \<Rightarrow> io_state \<Rightarrow> bool" where
  "only_entries dir s s' \<longleftrightarrow> dirs s' = dirs s \<and> (\<forall>a. length a \<le> length dir \<longrightarrow> files s' a = files s a)"

lemma only_entriesI:
  assumes "files s' = fold (\<lambda>(name, x) fs. fs(dir @ [name] := x)) ups (files s)" "dirs s' = dirs s"
  shows "only_entries dir s s'"
proof -
  have "fold (\<lambda>(name, x) fs. fs(dir @ [name] := x)) ups g a = g a" if "length a \<le> length dir" for g a
    using that by (induction ups arbitrary: g) auto
  with assms show ?thesis by (simp add: only_entries_def)
qed

lemma only_entries_refl [simp]: "only_entries dir s s"
  by (simp add: only_entries_def)

lemma laid_cong:
  assumes "laid C dir s m sn J" "only_entries dir s s'"
    and "files s' (task_path dir) = files s (task_path dir)"
    and "files s' (dir @ [chat_snapshot m]) = files s (dir @ [chat_snapshot m])"
    and "files s' (dir @ [chat_journal m]) = J'"
  shows "laid C dir s' m sn J'"
  using assms load_task_cong [of s' dir s C] load_chat_snapshot_cong [of s' "dir @ [chat_snapshot m]" s C]
    dir_ok_cong [of s' s dir]
  by (simp add: laid_def only_entries_def)

text \<open>The journal file of a list of frames: there is none before the first.\<close>

definition journal_entry :: "split_codec \<Rightarrow> chat_frame list \<Rightarrow> byte list option" where
  "journal_entry C fs = (if fs = [] then None else Some (journal_file (chat_frame_record C) fs))"

definition entry_length :: "byte list option \<Rightarrow> nat" where
  "entry_length J = (case J of None \<Rightarrow> 0 | Some bytes \<Rightarrow> length bytes)"

text \<open>Metadata that names the frames \<open>fs\<close> and keeps the Task of \<open>p\<close>.\<close>

definition meta_for :: "split_codec \<Rightarrow> task_metadata \<Rightarrow> task_projection \<Rightarrow> nat \<Rightarrow> chat_frame list \<Rightarrow> bool" where
  "meta_for C m p n fs \<longleftrightarrow>
     storage_sequence m = n \<and> chat_sequence m = length fs
     \<and> chat_journal_bytes m = Some (entry_length (journal_entry C fs))
     \<and> hist0 (metadata_task m) = hist0 (cleared (projected_task p))"

definition chat_for :: "split_codec \<Rightarrow> chat_snapshot_file \<Rightarrow> chat_frame list \<Rightarrow> task_projection \<Rightarrow> bool" where
  "chat_for C sn fs p \<longleftrightarrow>
     frames_ok (chat_frame_record C) 1 fs \<and> replays_to (task_id (projected_task p)) sn fs p"

text \<open>The directory holds the projection \<open>p\<close> at storage sequence \<open>n\<close>.\<close>

definition holds :: "split_codec \<Rightarrow> path \<Rightarrow> io_state \<Rightarrow> task_projection \<Rightarrow> nat \<Rightarrow> bool" where
  "holds C dir s p n \<longleftrightarrow>
     (\<exists>m sn fs. laid C dir s m sn (journal_entry C fs) \<and> chat_for C sn fs p \<and> meta_for C m p n fs)"

lemma settled_eqD:
  assumes "settled q = settled p"
  shows "chat_eq q p" "hist0 (cleared (projected_task q)) = hist0 (cleared (projected_task p))"
proof -
  show "chat_eq q p" using assms chat_eq_settled by (metis chat_eq_refl)
  have "hist0 (projected_task (settled q)) = hist0 (projected_task (settled p))" using assms by simp
  then show "hist0 (cleared (projected_task q)) = hist0 (cleared (projected_task p))" by (simp add: settled_def)
qed

lemma settled_task_id: "settled q = settled p \<Longrightarrow> task_id (projected_task q) = task_id (projected_task p)"
  by (drule settled_eqD(2)) (drule hist0_task_id, simp)

lemma holds_settled:
  assumes "holds C dir s p n" "settled q = settled p"
  shows "holds C dir s q n"
  using assms settled_eqD [OF assms(2)] settled_task_id [OF assms(2)] replays_to_chat_eq
  unfolding holds_def chat_for_def meta_for_def by metis

lemma chat_frame_ok_sequence: "frame_ok (chat_frame_record C) i f \<Longrightarrow> chat_sequence_of f = i"
  by (auto simp: frame_ok_def chat_frame_record_def split: sum.splits)

lemma chat_frame_sequences:
  "frames_ok (chat_frame_record C) i fs \<Longrightarrow> map chat_sequence_of fs = [i..<i + length fs]"
proof (induction fs arbitrary: i)
  case (Cons f fs)
  then have "chat_sequence_of f = i" "map chat_sequence_of fs = [Suc i..<Suc i + length fs]"
    using chat_frame_ok_sequence [of C i f] Cons.IH [of "Suc i"] by (simp_all del: upt_Suc)
  then show ?case by (simp add: upt_conv_Cons del: upt_Suc)
qed simp

section \<open>Publishing\<close>

text \<open>Replacing a file: the old content stays, or the new one is there; the temporary file is gone.\<close>

definition replaced :: "path \<Rightarrow> path \<Rightarrow> runtime_error + byte list \<Rightarrow> io_state \<Rightarrow> runtime_error + unit \<Rightarrow> io_state \<Rightarrow> bool" where
  "replaced temporary p encoded s r s' \<longleftrightarrow>
     dirs s' = dirs s
     \<and> (r \<noteq> Inr () \<and> (\<exists>x. files s' = (files s)(temporary := x))
        \<or> (\<exists>b. encoded = Inr b \<and> files s' = (files s)(temporary := None, p := Some b)))"

lemma io_post_create_new_file [io_vcg]:
  "P (Inl file_exists) s \<Longrightarrow> P (Inl not_found) s \<Longrightarrow> io_post k (s\<lparr>files := (files s)(p := Some [])\<rparr>) P
     \<Longrightarrow> (\<And>e. P (Inl e) s) \<Longrightarrow> io_post (io_seq (create_new_file p) k) s P"
  by (simp add: io_post_def create_new_file_def io_seq_apply)

lemma io_post_replace_file [io_vcg]:
  "(\<And>e. P (Inl e) s) \<Longrightarrow> (\<And>b. files s t = Some b \<Longrightarrow> io_post k (s\<lparr>files := (files s)(t := None, p := Some b)\<rparr>) P)
     \<Longrightarrow> io_post (io_seq (replace_file t p) k) s P"
  by (auto simp: io_post_def replace_file_def io_seq_apply split: option.split)

lemma io_post_open_directory [io_vcg]: "(\<And>e. P (Inl e) s) \<Longrightarrow> P (Inr ()) s \<Longrightarrow> io_post (open_directory p) s P"
  by (simp add: io_post_def open_directory_def)

lemma replace_json_body_outcome:
  assumes "t \<noteq> p"
  shows "io_post (replace_json_body up t p b kind) s (replaced t p (Inr b) s)"
proof -
  have same: "replaced t p (Inr b) s (Inl e) s'" if "files s' = (files s)(t := x)" "dirs s' = dirs s" for e s' x
    using that by (auto simp: replaced_def)
  have new: "replaced t p (Inr b) s r s'" if "files s' = (files s)(t := None, p := Some b)" "dirs s' = dirs s" for r s'
    using that by (auto simp: replaced_def)
  show ?thesis
    unfolding replace_json_body_def
    by (intro io_vcg; (rule same [where x = "files s t"]; simp; fail)?; (rule same; simp add: write_all_def; fail)?)
       (rule new; simp add: write_all_def assms)+
qed

lemma durable_replace_json_outcome:
  "io_post (durable_replace_json u (dir @ [name]) encoded kind) s (replaced (temporary_path u (dir @ [name])) (dir @ [name]) encoded s)"
proof (cases encoded)
  case (Inl e)
  then show ?thesis by (auto simp: io_post_def durable_replace_json_def replaced_def intro: exI [of _ "files s (temporary_path u (dir @ [name]))"])
next
  case (Inr b)
  let ?t = "temporary_path u (dir @ [name])"
  have "?t \<noteq> dir @ [name]" by (simp add: temporary_name)
  from replace_json_body_outcome [OF this, of dir b kind s] Inr this show ?thesis
    by (auto simp: io_post_def durable_replace_json_def parent_def replaced_def remove_file_def fun_upd_twist
        split: prod.splits sum.splits)
qed

text \<open>The metadata file of a publication, and what a reader makes of it.\<close>

definition task_file_of :: "task_record \<Rightarrow> nat \<Rightarrow> nat \<Rightarrow> string \<Rightarrow> string \<Rightarrow> nat \<Rightarrow> durable_task_file" where
  "task_file_of task n c snapshot journal len =
     \<lparr>file_schema_version = TASK_SCHEMA_VERSION, file_storage_sequence = n, file_chat_sequence = c,
      file_chat_snapshot = snapshot, file_chat_journal = journal, file_chat_journal_bytes = Some len,
      file_task = cleared task\<rparr>"

definition published_meta :: "task_record \<Rightarrow> nat \<Rightarrow> nat \<Rightarrow> string \<Rightarrow> string \<Rightarrow> nat \<Rightarrow> task_metadata" where
  "published_meta task n c snapshot journal len =
     \<lparr>metadata_task = cleared task, storage_sequence = n, chat_sequence = c, chat_snapshot = snapshot,
      chat_journal = journal, chat_journal_bytes = Some len\<rparr>"

lemma published_meta_simps [simp]:
  "metadata_task (published_meta task n c snapshot journal len) = cleared task"
  "storage_sequence (published_meta task n c snapshot journal len) = n"
  "chat_sequence (published_meta task n c snapshot journal len) = c"
  "chat_snapshot (published_meta task n c snapshot journal len) = snapshot"
  "chat_journal (published_meta task n c snapshot journal len) = journal"
  "chat_journal_bytes (published_meta task n c snapshot journal len) = Some len"
  by (simp_all add: published_meta_def)

lemma publish_task_eq:
  "publish_task C u dir task n c snapshot journal s =
     durable_replace_json u (task_path dir)
       (task_file_to_vec C (task_file_of task n c snapshot journal (entry_length (files s (dir @ [journal]))))) TaskKind s"
  by (simp add: publish_task_def io_simps file_length_or_zero_def task_file_of_def entry_length_def split: option.split)

lemma cleared_loaded: "(cleared t)\<lparr>config_options_catalog_of := None,
    config_mutation := (config_mutation (cleared t))\<lparr>mutation_preferences := None\<rparr>\<rparr> = cleared t"
  by (simp add: cleared_eq)

lemma load_task_published:
  assumes "codec_laws C" "task_file_to_vec C (task_file_of task n c snapshot journal len) = Inr b"
    and "files s (task_path dir) = Some b"
  shows "load_task C dir s = (Inr (Some (published_meta task n c snapshot journal len)), s)"
proof -
  have "task_file_from_slice C b = Inr (task_file_of task n c snapshot journal len)"
    using assms(1,2) by (simp add: codec_laws_def)
  then show ?thesis
    using assms(3) by (simp add: load_task_def task_file_of_def published_meta_def validate_schema_def cleared_loaded Let_def)
qed

text \<open>A publication without faults under a fresh temporary name succeeds.\<close>

definition fresh :: "path \<Rightarrow> string \<Rightarrow> io_state \<Rightarrow> bool" where
  "fresh dir u s \<longleftrightarrow> \<not> path_exists s (temporary_path u (task_path dir))"

lemma replace_json_body_unarmed:
  assumes "armed s = None" "\<not> path_exists s t" "parent t = Some up" "up \<in> dirs s" "p \<notin> dirs s" "t \<noteq> p"
  shows "\<exists>k. replace_json_body up t p b kind s = (Inr (), s\<lparr>files := (files s)(p := Some b), sync_calls := k\<rparr>)"
proof -
  have t: "files s t = None" "t \<notin> dirs s" using assms(2) by (simp_all add: path_exists_def)
  then have "(files s)(p := Some b, t := None) = (files s)(p := Some b)"
    using assms(6) by (auto simp: fun_eq_iff)
  then show ?thesis
    using assms t
    by (simp add: replace_json_body_def io_simps check_def create_new_file_def write_all_def record_sync_def
        replace_file_def open_directory_def path_exists_def fun_upd_twist [of t p])
       (rule exI [of _ "u64_add (sync_calls s) 1"], simp)
qed

lemma unfaulted_publish:
  assumes "fresh dir u s" "dir_ok s dir" "task_path dir \<notin> dirs s"
    and "task_file_to_vec C (task_file_of task n c snapshot journal (entry_length (files s (dir @ [journal])))) = Inr b"
  shows "unfaulted (publish_task C u dir task n c snapshot journal) s = (Inr (), s\<lparr>files := (files s)(task_path dir := Some b)\<rparr>)"
proof -
  let ?s = "s\<lparr>armed := None\<rparr>"
  have d: "dir \<in> dirs ?s" using assms(2) ancestors_self by (auto simp: dir_ok_def)
  have "\<exists>k. replace_json_body dir (temporary_path u (task_path dir)) (task_path dir) b TaskKind ?s
      = (Inr (), ?s\<lparr>files := (files ?s)(task_path dir := Some b), sync_calls := k\<rparr>)"
    using assms(1,3) d
    by (intro replace_json_body_unarmed) (simp_all add: fresh_def path_exists_def temporary_task parent_def)
  then show ?thesis
    using assms(4) by (auto simp: unfaulted_def publish_task_eq durable_replace_json_def parent_def)
qed

section \<open>Loading\<close>

lemma load_projection_laid:
  assumes "laid C dir s m sn J"
  shows "load_projection C u1 u2 dir s =
    io_seq (discard_partial_header dir m) (\<lambda>s.
      if files s (dir @ [chat_journal m]) \<noteq> None then load_with_journal C u1 u2 dir m sn False (chat_of sn (metadata_task m)) s
      else if chat_sequence m > 0 then (Inl (Storage ''Committed Chat journal generation is missing''), s)
      else finish_load C u1 u2 dir m sn False (chat_of sn (metadata_task m)) s) s"
  using assms unfolding chat_of_def by (simp add: load_projection_def laid_def io_bind_apply Let_def)

lemma finish_load_idle:
  assumes "chat_journal_bytes m = Some b"
  shows "finish_load C u1 u2 dir m sn False p s = (Inr (Some (p, storage_sequence m)), s)"
  using assms by (simp add: finish_load_def rewrite_snapshot_def io_simps)

lemma open_directory_ok: "dir_ok s dir \<Longrightarrow> open_directory dir s = (Inr (), s)"
  using ancestors_self [of dir] by (auto simp: open_directory_def path_exists_def dir_ok_def)

lemma meta_for_task_id: "meta_for C m p n fs \<Longrightarrow> task_id (metadata_task m) = task_id (projected_task p)"
  by (auto simp: meta_for_def dest: hist0_task_id)

lemma snapshot_settled:
  assumes "chat_for C sn [] p" "meta_for C m p n []"
  shows "settled (chat_of sn (metadata_task m)) = settled p"
proof -
  have "chat_eq p (chat_of sn (metadata_task m))"
    using assms(1) by (auto simp: chat_for_def replays_to_def chat_eq_def chat_of_def)
  moreover have "hist0 (cleared (metadata_task m)) = hist0 (cleared (projected_task p))"
    using assms(2) hist0_cleared [of "metadata_task m" "cleared (projected_task p)"] by (simp add: meta_for_def)
  ultimately have "align_history ((chat_of sn (metadata_task m))\<lparr>projected_task := cleared (metadata_task m)\<rparr>) = settled p"
    by (intro settled_eq) (simp_all add: chat_eq_sym)
  then show ?thesis unfolding settled_def [of "chat_of sn (metadata_task m)"] by (simp add: chat_of_def)
qed

text \<open>What a load returns that finds exactly the frames of the metadata, or a rest it may drop.\<close>

definition reloads :: "split_codec \<Rightarrow> string \<Rightarrow> string \<Rightarrow> path \<Rightarrow> io_state \<Rightarrow> task_projection \<Rightarrow> nat \<Rightarrow> bool" where
  "reloads C u1 u2 dir s p n \<longleftrightarrow>
     (\<exists>q s'. load_projection C u1 u2 dir s = (Inr (Some (q, n)), s') \<and> settled q = settled p \<and> holds C dir s' q n)"

lemma reloadsI:
  assumes "load_projection C u1 u2 dir s = (Inr (Some (q, n)), s')" "settled q = settled p" "holds C dir s' p n"
  shows "reloads C u1 u2 dir s p n"
  using assms holds_settled [of C dir s' p n q] unfolding reloads_def by blast

lemma journal_file_long: "\<not> length (journal_file R fs @ rest) < FILE_HEADER_LEN"
  by (simp add: journal_file_def FILE_HEADER_LEN_def)

text \<open>The journal after a replay that found the frames of the metadata.\<close>

lemma load_committed_frames:
  assumes laid: "laid C dir s m sn (Some (journal_file (chat_frame_record C) fs @ rest))"
    and chat: "chat_for C sn fs p" and meta: "meta_for C m p n fs"
    and replayed: "replay (chat_frame_record C) (dir @ [chat_journal m]) s
      = (Inr (replay_result (chat_frame_record C) fs),
         s\<lparr>files := (files s)(dir @ [chat_journal m] := Some (journal_file (chat_frame_record C) fs))\<rparr>)"
  shows "reloads C u1 u2 dir s p n"
proof -
  let ?R = "chat_frame_record C" and ?j = "dir @ [chat_journal m]"
  let ?s1 = "s\<lparr>files := (files s)(?j := Some (journal_file ?R fs))\<rparr>"
  let ?s2 = "s\<lparr>files := (files s)(?j := journal_entry C fs)\<rparr>"
  have names: "?j \<noteq> task_path dir" "?j \<noteq> dir @ [chat_snapshot m]" "dir_ok s dir" "files s ?j = Some (journal_file ?R fs @ rest)"
    using laid by (auto simp: laid_def)
  have only: "only_entries dir s ?s1" "only_entries dir s ?s2"
    by (auto intro: only_entriesI [of _ dir "[(chat_journal m, x)]" for x])
  have ok1: "dir_ok ?s1 dir"
    using names(3) only by (auto simp: only_entries_def intro: dir_ok_cong)
  have "map chat_sequence_of fs = [1..<Suc (length fs)]"
    using chat chat_frame_sequences [of C 1 fs] by (simp add: chat_for_def del: upt_Suc)
  with chat meta meta_for_task_id [OF meta] have
    rec: "recover_chat_frames C m (chat_of sn (metadata_task m)) fs = Inr (settled p)"
    by (intro recover_committed [of "task_id (projected_task p)"]) (simp_all add: chat_for_def meta_for_def del: upt_Suc)
  have bytes: "chat_journal_bytes m = Some (entry_length (journal_entry C fs))" "chat_sequence m = length fs" "storage_sequence m = n"
    using meta by (simp_all add: meta_for_def)
  have settle: "settle_journal dir ?j (length fs) ?s1 = (Inr (entry_length (journal_entry C fs)), ?s2)"
    using open_directory_ok [OF ok1] ok1
    by (auto simp: settle_journal_def remove_file_def journal_entry_def entry_length_def open_directory_def path_exists_def
        dir_ok_def split: if_splits)
  have "laid C dir ?s2 m sn (journal_entry C fs)"
    using names only(2) by (intro laid_cong [OF laid]) simp_all
  then have "holds C dir ?s2 p n" using chat meta unfolding holds_def by blast
  moreover have "load_projection C u1 u2 dir s = (Inr (Some (settled p, n)), ?s2)"
    unfolding load_projection_laid [OF laid]
    using journal_file_long [of ?R fs rest] names(4) replayed rec settle bytes finish_load_idle [OF bytes(1)]
    by (simp add: io_simps discard_partial_header_def load_with_journal_def replay_result_def Let_def del: length_append)
  ultimately show ?thesis by (intro reloadsI [of _ _ _ _ _ "settled p"]) simp_all
qed

text \<open>A journal without a frame: no file, a file cut inside its header, or only a header.\<close>

lemma load_no_frame:
  assumes laid: "laid C dir s m sn J" and J: "J = None \<or> (\<exists>b. J = Some b \<and> length b < FILE_HEADER_LEN)"
    and chat: "chat_for C sn [] p" and meta: "meta_for C m p n []"
  shows "reloads C u1 u2 dir s p n"
proof -
  let ?j = "dir @ [chat_journal m]"
  let ?s2 = "s\<lparr>files := (files s)(?j := None)\<rparr>"
  have names: "?j \<noteq> task_path dir" "?j \<noteq> dir @ [chat_snapshot m]" "dir_ok s dir" "files s ?j = J"
    using laid by (auto simp: laid_def)
  have only: "only_entries dir s ?s2" by (rule only_entriesI [of _ dir "[(chat_journal m, None)]"]) simp_all
  have ok: "dir_ok ?s2 dir" using names(3) only by (auto simp: only_entries_def intro: dir_ok_cong)
  have bytes: "chat_journal_bytes m = Some 0" "chat_sequence m = 0" "storage_sequence m = n"
    using meta by (simp_all add: meta_for_def journal_entry_def entry_length_def)
  have "laid C dir ?s2 m sn (journal_entry C [])"
    using names only by (intro laid_cong [OF laid]) (simp_all add: journal_entry_def)
  then have h: "holds C dir ?s2 p n" using chat meta unfolding holds_def by blast
  have "discard_partial_header dir m s = (Inr (), ?s2)"
    using J names(4) bytes(2) open_directory_ok [OF ok]
    by (auto simp: discard_partial_header_def remove_file_def fun_upd_idem)
  then have "load_projection C u1 u2 dir s = (Inr (Some (chat_of sn (metadata_task m), n)), ?s2)"
    unfolding load_projection_laid [OF laid]
    using bytes finish_load_idle [OF bytes(1)] by (simp add: io_simps)
  with h show ?thesis using snapshot_settled [OF chat meta] by (intro reloadsI)
qed

lemma load_clean:
  assumes "laid C dir s m sn (journal_entry C fs)" "chat_for C sn fs p" "meta_for C m p n fs"
  shows "reloads C u1 u2 dir s p n"
proof (cases "fs = []")
  case True
  with assms show ?thesis by (intro load_no_frame [of C dir s m sn "journal_entry C fs"]) (simp_all add: journal_entry_def)
next
  case False
  let ?R = "chat_frame_record C" and ?j = "dir @ [chat_journal m]"
  from assms(1) False have l: "laid C dir s m sn (Some (journal_file ?R fs @ []))" by (simp add: journal_entry_def)
  then have "replay ?R ?j s = (Inr (replay_result ?R fs), s\<lparr>files := (files s)(?j := Some (journal_file ?R fs))\<rparr>)"
    using replay_clean [of ?R fs s ?j] assms(2) by (simp add: laid_def chat_for_def fun_upd_idem)
  from load_committed_frames [OF l assms(2,3) this] show ?thesis .
qed

lemma holds_reloads: "holds C dir s p n \<Longrightarrow> reloads C u1 u2 dir s p n"
  unfolding holds_def using load_clean by blast

section \<open>A frame the metadata does not name yet\<close>

text \<open>The batch \<open>ops\<close> turns \<open>p\<close> into \<open>p1\<close>.\<close>

definition batch_gives :: "task_projection \<Rightarrow> task_operation list \<Rightarrow> task_projection \<Rightarrow> bool" where
  "batch_gives p ops p1 \<longleftrightarrow>
     (let t = task_id (projected_task p) in
      tasks_first False ops \<and> task_id (projected_task p1) = t
      \<and> apply_operations t ops 0 (only_task t p 0) = Inr (only_task t p1 0))"

text \<open>The frame of that batch, written by a commit that read the metadata \<open>m\<close>.\<close>

definition frame_for :: "split_codec \<Rightarrow> task_metadata \<Rightarrow> task_operation list \<Rightarrow> task_projection \<Rightarrow> nat \<Rightarrow> chat_frame \<Rightarrow> bool" where
  "frame_for C m ops p1 i f \<longleftrightarrow>
     frame_journal f = \<lparr>frame_format_version = 1, frame_schema_version = CHAT_SCHEMA_VERSION, frame_sequence = i,
                        frame_operations = durable_chat_operations ops\<rparr>
     \<and> patch_between C (metadata_task m) (projected_task p1) = Inr (task_patch f)"

lemma chat_schema_as_u16 [simp]: "json_as_u16 (json_nat CHAT_SCHEMA_VERSION) = Some CHAT_SCHEMA_VERSION"
  by (simp add: json_nat_def CHAT_SCHEMA_VERSION_def dec_string_digits dec_value_string)

lemma frame_for_ok:
  assumes "codec_laws C" "frame_for C m ops p1 i f" "chat_frame_to_vec C f = Inr payload" "length payload \<le> MAX_FRAME_BYTES"
  shows "frame_ok (chat_frame_record C) i f"
proof -
  from assms(1,3) obtain v pv where "value_from_slice C payload = Inr v" "journal_frame_from_value C v = Inr (frame_journal f)"
    "json_get ''schema_version'' v = Some (json_nat (frame_schema_version (frame_journal f)))"
    "json_get ''task_patch'' v = Some pv" "patch_from_value C pv = Inr (task_patch f)"
    unfolding codec_laws_def by blast
  then have "decode_chat_frame C payload = Inr f"
    using assms(2) by (simp add: decode_chat_frame_def decode_journal_frame_def frame_for_def Let_def)
  with assms show ?thesis
    by (simp add: frame_ok_def chat_frame_record_def frame_for_def FORMAT_VERSION_def)
qed

lemma laid_publish:
  assumes "laid C dir s m sn J" "codec_laws C"
    and "task_file_to_vec C (task_file_of task n c (chat_snapshot m) (chat_journal m) len) = Inr b"
    and "only_entries dir s s'" "files s' (task_path dir) = Some b"
    and "files s' (dir @ [chat_snapshot m]) = files s (dir @ [chat_snapshot m])" "files s' (dir @ [chat_journal m]) = J'"
  shows "laid C dir s' (published_meta task n c (chat_snapshot m) (chat_journal m) len) sn J'"
  using assms load_task_published [OF assms(2,3,5)] load_chat_snapshot_cong [of s' "dir @ [chat_snapshot m]" s C]
    dir_ok_cong [of s' s dir]
  by (simp add: laid_def only_entries_def)

lemma encodes_cleared:
  assumes "codec_laws C" "task_to_fields C (cleared task) = Inr ms" "hist0 t = hist0 (cleared task)"
  obtains b where "task_file_to_vec C (task_file_of t n c snapshot journal len) = Inr b"
proof -
  have "hist0 (cleared t) = hist0 (cleared task)" using hist0_cleared [OF assms(3)] by simp
  moreover have "task_fields_law C" using assms(1) by (simp add: codec_laws_def)
  ultimately obtain ms' where "task_to_fields C (cleared t) = Inr ms'"
    using task_fields_history [OF _ assms(2)] by metis
  with assms(1) have "\<exists>b. task_file_to_vec C (task_file_of t n c snapshot journal len) = Inr b"
    unfolding codec_laws_def by (simp add: task_file_of_def)
  then show ?thesis using that by blast
qed

lemma chat_for_snoc:
  assumes "chat_for C sn fs p" "batch_gives p ops p1" "frame_ok (chat_frame_record C) (Suc (length fs)) f"
    and "frame_operations (frame_journal f) = durable_chat_operations ops"
  shows "chat_for C sn (fs @ [f]) p1"
  using assms replays_to_snoc [of "task_id (projected_task p)" sn fs p ops 0 0 "only_task (task_id (projected_task p)) p1 0" p1 f]
  by (simp add: chat_for_def batch_gives_def frames_ok_append Let_def)

lemma load_uncommitted_frame:
  assumes codec: "codec_laws C" and laid: "laid C dir s m sn (Some (journal_file (chat_frame_record C) (fs @ [f])))"
    and chat: "chat_for C sn fs p" and meta: "meta_for C m p n fs"
    and batch: "batch_gives p ops p1" and frame: "frame_for C m ops p1 (Suc (length fs)) f"
    and ok: "frame_ok (chat_frame_record C) (Suc (length fs)) f" and fresh: "fresh dir u1 s"
  shows "reloads C u1 u2 dir s p1 (sat_add64 n 1)"
proof -
  let ?R = "chat_frame_record C" and ?j = "dir @ [chat_journal m]" and ?fs = "fs @ [f]"
  let ?len = "length (journal_file ?R ?fs)" and ?t = "task_id (projected_task p)"
  have names: "?j \<noteq> task_path dir" "dir @ [chat_snapshot m] \<noteq> task_path dir" "dir_ok s dir" "task_path dir \<notin> dirs s"
    "files s ?j = Some (journal_file ?R ?fs)"
    using laid by (auto simp: laid_def)
  have bytes: "chat_sequence m = length fs" "storage_sequence m = n" using meta by (simp_all add: meta_for_def)
  have ops: "frame_operations (frame_journal f) = durable_chat_operations ops" "chat_sequence_of f = Suc (length fs)"
    "patch_between C (metadata_task m) (projected_task p1) = Inr (task_patch f)"
    using frame by (simp_all add: frame_for_def)
  have chat1: "chat_for C sn ?fs p1" by (rule chat_for_snoc [OF chat batch ok ops(1)])
  then have replayed: "replay ?R ?j s = (Inr (replay_result ?R ?fs), s)"
    using names(5) by (intro replay_clean) (simp_all add: chat_for_def)
  have "map chat_sequence_of fs = [1..<Suc (length fs)]"
    using chat chat_frame_sequences [of C 1 fs] by (simp add: chat_for_def del: upt_Suc)
  with chat meta batch codec ops meta_for_task_id [OF meta] have
    rec: "recover_chat_frames C m (chat_of sn (metadata_task m)) ?fs = Inr (settled p1)"
    by (intro recover_uncommitted [of C ?t _ _ p _ ops 0 0 "only_task ?t p1 0"])
       (simp_all add: chat_for_def meta_for_def batch_gives_def codec_laws_def Let_def del: upt_Suc)
  from ops(3) obtain ms where ms: "task_to_fields C (cleared (projected_task p1)) = Inr ms"
    by (auto simp: patch_between_def and_then_eq_Inr)
  have hist: "hist0 (projected_task (settled p1)) = hist0 (cleared (projected_task p1))" by (simp add: settled_def)
  obtain b where b: "task_file_to_vec C (task_file_of (projected_task (settled p1)) (sat_add64 n 1) (Suc (length fs))
      (chat_snapshot m) (chat_journal m) ?len) = Inr b"
    by (rule encodes_cleared [OF codec ms hist])
  let ?s2 = "s\<lparr>files := (files s)(task_path dir := Some b)\<rparr>"
  have only: "only_entries dir s ?s2" by (rule only_entriesI [of _ dir "[(TASK_FILE, Some b)]"]) simp_all
  have publish: "unfaulted (publish_task C u1 dir (projected_task (settled p1)) (sat_add64 n 1) (Suc (length fs))
      (chat_snapshot m) (chat_journal m)) s = (Inr (), ?s2)"
    using b names by (intro unfaulted_publish [OF fresh]) (simp_all add: entry_length_def)
  have "laid C dir ?s2 (published_meta (projected_task (settled p1)) (sat_add64 n 1) (Suc (length fs))
      (chat_snapshot m) (chat_journal m) ?len) sn (journal_entry C ?fs)"
    using names only by (intro laid_publish [OF laid codec b]) (simp_all add: journal_entry_def)
  moreover have "meta_for C (published_meta (projected_task (settled p1)) (sat_add64 n 1) (Suc (length fs))
      (chat_snapshot m) (chat_journal m) ?len) p1 (sat_add64 n 1) ?fs"
    using hist0_cleared [OF hist] by (simp add: meta_for_def journal_entry_def entry_length_def)
  ultimately have "holds C dir ?s2 p1 (sat_add64 n 1)" using chat1 unfolding holds_def by blast
  moreover have "load_projection C u1 u2 dir s = (Inr (Some (settled p1, sat_add64 n 1)), ?s2)"
    unfolding load_projection_laid [OF laid]
    using journal_file_long [of ?R ?fs "[]"] names(5) replayed rec bytes publish
    by (simp add: io_simps discard_partial_header_def load_with_journal_def replay_result_def settle_journal_def
        rewrite_snapshot_def Let_def)
  ultimately show ?thesis by (intro reloadsI [of _ _ _ _ _ "settled p1"]) simp_all
qed

end
