(* ===== verification/Spec2Isabelle.thy ===== *)
theory Spec2Isabelle
  imports Journal_Durability Reliable_Session_Facts State_Sync_Facts Client_Lifecycle_Facts Request_Runtime_Facts
    Task_Record_Facts Journal_Projection_Facts Journal_Scheduler_Facts Split_Load_Facts
begin

text \<open>
  A verification development of the OpenAIDE App Server (\<open>src/openaide-rs/app-server\<close>), the process
  that owns the Tasks of a user, runs their Agents and serves any number of clients (web, desktop,
  mobile and editor frontends).

  \<^bold>\<open>The parts and how they interact.\<close> A client reaches the server over a transport that may break
  at any time; \<^emph>\<open>resumable sessions\<close> (\<open>protocol_edge/reliable_session.rs\<close>) turn such transports into
  exactly-once frames. The \<^emph>\<open>client hub\<close> (\<open>client_lifecycle.rs\<close>) knows which client is behind which
  connection and when a silent client is gone, and the \<^emph>\<open>server lifecycle\<close> (\<open>app_lifecycle.rs\<close>)
  decides on admission and shutdown. State reaches clients through the \<^emph>\<open>state stream\<close>
  (\<open>state_sync.rs\<close>): subscriptions, events with cursors, and the \<^emph>\<open>Task change log\<close>
  (\<open>state_sync/task_change_log.rs\<close>) that lets a returning client catch up. Questions the other way,
  from an Agent to the user, go through the \<^emph>\<open>request broker\<close> and its \<^emph>\<open>runtime\<close>
  (\<open>server_requests\<close>). What a Task does becomes \<^emph>\<open>operations\<close> on its record and
  Chat (\<open>storage/task_journal/model.rs\<close>, \<open>projection.rs\<close>), which a bounded \<^emph>\<open>scheduler\<close>
  (\<open>scheduler.rs\<close>) hands in batches to one storage worker, and which are kept in a \<^emph>\<open>framed journal
  file\<close> (\<open>frame.rs\<close>).

  \<^bold>\<open>The theories.\<close>
  \<^item> \<open>Prelude\<close>: machine integers, decimal rendering, fallible steps, association lists, and the two
    locales \<open>step_machine\<close> and \<open>invariant_machine\<close> of components driven by a sequence of calls;
    \<open>Json_Value\<close>: JSON values; \<open>Runtime_Error\<close>: the error type (\<open>protocol/errors.rs\<close>).
  \<^item> \<open>Journal_Frame\<close>: the journal file byte by byte: CRC-32, frame headers, appending, replaying,
    truncating and atomically replacing a file, over an explicit disk with crashes.
    \<open>Journal_Frame_Facts\<close> and \<open>Journal_Replace_Facts\<close> show that the table-driven checksum detects
    every corruption of one byte and what each file operation does; \<open>Append_Log\<close> is the contract of an
    append-only log as a locale, and \<open>Journal_Durability\<close> interprets it for the file and proves the
    round trip, durability of acknowledged appends across crashes, soundness of replay of damaged
    files, and atomicity of compaction.
  \<^item> \<open>Reliable_Session\<close> and \<open>Reliable_Session_Facts\<close>: the session store; every frame of a client is
    handed on exactly once and in order, a resumed link misses nothing, the newest link owns the
    session.
  \<^item> \<open>Client_Lifecycle\<close> and \<open>Client_Lifecycle_Facts\<close>: hub and server lifecycle; connections, clients
    and deliveries agree, clients expire only after their grace period, at most one shutdown is
    planned.
  \<^item> \<open>Task_Change_Log\<close> and \<open>Task_Change_Log_Facts\<close>: the log's byte bounds and the completeness of a
    replay. \<open>State_Sync\<close> and \<open>State_Sync_Facts\<close>: the stream on top of it, through the locale
    \<open>replay_source\<close>; each event reaches every matching subscription once, cursors link up, presence is
    exact, a resumed Task misses no change.
  \<^item> \<open>Request_Broker\<close>, \<open>Request_Runtime\<close> and their \<open>Facts\<close>: the broker refines a board of open
    requests; each request is concluded once, by a client it was meant for, and an accepted answer is
    the one the Agent gets; a new request reaches every client that can answer it.
  \<^item> \<open>Rust_String\<close>, \<open>Chat_Model\<close>, \<open>Time_Stamps\<close>: string operations of the standard library, the messages
    of a Chat (\<open>protocol/model\<close>), and timestamps (\<open>time.rs\<close>), whose closed-form day numbers count days.
    \<open>Task_Title\<close>, \<open>Task_Record\<close> and \<open>Task_Record_Facts\<close>: the stored record of a Task
    (\<open>storage/records.rs\<close> and its neighbours); titles stay well formed and keep their owner, composer
    history is the recent distinct texts, a reload hint is the newest one not yet covered.
  \<^item> \<open>Journal_Model\<close>, \<open>Journal_Projection\<close> and \<open>Journal_Projection_Facts\<close>: the operations a journal
    frame carries and the projection they rebuild (\<open>task_journal/model.rs\<close>, \<open>projection.rs\<close>,
    \<open>store/reduce.rs\<close>, \<open>store/semantic_noops.rs\<close>, \<open>store/chat_changes.rs\<close>); a checked batch applies,
    coalescing text deltas changes nothing, a replayed Chat has no duplicates. \<open>Journal_Scheduler\<close>,
    \<open>Journal_Scheduler_Batches\<close> and \<open>Journal_Scheduler_Facts\<close>: the queue between callers and the storage worker
    (\<open>task_journal/scheduler.rs\<close>); memory is bounded, a barrier follows exactly the writes admitted
    before it, batches keep their limits, and a shutdown drains every queue and ends. The fuel of the
    worker loop there is one iteration per queued write and three for reset, purge and shutdown.

  \<^bold>\<open>Conventions.\<close> A struct is a record, an enum a datatype; a method on \<open>&mut self\<close> takes the state as
  its last argument and returns it. Rust's \<open>u64\<close> is a natural number with its wrap-around written out;
  theorems that need counters not to wrap count the calls (at most \<open>2^64 - 2\<close>). Hash maps that the code
  iterates over are association lists, and every theorem holds for every order of the list. A loop that
  need not end is a \<open>partial_function (option)\<close>, and its theorems prove that it returns. Methods that
  hold a lock for their whole body are single steps; a waiting loop that releases it is one step per
  iteration. Code of other crates (serialization, the clock, the file system) is an argument, a record
  of functions, or an explicit state with the failures it may have.

  \<^bold>\<open>Not modelled.\<close> The worker thread that commits batches to the files of a Task directory, and
  Tool artifacts; settings on disk; the workflows of Tasks and turns; Agent processes and the Agent Client Protocol;
  HTTP, WebSocket and stdio transports and JSON-RPC dispatch; snapshots read from storage, which the
  stream sees through its provider trait; terminals, file viewers, git worktrees; remote devices, the
  keeper and mobile bindings. Logging and metrics are left out throughout.
\<close>

end
